(* ===== verification/Go_Strconv.thy ===== *)
theory Go_Strconv
  imports Go_Prelude
begin

text \<open>
  The part of Go's \<^verbatim>\<open>strconv\<close> the client uses on integers: decimal rendering
  (\<^verbatim>\<open>strconv.Itoa\<close>, \<^verbatim>\<open>FormatInt(v, 10)\<close>, the verb \<^verbatim>\<open>%d\<close>) and decimal parsing
  (\<^verbatim>\<open>ParseInt(s, 10, 64)\<close>, \<^verbatim>\<open>Atoi\<close>), with the round trip between them, and the hexadecimal
  rendering of bytes (the verb \<^verbatim>\<open>%x\<close> on a byte slice). \<^verbatim>\<open>int\<close> is 64 bits wide.
\<close>

section \<open>Rendering\<close>

definition digitChar :: "nat \<Rightarrow> char" where
  "digitChar d = char_of (48 + d)"

fun formatNat :: "nat \<Rightarrow> string" where
  "formatNat n = (if n < 10 then [digitChar n] else formatNat (n div 10) @ [digitChar (n mod 10)])"

declare formatNat.simps [simp del]

definition formatInt :: "int \<Rightarrow> string" where
  "formatInt i = (if i < 0 then CHR ''-'' # formatNat (nat (- i)) else formatNat (nat i))"

section \<open>Parsing\<close>

datatype num_error = ErrSyntax | ErrRange

definition isDigit :: "char \<Rightarrow> bool" where
  "isDigit c = (48 \<le> (of_char c :: nat) \<and> (of_char c :: nat) \<le> 57)"

definition digitVal :: "char \<Rightarrow> nat" where
  "digitVal c = of_char c - 48"

fun parseDigits :: "nat \<Rightarrow> string \<Rightarrow> nat option" where
  "parseDigits acc [] = Some acc"
| "parseDigits acc (c # cs) = (if isDigit c then parseDigits (10 * acc + digitVal c) cs else None)"

text \<open>\<^verbatim>\<open>ParseUint(s, 10, 64)\<close> before the range check: an empty string is a syntax error.\<close>

definition parseNat :: "string \<Rightarrow> nat option" where
  "parseNat s = (if s = [] then None else parseDigits 0 s)"

definition parseInt :: "string \<Rightarrow> num_error + int64" where
  "parseInt s =
     (let neg = (s \<noteq> [] \<and> hd s = CHR ''-'');
          body = (if s \<noteq> [] \<and> (hd s = CHR ''+'' \<or> hd s = CHR ''-'') then tl s else s)
      in case parseNat body of
           None \<Rightarrow> Inl ErrSyntax
         | Some n \<Rightarrow>
             if \<not> neg \<and> n \<ge> 2 ^ 63 \<or> neg \<and> n > 2 ^ 63 then Inl ErrRange
             else Inr (word_of_int (if neg then - int n else int n)))"

text \<open>\<^verbatim>\<open>Atoi\<close> is \<^verbatim>\<open>ParseInt(s, 10, 0)\<close> converted to \<^verbatim>\<open>int\<close>; here as the integer it denotes.\<close>

definition atoi :: "string \<Rightarrow> num_error + int" where
  "atoi s = map_sum id sint (parseInt s)"

section \<open>Hexadecimal\<close>

definition hexChar :: "nat \<Rightarrow> char" where
  "hexChar d = (if d < 10 then char_of (48 + d) else char_of (87 + d))"

definition hexByte :: "8 word \<Rightarrow> string" where
  "hexByte b = [hexChar (unat b div 16), hexChar (unat b mod 16)]"

text \<open>\<^verbatim>\<open>%x\<close> on a byte slice.\<close>

definition hexBytes :: "8 word list \<Rightarrow> string" where
  "hexBytes bs = concat (map hexByte bs)"

lemma length_hexBytes [simp]: "length (hexBytes bs) = 2 * length bs"
  by (induction bs) (auto simp: hexBytes_def hexByte_def)

section \<open>The round trip\<close>

lemma of_char_digitChar [simp]: "d < 10 \<Longrightarrow> (of_char (digitChar d) :: nat) = 48 + d"
  by (simp add: digitChar_def)

lemma isDigit_digitChar [simp]: "d < 10 \<Longrightarrow> isDigit (digitChar d)"
  by (simp add: isDigit_def)

lemma digitVal_digitChar [simp]: "d < 10 \<Longrightarrow> digitVal (digitChar d) = d"
  by (simp add: digitVal_def)

lemma formatNat_not_Nil [simp]: "formatNat n \<noteq> []"
  by (subst formatNat.simps) simp

lemma formatNat_isDigit: "c \<in> set (formatNat n) \<Longrightarrow> isDigit c"
proof (induction n rule: formatNat.induct)
  case (1 n)
  then show ?case
    by (subst (asm) (2) formatNat.simps) (auto split: if_splits)
qed

lemma isDigit_simps [simp]:
  "\<not> isDigit CHR ''-''" "\<not> isDigit CHR ''+''" "\<not> isDigit (CHR 0x0A)" "\<not> isDigit (CHR 0x0D)"
  by (simp_all add: isDigit_def)

lemma formatNat_chars [simp]:
  "CHR ''-'' \<notin> set (formatNat n)" "CHR ''+'' \<notin> set (formatNat n)"
  "CHR 0x0A \<notin> set (formatNat n)" "CHR 0x0D \<notin> set (formatNat n)"
  by (auto dest: formatNat_isDigit)

lemma parseDigits_append:
  "parseDigits acc (xs @ ys) = Option.bind (parseDigits acc xs) (\<lambda>a. parseDigits a ys)"
  by (induction xs arbitrary: acc) auto

lemma parseDigits_formatNat: "parseDigits 0 (formatNat n) = Some n"
proof (induction n rule: formatNat.induct)
  case (1 n)
  show ?case
  proof (cases "n < 10")
    case True
    then show ?thesis by (subst formatNat.simps) simp
  next
    case False
    with 1 show ?thesis by (subst formatNat.simps) (simp add: parseDigits_append)
  qed
qed

lemma parseNat_formatNat [codec_simps]: "parseNat (formatNat n) = Some n"
  by (simp add: parseNat_def parseDigits_formatNat)

lemma hd_formatNat [simp]: "hd (formatNat n) \<noteq> CHR ''-''" "hd (formatNat n) \<noteq> CHR ''+''"
  using formatNat_chars formatNat_not_Nil hd_in_set by metis+

lemma digitChar_eq_zero: "d < 10 \<Longrightarrow> digitChar d = CHR ''0'' \<longleftrightarrow> d = 0"
proof
  assume d: "d < 10" "digitChar d = CHR ''0''"
  then have "(of_char (digitChar d) :: nat) = of_char (CHR ''0'')" by (simp only:)
  with d(1) show "d = 0" by simp
next
  assume "d < 10" "d = 0"
  then show "digitChar d = CHR ''0''" by (intro char_eqI) simp
qed

lemma hd_formatNat_zero: "hd (formatNat n) = CHR ''0'' \<longleftrightarrow> n = 0"
proof (induction n rule: formatNat.induct)
  case (1 n)
  show ?case
  proof (cases "n < 10")
    case True
    then show ?thesis by (subst formatNat.simps) (simp add: digitChar_eq_zero)
  next
    case False
    with 1 have "hd (formatNat (n div 10)) \<noteq> CHR ''0''" by simp
    with False show ?thesis by (subst formatNat.simps) simp
  qed
qed

lemma parseInt_formatInt [codec_simps]:
  assumes "- (2 ^ 63) \<le> i" and "i < 2 ^ 63"
  shows "parseInt (formatInt i) = Inr (word_of_int i)"
  using assms by (auto simp: parseInt_def formatInt_def parseNat_formatNat Let_def)

lemma parseInt_formatInt_sint [codec_simps]: "parseInt (formatInt (sint w)) = Inr (w :: int64)"
proof -
  have "- (2 ^ 63) \<le> sint w" and "sint w < 2 ^ 63"
    using sint_greater_eq [of w] sint_less [of w] by simp_all
  then show ?thesis by (simp add: parseInt_formatInt)
qed

lemma atoi_formatInt [codec_simps]:
  assumes "- (2 ^ 63) \<le> i" and "i < 2 ^ 63"
  shows "atoi (formatInt i) = Inr i"
proof -
  have "sint (word_of_int i :: int64) = i"
    using assms by (simp add: sint_int64)
  with parseInt_formatInt [OF assms] show ?thesis by (simp add: atoi_def)
qed

lemma atoi_formatNat [codec_simps]: "n < 2 ^ 63 \<Longrightarrow> atoi (formatNat n) = Inr (int n)"
  using atoi_formatInt [of "int n"] by (simp add: formatInt_def)

lemma formatInt_not_Nil [simp]: "formatInt i \<noteq> []"
  by (simp add: formatInt_def)

lemma formatInt_chars [simp]: "CHR 0x0A \<notin> set (formatInt i)" "CHR 0x0D \<notin> set (formatInt i)"
  by (auto simp: formatInt_def)

end
