(* ===== verification/Go_Float.thy ===== *)
theory Go_Float
  imports Go_Strconv Complex_Main
begin

text \<open>
  Go's \<^verbatim>\<open>float64\<close> (IEEE 754 binary64) as far as the client uses it: conversion from and to
  integers, the tests against zero, and its text forms: \<^verbatim>\<open>strconv.FormatFloat(v, 'f', -1, 64)\<close>,
  the verb \<^verbatim>\<open>%v\<close> (shortest \<^verbatim>\<open>%g\<close>), the form \<^verbatim>\<open>encoding/json\<close> writes, and
  \<^verbatim>\<open>strconv.ParseFloat(s, 64)\<close>. A finite value is its sign and its magnitude, a rational; every
  value the model produces goes through \<open>roundRat\<close>, the rounding to the nearest binary64 with ties to
  even. Conversions of floats that do not fit the integer type are implementation-dependent in Go;
  the model takes what the amd64 compiler emits.
\<close>

datatype float64 = FNaN | FInf bool | FNum bool rat

section \<open>Rounding\<close>

text \<open>The number of digits of \<open>n\<close> in base \<open>b\<close>; 0 for 0.\<close>

fun ndigits :: "nat \<Rightarrow> nat \<Rightarrow> nat" where
  "ndigits b n = (if b \<le> 1 \<or> n = 0 then 0 else Suc (ndigits b (n div b)))"

declare ndigits.simps [simp del]

definition roundHalfEven :: "nat \<Rightarrow> nat \<Rightarrow> nat" where
  "roundHalfEven num den =
     (let q = num div den; r = num mod den
      in if 2 * r > den \<or> (2 * r = den \<and> odd q) then Suc q else q)"

text \<open>The exponent of the last place: the quotient scaled by it has 53 bits (fewer when subnormal).\<close>

definition lastPlace :: "nat \<Rightarrow> nat \<Rightarrow> int" where
  "lastPlace num den =
     (let e = int (ndigits 2 num) - int (ndigits 2 den) - 53
      in max (- 1074)
           (if num * 2 ^ nat (- (53 + e)) \<ge> den * 2 ^ nat (53 + e) then e + 1 else e))"

definition roundRat :: "bool \<Rightarrow> nat \<Rightarrow> nat \<Rightarrow> float64" where
  "roundRat neg num den =
     (if num = 0 then FNum neg 0
      else let e = lastPlace num den;
               m = roundHalfEven (num * 2 ^ nat (- e)) (den * 2 ^ nat e)
           in if e > 971 \<or> (e = 971 \<and> m \<ge> 2 ^ 53) then FInf neg
              else FNum neg (of_nat (m * 2 ^ nat e) / 2 ^ nat (- e)))"

section \<open>Integers\<close>

definition floatOfInt :: "int \<Rightarrow> float64" where
  "floatOfInt i = roundRat (i < 0) (nat \<bar>i\<bar>) 1"

definition truncFloat :: "float64 \<Rightarrow> int option" where
  "truncFloat f =
     (case f of FNum neg q \<Rightarrow> Some (if neg then - \<lfloor>q\<rfloor> else \<lfloor>q\<rfloor>) | _ \<Rightarrow> None)"

text \<open>\<^verbatim>\<open>int64(f)\<close> and \<^verbatim>\<open>int(f)\<close>: a value out of range gives the smallest integer.\<close>

definition int64OfFloat :: "float64 \<Rightarrow> int64" where
  "int64OfFloat f =
     (case truncFloat f of
        Some i \<Rightarrow> if - (2 ^ 63) \<le> i \<and> i < 2 ^ 63 then word_of_int i else word_of_int (- (2 ^ 63))
      | None \<Rightarrow> word_of_int (- (2 ^ 63)))"

text \<open>\<^verbatim>\<open>uint64(f)\<close>: below \<open>2^63\<close> the signed conversion, otherwise the signed conversion of
  \<open>f - 2^63\<close> with the top bit flipped (a NaN takes the second branch).\<close>

definition uint64OfFloat :: "float64 \<Rightarrow> uint64" where
  "uint64OfFloat f =
     (case truncFloat f of
        Some i \<Rightarrow> if i < 2 ^ 63 then int64OfFloat f
                   else if i < 2 ^ 64 then word_of_int i else 0
      | None \<Rightarrow> if f = FInf True then word_of_int (- (2 ^ 63)) else 0)"

text \<open>\<^verbatim>\<open>byte(f)\<close>: the low byte of the conversion to a 32-bit integer.\<close>

definition byteOfFloat :: "float64 \<Rightarrow> 8 word" where
  "byteOfFloat f =
     (case truncFloat f of
        Some i \<Rightarrow> if - (2 ^ 31) \<le> i \<and> i < 2 ^ 31 then word_of_int i else 0
      | None \<Rightarrow> 0)"

definition floatPos :: "float64 \<Rightarrow> bool" where
  "floatPos f = (case f of FNaN \<Rightarrow> False | FInf neg \<Rightarrow> \<not> neg | FNum neg q \<Rightarrow> \<not> neg \<and> q > 0)"

definition floatNonzero :: "float64 \<Rightarrow> bool" where
  "floatNonzero f = (case f of FNum _ q \<Rightarrow> q \<noteq> 0 | _ \<Rightarrow> True)"

section \<open>Text\<close>

text \<open>The decimal exponent \<open>k\<close> with \<open>10^k \<le> num/den < 10^(k+1)\<close>.\<close>

definition decimalExp :: "nat \<Rightarrow> nat \<Rightarrow> int" where
  "decimalExp num den =
     (let k = int (ndigits 10 num) - int (ndigits 10 den)
      in if num * 10 ^ nat (- k) \<ge> den * 10 ^ nat k then k else k - 1)"

text \<open>
  The \<open>n\<close>-digit decimals around the value, as integers scaled by \<open>10^t\<close>; the one that reads back
  as the same float, the nearer one if both do.
\<close>

definition tryDigits :: "rat \<Rightarrow> nat \<Rightarrow> nat \<Rightarrow> nat \<Rightarrow> (nat \<times> int) option" where
  "tryDigits q num den n =
     (let t = decimalExp num den - int n + 1;
          a = num * 10 ^ nat (- t); b = den * 10 ^ nat t;
          lo = a div b; r = a mod b; hi = Suc lo;
          ok = (\<lambda>d. roundRat False (d * 10 ^ nat t) (10 ^ nat (- t)) = FNum False q)
      in if r = 0 then Some (lo, t)
         else if ok lo \<and> (\<not> ok hi \<or> 2 * r < b \<or> (2 * r = b \<and> even lo)) then Some (lo, t)
         else if ok hi then Some (hi, t) else None)"

fun shortestFrom :: "nat \<Rightarrow> nat \<Rightarrow> rat \<Rightarrow> nat \<Rightarrow> nat \<Rightarrow> nat \<times> int" where
  "shortestFrom 0 n q num den = (0, 0)"
| "shortestFrom (Suc left) n q num den =
     (case tryDigits q num den n of Some r \<Rightarrow> r | None \<Rightarrow> shortestFrom left (Suc n) q num den)"

text \<open>
  The shortest digits that read back as the same float, without trailing zeros, and the position of
  the decimal point in front of them (Go's \<^verbatim>\<open>digs.d\<close> and \<^verbatim>\<open>digs.dp\<close>). Seventeen digits always
  identify a binary64 value. Zero has no digits.
\<close>

definition shortest :: "rat \<Rightarrow> string \<times> int" where
  "shortest q =
     (if q = 0 then ([], 0)
      else let (num, den) = quotient_of q;
               (d, t) = shortestFrom 17 1 q (nat num) (nat den);
               s = formatNat d
           in (trimRight s {CHR ''0''}, int (length s) + t))"

definition zeros :: "nat \<Rightarrow> string" where
  "zeros n = replicate n CHR ''0''"

text \<open>Go's \<^verbatim>\<open>fmtF\<close> with the fewest fraction digits and \<^verbatim>\<open>fmtE\<close> with all of them.\<close>

definition fmtF :: "string \<Rightarrow> int \<Rightarrow> string" where
  "fmtF ds dp =
     (if dp > 0 then take (nat dp) ds @ zeros (nat dp - length ds) else ''0'')
     @ (if int (length ds) > dp
        then ''.'' @ zeros (nat (- dp)) @ drop (nat dp) ds else [])"

definition fmtE :: "string \<Rightarrow> int \<Rightarrow> string" where
  "fmtE ds dp =
     (let e = (if ds = [] then 0 else dp - 1); a = nat \<bar>e\<bar>
      in (if ds = [] then ''0'' else [hd ds])
         @ (if length ds > 1 then ''.'' @ tl ds else [])
         @ ''e'' @ (if e < 0 then ''-'' else ''+'')
         @ (if a < 10 then ''0'' else []) @ formatNat a)"

definition signStr :: "bool \<Rightarrow> string" where
  "signStr neg = (if neg then ''-'' else [])"

definition formatSpecial :: "float64 \<Rightarrow> string" where
  "formatSpecial f = (case f of FNaN \<Rightarrow> ''NaN'' | FInf neg \<Rightarrow> (if neg then ''-Inf'' else ''+Inf'') | FNum _ _ \<Rightarrow> [])"

text \<open>\<^verbatim>\<open>strconv.FormatFloat(v, 'f', -1, 64)\<close>.\<close>

definition formatFloatF :: "float64 \<Rightarrow> string" where
  "formatFloatF f =
     (case f of FNum neg q \<Rightarrow> (let (ds, dp) = shortest q in signStr neg @ fmtF ds dp)
              | _ \<Rightarrow> formatSpecial f)"

text \<open>The verb \<^verbatim>\<open>%v\<close>: shortest \<^verbatim>\<open>%g\<close>, exponent form below \<open>10^-4\<close> and from \<open>10^6\<close> on.\<close>

definition formatFloatV :: "float64 \<Rightarrow> string" where
  "formatFloatV f =
     (case f of FNum neg q \<Rightarrow>
        (let (ds, dp) = shortest q
         in signStr neg @ (if dp - 1 < - 4 \<or> dp - 1 \<ge> 6 then fmtE ds dp else fmtF ds dp))
      | _ \<Rightarrow> formatSpecial f)"

text \<open>
  What \<^verbatim>\<open>encoding/json\<close> writes: plain decimals between \<open>10^-6\<close> and \<open>10^21\<close>, exponent form
  otherwise (with \<^verbatim>\<open>e-09\<close> shortened to \<^verbatim>\<open>e-9\<close>), and an error for NaN and the infinities.
\<close>

definition cleanExp :: "string \<Rightarrow> string" where
  "cleanExp b =
     (let n = length b
      in if n \<ge> 4 \<and> b ! (n - 4) = CHR ''e'' \<and> b ! (n - 3) = CHR ''-'' \<and> b ! (n - 2) = CHR ''0''
         then take (n - 2) b @ [b ! (n - 1)] else b)"

definition formatFloatJSON :: "float64 \<Rightarrow> string option" where
  "formatFloatJSON f =
     (case f of
        FNum neg q \<Rightarrow>
          (let (ds, dp) = shortest q
           in Some (if q \<noteq> 0 \<and> (q < 1 / 10 ^ 6 \<or> q \<ge> 10 ^ 21)
                    then cleanExp (signStr neg @ fmtE ds dp) else signStr neg @ fmtF ds dp))
      | _ \<Rightarrow> None)"

section \<open>Parsing\<close>

definition lowerChar :: "char \<Rightarrow> char" where
  "lowerChar c =
     (let n = of_char c :: nat in if 65 \<le> n \<and> n \<le> 90 then char_of (n + 32) else c)"

definition isHexLetter :: "char \<Rightarrow> bool" where
  "isHexLetter c = (97 \<le> (of_char (lowerChar c) :: nat) \<and> (of_char (lowerChar c) :: nat) \<le> 102)"

definition hexVal :: "char \<Rightarrow> nat" where
  "hexVal c = (if isDigit c then digitVal c else of_char (lowerChar c) - 87)"

text \<open>The digits before and after the point: mantissa, fraction digits, whether a digit and an
  underscore were seen, and the rest.\<close>

fun scanMantissa :: "bool \<Rightarrow> bool \<Rightarrow> nat \<Rightarrow> nat \<Rightarrow> bool \<Rightarrow> bool \<Rightarrow> string
    \<Rightarrow> nat \<times> nat \<times> bool \<times> bool \<times> string" where
  "scanMantissa hex dot m fr dig us [] = (m, fr, dig, us, [])"
| "scanMantissa hex dot m fr dig us (c # cs) =
     (if c = CHR ''_'' then scanMantissa hex dot m fr dig True cs
      else if c = CHR ''.'' then
        (if dot then (m, fr, dig, us, c # cs) else scanMantissa hex True m fr dig us cs)
      else if isDigit c \<or> (hex \<and> isHexLetter c) then
        scanMantissa hex dot ((if hex then 16 else 10) * m + hexVal c)
          (if dot then Suc fr else fr) True us cs
      else (m, fr, dig, us, c # cs))"

fun scanExp :: "nat \<Rightarrow> bool \<Rightarrow> string \<Rightarrow> nat \<times> bool \<times> string" where
  "scanExp e us [] = (e, us, [])"
| "scanExp e us (c # cs) =
     (if c = CHR ''_'' then scanExp e True cs
      else if isDigit c then scanExp (if e < 10000 then 10 * e + digitVal c else e) us cs
      else (e, us, c # cs))"

text \<open>\<^verbatim>\<open>underscoreOK\<close>: the last character class seen is \<open>d\<close> (digit or base prefix), \<open>u\<close>
  (underscore) or another.\<close>

fun underscoreScan :: "bool \<Rightarrow> char \<Rightarrow> string \<Rightarrow> bool" where
  "underscoreScan hex saw [] = (saw \<noteq> CHR ''u'')"
| "underscoreScan hex saw (c # cs) =
     (if isDigit c \<or> (hex \<and> isHexLetter c) then underscoreScan hex CHR ''d'' cs
      else if c = CHR ''_'' then saw = CHR ''d'' \<and> underscoreScan hex CHR ''u'' cs
      else saw \<noteq> CHR ''u'' \<and> underscoreScan hex CHR ''x'' cs)"

definition stripSign :: "string \<Rightarrow> string" where
  "stripSign s = (if s \<noteq> [] \<and> (hd s = CHR ''-'' \<or> hd s = CHR ''+'') then tl s else s)"

definition underscoreOK :: "string \<Rightarrow> bool" where
  "underscoreOK s =
     (let t = stripSign s
      in if length t \<ge> 2 \<and> hd t = CHR ''0'' \<and> lowerChar (t ! 1) \<in> {CHR ''b'', CHR ''o'', CHR ''x''}
         then underscoreScan (lowerChar (t ! 1) = CHR ''x'') CHR ''d'' (drop 2 t)
         else underscoreScan False CHR ''b'' t)"

text \<open>The optional exponent after the mantissa: its value, and whether the whole string was read.\<close>

definition readExp :: "bool \<Rightarrow> string \<Rightarrow> (int \<times> bool) option" where
  "readExp hex s =
     (if s \<noteq> [] \<and> lowerChar (hd s) = (if hex then CHR ''p'' else CHR ''e'') then
        (let t = tl s; u = stripSign t
         in if u = [] \<or> \<not> isDigit (hd u) then None
            else let (e, us, rest) = scanExp 0 False u
                 in if rest \<noteq> [] then None
                    else Some (if hd t = CHR ''-'' then - int e else int e, us))
      else if hex \<or> s \<noteq> [] then None else Some (0, False))"

definition parseNumber :: "string \<Rightarrow> num_error + float64" where
  "parseNumber s =
     (let neg = (s \<noteq> [] \<and> hd s = CHR ''-''); t = stripSign s;
          hex = (length t > 2 \<and> hd t = CHR ''0'' \<and> lowerChar (t ! 1) = CHR ''x'');
          (m, fr, dig, us, rest) = scanMantissa hex False 0 0 False False (if hex then drop 2 t else t)
      in if \<not> dig then Inl ErrSyntax
         else case readExp hex rest of
                None \<Rightarrow> Inl ErrSyntax
              | Some (e, us') \<Rightarrow>
                  if (us \<or> us') \<and> \<not> underscoreOK s then Inl ErrSyntax
                  else let b = (if hex then 2 else 10);
                           f = roundRat neg (m * b ^ nat e) ((if hex then 16 else 10) ^ fr * b ^ nat (- e))
                       in case f of FInf _ \<Rightarrow> Inl ErrRange | _ \<Rightarrow> Inr f)"

definition parseFloat :: "string \<Rightarrow> num_error + float64" where
  "parseFloat s =
     (let l = map lowerChar s
      in if map lowerChar (stripSign s) \<in> {''inf'', ''infinity''} then Inr (FInf (hd s = CHR ''-''))
         else if l = ''nan'' then Inr FNaN
         else parseNumber s)"

section \<open>Evaluation\<close>

lemma ndigits_zero [simp]: "ndigits b 0 = 0"
  by (simp add: ndigits.simps)

lemma shortestFrom_numeral [go_simps]:
  "shortestFrom (numeral k) n q num den =
     (case tryDigits q num den n of
        Some r \<Rightarrow> r | None \<Rightarrow> shortestFrom (pred_numeral k) (Suc n) q num den)"
  by (simp add: numeral_eq_Suc)

section \<open>Integers up to \<open>2^53\<close> are exact\<close>

lemma ndigits_upper: "b > 1 \<Longrightarrow> n < b ^ ndigits b n"
proof (induction b n rule: ndigits.induct)
  case (1 b n)
  show ?case
  proof (cases "n = 0")
    case True
    then show ?thesis by (simp add: ndigits.simps)
  next
    case False
    with 1 have "n div b < b ^ ndigits b (n div b)" by auto
    then have "n < b * b ^ ndigits b (n div b)"
      using 1(2) by (metis less_mult_imp_div_less mult.commute div_less_iff_less_mult order_less_trans zero_less_one)
    with False 1(2) show ?thesis by (simp add: ndigits.simps [of b n])
  qed
qed

lemma ndigits_lower: "b > 1 \<Longrightarrow> n > 0 \<Longrightarrow> b ^ (ndigits b n - 1) \<le> n"
proof (induction b n rule: ndigits.induct)
  case (1 b n)
  show ?case
  proof (cases "n div b = 0")
    case True
    with 1 show ?thesis by (simp add: ndigits.simps [of b n] ndigits.simps [of b 0])
  next
    case False
    with 1 have IH: "b ^ (ndigits b (n div b) - 1) \<le> n div b" by auto
    have "ndigits b (n div b) > 0"
      using False 1(2) by (subst ndigits.simps) simp
    then have "b ^ ndigits b (n div b) = b * b ^ (ndigits b (n div b) - 1)"
      by (metis Suc_pred' power_Suc)
    also have "\<dots> \<le> b * (n div b)" using IH by simp
    also have "\<dots> \<le> n" by simp
    finally show ?thesis using 1(2,3) by (simp add: ndigits.simps [of b n])
  qed
qed

lemma ndigits_le: "b > 1 \<Longrightarrow> n < b ^ k \<Longrightarrow> ndigits b n \<le> k"
proof (cases "n = 0")
  case True
  then show ?thesis by (simp add: ndigits.simps)
next
  case False
  assume b: "b > 1" and n: "n < b ^ k"
  with False have "b ^ (ndigits b n - 1) \<le> n" by (intro ndigits_lower) auto
  with n have "b ^ (ndigits b n - 1) < b ^ k" by simp
  with b have "ndigits b n - 1 < k" by simp
  then show ?thesis by simp
qed

lemma ndigits_one [simp]: "b > 1 \<Longrightarrow> ndigits b 1 = 1" "b > 1 \<Longrightarrow> ndigits b (Suc 0) = 1"
  by (subst ndigits.simps, simp add: ndigits.simps [of b 0])+

lemma roundHalfEven_exact: "d > 0 \<Longrightarrow> roundHalfEven (q * d) d = q"
  by (simp add: roundHalfEven_def)

lemma lastPlace_int_nonpos:
  assumes "n < 2 ^ 53"
  shows "lastPlace n 1 \<le> 0"
proof -
  have "ndigits 2 n \<le> 53" using assms by (intro ndigits_le) auto
  then show ?thesis by (simp add: lastPlace_def Let_def)
qed

lemma roundRat_int:
  assumes "n < 2 ^ 53"
  shows "roundRat neg n 1 = FNum neg (of_nat n)"
proof (cases "n = 0")
  case True
  then show ?thesis by (simp add: roundRat_def)
next
  case False
  let ?e = "lastPlace n 1"
  have e: "?e \<le> 0" using assms by (rule lastPlace_int_nonpos)
  then have "roundHalfEven (n * 2 ^ nat (- ?e)) (1 * 2 ^ nat ?e) = n * 2 ^ nat (- ?e)"
    using roundHalfEven_exact [of 1] by simp
  with e False show ?thesis by (simp add: roundRat_def Let_def)
qed

lemma floatOfInt_exact:
  "\<bar>i\<bar> < 2 ^ 53 \<Longrightarrow> floatOfInt i = FNum (i < 0) (of_int \<bar>i\<bar>)"
  using roundRat_int [of "nat \<bar>i\<bar>" "i < 0"] by (simp add: floatOfInt_def nat_less_iff)

lemma truncFloat_floatOfInt [codec_simps]: "\<bar>i\<bar> < 2 ^ 53 \<Longrightarrow> truncFloat (floatOfInt i) = Some i"
  by (auto simp: floatOfInt_exact truncFloat_def)

lemma int64OfFloat_floatOfInt [codec_simps]:
  "\<bar>i\<bar> < 2 ^ 53 \<Longrightarrow> int64OfFloat (floatOfInt i) = word_of_int i"
  by (auto simp: int64OfFloat_def truncFloat_floatOfInt)

lemma byteOfFloat_floatOfInt [codec_simps]: "byteOfFloat (floatOfInt (uint (b :: 8 word))) = b"
proof -
  have "uint b < 2 ^ 8" using uint_bounded [of b] by simp
  moreover have "- (2 ^ 31) \<le> uint b" by (rule order_trans [of _ 0]) simp_all
  ultimately show ?thesis by (simp add: byteOfFloat_def truncFloat_floatOfInt)
qed

end
