(* ===== verification/Go_Value.thy ===== *)
theory Go_Value
  imports Go_Float
begin

text \<open>
  The dynamic values the client passes around as \<^verbatim>\<open>interface{}\<close>, their rendering by \<^verbatim>\<open>%v\<close> and
  \<^verbatim>\<open>%T\<close>, the validity of a byte string as UTF-8 (\<^verbatim>\<open>unicode/utf8\<close>), and the errors of
  \<^verbatim>\<open>errors.go\<close>. A \<^verbatim>\<open>map[string]interface{}\<close> is an association list with distinct keys.
\<close>

section \<open>UTF-8\<close>

definition byteIn :: "nat \<Rightarrow> nat \<Rightarrow> char \<Rightarrow> bool" where
  "byteIn lo hi c = (lo \<le> (of_char c :: nat) \<and> (of_char c :: nat) \<le> hi)"

text \<open>The length a lead byte announces (0: not a lead byte), and whether the bytes of an encoding fit
  together: the second byte has a smaller range after some lead bytes (no overlong forms, no
  surrogates, nothing above U+10FFFF).\<close>

definition leadLen :: "char \<Rightarrow> nat" where
  "leadLen c =
     (let n = of_char c :: nat
      in if n < 128 then 1 else if n < 194 then 0 else if n < 224 then 2
         else if n < 240 then 3 else if n < 245 then 4 else 0)"

definition secondOK :: "char \<Rightarrow> char \<Rightarrow> bool" where
  "secondOK a b =
     (let n = of_char a :: nat
      in byteIn (if n = 224 then 160 else if n = 240 then 144 else 128)
                (if n = 237 then 159 else if n = 244 then 143 else 191) b)"

fun wellFormed :: "string \<Rightarrow> bool" where
  "wellFormed [] = False"
| "wellFormed [a] = True"
| "wellFormed (a # b # cs) = (secondOK a b \<and> list_all (byteIn 128 191) cs)"

text \<open>The length of the encoding the string starts with; 0 if it starts with none.\<close>

definition runeLen :: "string \<Rightarrow> nat" where
  "runeLen s =
     (if s = [] then 0
      else let n = leadLen (hd s)
           in if n \<le> length s \<and> wellFormed (take n s) then n else 0)"

lemma runeLen_Nil [simp]: "runeLen [] = 0"
  by (simp add: runeLen_def)

lemma runeLen_le: "runeLen s \<le> length s"
  by (simp add: runeLen_def Let_def)

lemma runeLen_ascii: "(of_char c :: nat) < 128 \<Longrightarrow> runeLen (c # cs) = 1"
  by (simp add: runeLen_def leadLen_def)

lemma runeLen_take:
  assumes "runeLen s = n" and "n > 0"
  shows "runeLen (take n s @ t) = n"
proof -
  from assms have s: "s \<noteq> []" and n: "n = leadLen (hd s)" "n \<le> length s" "wellFormed (take n s)"
    by (auto simp: runeLen_def Let_def split: if_splits)
  from s assms(2) have "hd (take n s @ t) = hd s" by (cases s; cases n) auto
  moreover from n(2) have "take n (take n s @ t) = take n s" "n \<le> length (take n s @ t)" by simp_all
  ultimately show ?thesis using n assms(2) s by (simp add: runeLen_def Let_def)
qed

text \<open>\<^verbatim>\<open>utf8.ValidString\<close>.\<close>

function validString :: "string \<Rightarrow> bool" where
  "validString s =
     (if s = [] then True
      else if runeLen s = 0 then False
      else validString (drop (runeLen s) s))"
  by pat_completeness auto
termination
  by (relation "measure length") auto

declare validString.simps [simp del]

lemma validString_Nil [simp]: "validString []"
  by (subst validString.simps) simp

lemma validString_ascii_Cons: "(of_char c :: nat) < 128 \<Longrightarrow> validString (c # s) = validString s"
  by (subst validString.simps) (simp add: runeLen_ascii)

lemma validString_ascii: "\<forall>c \<in> set s. (of_char c :: nat) < 128 \<Longrightarrow> validString s"
  by (induction s) (auto simp: validString_ascii_Cons)

section \<open>Values\<close>

datatype gval =
    GNil
  | GBool bool
  | GInt int64
  | GInt8 "8 word" | GInt16 "16 word" | GInt32 "32 word" | GInt64 int64
  | GUint8 "8 word" | GUint16 "16 word" | GUint32 "32 word" | GUint64 uint64
  | GFloat64 float64
  | GStr string
  | GBytes string
  | GList "gval list"
  | GMap "(string \<times> gval) list"

type_synonym payload = "(string \<times> gval) list"

fun typeName :: "gval \<Rightarrow> string" where
  "typeName GNil = ''<nil>''"
| "typeName (GBool _) = ''bool''"
| "typeName (GInt _) = ''int''"
| "typeName (GInt8 _) = ''int8''"
| "typeName (GInt16 _) = ''int16''"
| "typeName (GInt32 _) = ''int32''"
| "typeName (GInt64 _) = ''int64''"
| "typeName (GUint8 _) = ''uint8''"
| "typeName (GUint16 _) = ''uint16''"
| "typeName (GUint32 _) = ''uint32''"
| "typeName (GUint64 _) = ''uint64''"
| "typeName (GFloat64 _) = ''float64''"
| "typeName (GStr _) = ''string''"
| "typeName (GBytes _) = ''[]uint8''"
| "typeName (GList _) = ''[]interface {}''"
| "typeName (GMap _) = ''map[string]interface {}''"

text \<open>The verb \<^verbatim>\<open>%v\<close>. Maps are printed in key order.\<close>

fun joinWith :: "string \<Rightarrow> string list \<Rightarrow> string" where
  "joinWith sep [] = []"
| "joinWith sep [x] = x"
| "joinWith sep (x # y # xs) = x @ sep @ joinWith sep (y # xs)"

definition formatBool :: "bool \<Rightarrow> string" where
  "formatBool b = (if b then ''true'' else ''false'')"

fun fmtV :: "gval \<Rightarrow> string" where
  "fmtV GNil = ''<nil>''"
| "fmtV (GBool b) = formatBool b"
| "fmtV (GInt i) = formatInt (sint i)"
| "fmtV (GInt8 i) = formatInt (sint i)"
| "fmtV (GInt16 i) = formatInt (sint i)"
| "fmtV (GInt32 i) = formatInt (sint i)"
| "fmtV (GInt64 i) = formatInt (sint i)"
| "fmtV (GUint8 i) = formatInt (uint i)"
| "fmtV (GUint16 i) = formatInt (uint i)"
| "fmtV (GUint32 i) = formatInt (uint i)"
| "fmtV (GUint64 i) = formatInt (uint i)"
| "fmtV (GFloat64 f) = formatFloatV f"
| "fmtV (GStr s) = s"
| "fmtV (GBytes s) = ''['' @ joinWith '' '' (map (\<lambda>c. formatNat (of_char c)) s) @ '']''"
| "fmtV (GList vs) = ''['' @ joinWith '' '' (map fmtV vs) @ '']''"
| "fmtV (GMap kvs) =
     ''map['' @ joinWith '' ''
        (map (\<lambda>(k, s). k @ '':'' @ s) (sort_key fst (map (\<lambda>(k, v). (k, fmtV v)) kvs))) @ '']''"

section \<open>Errors\<close>

text \<open>
  A Go \<^verbatim>\<open>error\<close>. \<open>SynapError\<close> is the SDK's own type (\<^verbatim>\<open>errors.go\<close>), \<open>Errorf\<close> what
  \<^verbatim>\<open>fmt.Errorf\<close> and the standard library build, with the wrapped error of \<^verbatim>\<open>%w\<close> if there is one, and
  \<open>Panic\<close> a run-time panic, which unwinds past every caller. Where a message quotes its input with
  \<^verbatim>\<open>%q\<close> the quoted text is left out.
\<close>

datatype goerr =
    SynapError (errCode: string) (errMessage: string)
  | Errorf string "goerr option"
  | Panic string

fun errorText :: "goerr \<Rightarrow> string" where
  "errorText (SynapError code msg) = ''synap ['' @ code @ '']: '' @ msg"
| "errorText (Errorf s None) = s"
| "errorText (Errorf s (Some e)) = s @ '': '' @ errorText e"
| "errorText (Panic s) = ''panic: '' @ s"

definition newServerError :: "string \<Rightarrow> goerr" where
  "newServerError msg = SynapError ''server_error'' msg"

definition newInvalidResponseError :: "string \<Rightarrow> goerr" where
  "newInvalidResponseError msg = SynapError ''invalid_response'' msg"

definition isSynapError :: "goerr \<Rightarrow> bool" where
  "isSynapError e = (case e of SynapError _ _ \<Rightarrow> True | _ \<Rightarrow> False)"

definition isPanic :: "goerr \<Rightarrow> bool" where
  "isPanic e = (case e of Panic _ \<Rightarrow> True | _ \<Rightarrow> False)"

definition numError :: "num_error \<Rightarrow> goerr" where
  "numError e = Errorf (case e of ErrSyntax \<Rightarrow> ''invalid syntax'' | ErrRange \<Rightarrow> ''value out of range'') None"

lemma isSynapError_simps [simp]:
  "isSynapError (SynapError c m)" "\<not> isSynapError (Errorf s w)" "\<not> isSynapError (Panic s)"
  by (simp_all add: isSynapError_def)

lemma isSynapError_newServerError [simp]: "isSynapError (newServerError msg)"
  by (simp add: newServerError_def)

end
