(* ===== verification/Payload.thy ===== *)
theory Payload
  imports Go_Value
begin

text \<open>
  \<^verbatim>\<open>payload.go\<close>: a command payload, reached by reflection, becomes the map the command mapper
  reads. \<open>rval\<close> is a \<^verbatim>\<open>reflect.Value\<close> by its kind: integers carry their width, pointers, interfaces,
  slices and maps may be nil (\<open>None\<close>), a struct is its fields with their tags in declaration order. A
  byte slice is a kind of its own, since the code tests the element kind first.
\<close>

record sfield =
  fieldName :: string
  jsonTag :: string
  pkgPath :: string

datatype rval =
    RString string
  | RBool bool
  | RInt nat int
  | RUint nat nat
  | RFloat float64
  | RBytes "string option"
  | RSlice "rval list option"
  | RArray "rval list"
  | RMap "(rval \<times> rval) list option"
  | RStruct "(sfield \<times> rval) list"
  | RPtr "rval option"
  | RIface "rval option"
  | ROther

text \<open>An exported field with its \<^verbatim>\<open>json\<close> tag, as the module methods declare them.\<close>

definition fld :: "string \<Rightarrow> string \<Rightarrow> 'v \<Rightarrow> sfield \<times> 'v" where
  "fld name tag v = (\<lparr>fieldName = name, jsonTag = tag, pkgPath = []\<rparr>, v)"

section \<open>Operations\<close>

text \<open>\<^verbatim>\<open>jsonFieldName\<close>: the wire name, \<^verbatim>\<open>omitempty\<close>, and whether the field is skipped.\<close>

definition jsonFieldName :: "sfield \<Rightarrow> string \<times> bool \<times> bool" where
  "jsonFieldName f =
     (let tag = jsonTag f
      in if tag = ''-'' then ([], False, True)
         else let parts = splitByte CHR '','' tag;
                  name = (if hd parts \<noteq> [] then hd parts else fieldName f)
              in (name, ''omitempty'' \<in> set (tl parts), False))"

text \<open>\<^verbatim>\<open>toString\<close> renders a map key.\<close>

fun toString :: "rval \<Rightarrow> string" where
  "toString (RPtr None) = []"
| "toString (RPtr (Some v)) = toString v"
| "toString (RIface None) = []"
| "toString (RIface (Some v)) = toString v"
| "toString (RString s) = s"
| "toString _ = []"

fun isEmptyValue :: "rval \<Rightarrow> bool" where
  "isEmptyValue (RArray vs) = (vs = [])"
| "isEmptyValue (RMap m) = (m = None \<or> m = Some [])"
| "isEmptyValue (RSlice vs) = (vs = None \<or> vs = Some [])"
| "isEmptyValue (RBytes s) = (s = None \<or> s = Some [])"
| "isEmptyValue (RString s) = (s = [])"
| "isEmptyValue (RBool b) = (\<not> b)"
| "isEmptyValue (RInt w i) = (i = 0)"
| "isEmptyValue (RUint w n) = (n = 0)"
| "isEmptyValue (RFloat f) = (\<not> floatNonzero f)"
| "isEmptyValue (RIface v) = (v = None)"
| "isEmptyValue (RPtr v) = (v = None)"
| "isEmptyValue _ = False"

text \<open>The fields of a struct that reach the map: exported, not skipped, not empty under
  \<^verbatim>\<open>omitempty\<close>, not a nil pointer.\<close>

definition keepField :: "sfield \<Rightarrow> rval \<Rightarrow> bool" where
  "keepField f v =
     (pkgPath f = [] \<and>
      (let (_, omitEmpty, skip) = jsonFieldName f
       in \<not> skip \<and> \<not> (omitEmpty \<and> isEmptyValue v) \<and> v \<noteq> RPtr None))"

definition wireName :: "sfield \<Rightarrow> string" where
  "wireName f = fst (jsonFieldName f)"

text \<open>A sequence of assignments \<^verbatim>\<open>out[k] = v\<close> to an empty map.\<close>

definition makeMap :: "('k \<times> 'v) list \<Rightarrow> ('k \<times> 'v) list" where
  "makeMap kvs = foldl (\<lambda>m (k, v). aput k v m) [] kvs"

fun payloadToMap :: "rval \<Rightarrow> payload"
  and payloadValue :: "rval \<Rightarrow> gval" where
  "payloadToMap (RPtr None) = []"
| "payloadToMap (RPtr (Some v)) = payloadToMap v"
| "payloadToMap (RIface None) = []"
| "payloadToMap (RIface (Some v)) = payloadToMap v"
| "payloadToMap (RMap None) = []"
| "payloadToMap (RMap (Some kvs)) = makeMap (map (\<lambda>(k, v). (toString k, payloadValue v)) kvs)"
| "payloadToMap (RStruct fs) =
     makeMap (concat (map (\<lambda>(f, v).
       if keepField f v then [(wireName f, payloadValue v)] else []) fs))"
| "payloadToMap (RString _) = []"
| "payloadToMap (RBool _) = []"
| "payloadToMap (RInt _ _) = []"
| "payloadToMap (RUint _ _) = []"
| "payloadToMap (RFloat _) = []"
| "payloadToMap (RBytes _) = []"
| "payloadToMap (RSlice _) = []"
| "payloadToMap (RArray _) = []"
| "payloadToMap ROther = []"
| "payloadValue (RPtr None) = GNil"
| "payloadValue (RPtr (Some v)) = payloadValue v"
| "payloadValue (RIface None) = GNil"
| "payloadValue (RIface (Some v)) = payloadValue v"
| "payloadValue (RString s) = GStr s"
| "payloadValue (RBool b) = GBool b"
| "payloadValue (RInt w i) = GFloat64 (floatOfInt i)"
| "payloadValue (RUint w n) = GFloat64 (floatOfInt (int n))"
| "payloadValue (RFloat f) = GFloat64 f"
| "payloadValue (RBytes s) = GStr (case s of None \<Rightarrow> [] | Some b \<Rightarrow> b)"
| "payloadValue (RSlice None) = GList []"
| "payloadValue (RSlice (Some vs)) = GList (map payloadValue vs)"
| "payloadValue (RArray vs) = GList (map payloadValue vs)"
| "payloadValue (RMap None) = GMap []"
| "payloadValue (RMap (Some kvs)) =
     GMap (makeMap (map (\<lambda>(k, v). (toString k, payloadValue v)) kvs))"
| "payloadValue (RStruct fs) = GMap (payloadToMap (RStruct fs))"
| "payloadValue ROther = GNil"

section \<open>Types\<close>

text \<open>The static types of decode targets (\<^verbatim>\<open>reflect.Type\<close>), their zero values, and the reflection of a
  dynamic value. A target \<^verbatim>\<open>map\<close> has string keys.\<close>

datatype gtype =
    TString | TBool | TInt nat | TUint nat | TFloat | TBytes
  | TSlice gtype
  | TMap gtype
  | TStruct "(sfield \<times> gtype) list"
  | TPtr gtype
  | TIface
  | TOther

fun zeroOf :: "gtype \<Rightarrow> rval" where
  "zeroOf TString = RString []"
| "zeroOf TBool = RBool False"
| "zeroOf (TInt w) = RInt w 0"
| "zeroOf (TUint w) = RUint w 0"
| "zeroOf TFloat = RFloat (FNum False 0)"
| "zeroOf TBytes = RBytes None"
| "zeroOf (TSlice _) = RSlice None"
| "zeroOf (TMap _) = RMap None"
| "zeroOf (TStruct fs) = RStruct (map (\<lambda>(f, t). (f, zeroOf t)) fs)"
| "zeroOf (TPtr _) = RPtr None"
| "zeroOf TIface = RIface None"
| "zeroOf TOther = ROther"

text \<open>\<^verbatim>\<open>reflect.ValueOf\<close>: the elements of an \<^verbatim>\<open>[]interface{}\<close> and the values of a
  \<^verbatim>\<open>map[string]interface{}\<close> are interfaces, nil or holding their dynamic value.\<close>

fun reflectOf :: "gval \<Rightarrow> rval" where
  "reflectOf GNil = RIface None"
| "reflectOf (GBool b) = RBool b"
| "reflectOf (GInt i) = RInt 64 (sint i)"
| "reflectOf (GInt8 i) = RInt 8 (sint i)"
| "reflectOf (GInt16 i) = RInt 16 (sint i)"
| "reflectOf (GInt32 i) = RInt 32 (sint i)"
| "reflectOf (GInt64 i) = RInt 64 (sint i)"
| "reflectOf (GUint8 i) = RUint 8 (unat i)"
| "reflectOf (GUint16 i) = RUint 16 (unat i)"
| "reflectOf (GUint32 i) = RUint 32 (unat i)"
| "reflectOf (GUint64 i) = RUint 64 (unat i)"
| "reflectOf (GFloat64 f) = RFloat f"
| "reflectOf (GStr s) = RString s"
| "reflectOf (GBytes s) = RBytes (Some s)"
| "reflectOf (GList vs) =
     RSlice (Some (map (\<lambda>v. RIface (if v = GNil then None else Some (reflectOf v))) vs))"
| "reflectOf (GMap kvs) =
     RMap (Some (map (\<lambda>(k, v). (RString k, RIface (if v = GNil then None else Some (reflectOf v)))) kvs))"

section \<open>Lemmas\<close>

lemma makeMap_distinct: "distinct (map fst kvs) \<Longrightarrow> makeMap kvs = kvs"
  using foldl_aput_distinct [of "[]" kvs] by (simp add: makeMap_def)

lemma distinct_foldl_aput:
  "distinct (map fst acc) \<Longrightarrow> distinct (map fst (foldl (\<lambda>m (k, v). aput k v m) acc kvs))"
  by (induction kvs arbitrary: acc) auto

lemma distinct_makeMap [simp]: "distinct (map fst (makeMap kvs))"
  by (simp add: makeMap_def distinct_foldl_aput)

lemma map_of_foldl_aput:
  "map_of (foldl (\<lambda>m (k, v). aput k v m) acc kvs) = map_of acc ++ map_of (rev kvs)"
  by (induction kvs arbitrary: acc) (auto simp: fun_eq_iff map_add_def split: option.splits)

text \<open>The last assignment to a key wins.\<close>

lemma map_of_makeMap: "map_of (makeMap kvs) = map_of (rev kvs)"
  by (simp add: makeMap_def map_of_foldl_aput)

text \<open>The shapes the command mapper meets: what \<^verbatim>\<open>json.Unmarshal\<close> would have produced.\<close>

fun jsonShaped :: "gval \<Rightarrow> bool" where
  "jsonShaped GNil = True"
| "jsonShaped (GBool _) = True"
| "jsonShaped (GFloat64 _) = True"
| "jsonShaped (GStr _) = True"
| "jsonShaped (GList vs) = list_all jsonShaped vs"
| "jsonShaped (GMap kvs) = (distinct (map fst kvs) \<and> list_all (\<lambda>(k, v). jsonShaped v) kvs)"
| "jsonShaped _ = False"

lemma set_foldl_aput:
  "set (foldl (\<lambda>m (k, v). aput k v m) acc kvs) \<subseteq> set acc \<union> set kvs"
proof (induction kvs arbitrary: acc)
  case Nil
  then show ?case by simp
next
  case (Cons kv kvs)
  have "set (aput k v m) \<subseteq> insert (k, v) (set m)" for k v and m :: "('a \<times> 'b) list"
    by (induction m) (auto split: if_splits)
  with Cons.IH [of "aput (fst kv) (snd kv) acc"] show ?case
    by (fastforce simp: case_prod_unfold)
qed

lemma set_makeMap: "set (makeMap kvs) \<subseteq> set kvs"
  using set_foldl_aput [of "[]" kvs] by (simp add: makeMap_def)

lemma list_all_makeMap: "list_all P kvs \<Longrightarrow> list_all P (makeMap kvs)"
  using set_makeMap [of kvs] by (auto simp: list_all_iff)

lemma payload_jsonShaped:
  "jsonShaped (GMap (payloadToMap v))" "jsonShaped (payloadValue v)"
proof (induction v and v rule: payloadToMap_payloadValue.induct)
  case (6 kvs)
  then show ?case by (simp, intro list_all_makeMap) (fastforce simp: list_all_iff)
next
  case (7 fs)
  then show ?case by (simp, intro list_all_makeMap) (fastforce simp: list_all_iff)
next
  case (31 kvs)
  then show ?case by (simp, intro list_all_makeMap) (fastforce simp: list_all_iff)
qed (auto simp: list_all_iff)

lemma map_of_kept_fields:
  assumes "\<forall>(g, _) \<in> set (before @ after). wireName g \<noteq> wireName f"
  shows "map_of (payloadToMap (RStruct (before @ (f, v) # after))) (wireName f)
    = (if keepField f v then Some (payloadValue v) else None)"
proof -
  let ?kept = "\<lambda>fs. concat (map (\<lambda>(f, v). if keepField f v then [(wireName f, payloadValue v)] else []) fs)"
  have "map_of (rev (?kept fs)) (wireName f) = None" if "\<forall>(g, _) \<in> set fs. wireName g \<noteq> wireName f" for fs
    using that by (fastforce simp: map_of_eq_None_iff split: if_splits)
  with assms show ?thesis by (simp add: map_of_makeMap map_add_def)
qed

lemma absent_field:
  assumes "\<forall>(g, _) \<in> set fs. wireName g \<noteq> name"
  shows "map_of (payloadToMap (RStruct fs)) name = None"
  using assms by (fastforce simp: map_of_makeMap map_of_eq_None_iff split: if_splits)

lemma skipped_field:
  assumes "jsonTag f = ''-''"
  shows "payloadToMap (RStruct (before @ (f, v) # after)) = payloadToMap (RStruct (before @ after))"
  using assms by (simp add: keepField_def jsonFieldName_def)

text \<open>Wire names of the tag forms the structs use.\<close>

lemma jsonFieldName_forms:
  assumes "name \<noteq> []" and "CHR '','' \<notin> set name"
  shows "jsonFieldName \<lparr>fieldName = go, jsonTag = name, pkgPath = pkg\<rparr> = (if name = ''-'' then ([], False, True) else (name, False, False))"
    and "jsonFieldName \<lparr>fieldName = go, jsonTag = name @ '',omitempty'', pkgPath = pkg\<rparr> = (name, True, False)"
    and "jsonFieldName \<lparr>fieldName = name, jsonTag = [], pkgPath = pkg\<rparr> = (name, False, False)"
proof -
  have "splitByte CHR '','' name = [name]" "splitByte CHR '','' (name @ '',omitempty'') = [name, ''omitempty'']"
    using assms(2) by (simp_all add: splitByte_single splitByte_append)
  moreover have "name @ '',omitempty'' \<noteq> ''-''" by (cases name) auto
  ultimately show "jsonFieldName \<lparr>fieldName = go, jsonTag = name, pkgPath = pkg\<rparr> = (if name = ''-'' then ([], False, True) else (name, False, False))"
    and "jsonFieldName \<lparr>fieldName = go, jsonTag = name @ '',omitempty'', pkgPath = pkg\<rparr> = (name, True, False)"
    and "jsonFieldName \<lparr>fieldName = name, jsonTag = [], pkgPath = pkg\<rparr> = (name, False, False)"
    using assms(1) by (simp_all add: jsonFieldName_def)
qed

text \<open>Data made of strings, booleans, floats, non-nil slices and string-keyed maps: what a caller hands
  over as \<^verbatim>\<open>interface{}\<close> when it means to send it unchanged.\<close>

fun isRString :: "rval \<Rightarrow> bool" where
  "isRString (RString _) = True"
| "isRString _ = False"

fun plainData :: "rval \<Rightarrow> bool" where
  "plainData (RString _) = True"
| "plainData (RBool _) = True"
| "plainData (RFloat _) = True"
| "plainData (RSlice (Some vs)) = list_all plainData vs"
| "plainData (RMap (Some kvs)) =
     (distinct (map (toString \<circ> fst) kvs) \<and>
      list_all (\<lambda>(k, v). isRString k \<and> plainData v) kvs)"
| "plainData _ = False"

lemma plain_map_payload:
  assumes "plainData (RMap (Some kvs))"
  shows "payloadValue (RMap (Some kvs)) = GMap (map (\<lambda>(k, v). (toString k, payloadValue v)) kvs)"
proof -
  have eq: "map fst (map (\<lambda>(k, v). (toString k, payloadValue v)) kvs) = map (toString \<circ> fst) kvs"
    by auto
  from assms have "distinct (map fst (map (\<lambda>(k, v). (toString k, payloadValue v)) kvs))"
    by (simp only: eq plainData.simps)
  then show ?thesis by (simp only: payloadValue.simps makeMap_distinct)
qed

lemma isRString_inject: "isRString k \<Longrightarrow> isRString l \<Longrightarrow> toString k = toString l \<Longrightarrow> k = l"
  by (cases k rule: isRString.cases; cases l rule: isRString.cases) auto

lemma map_eq_injective:
  assumes "map f xs = map f ys"
    and "\<And>x y. x \<in> set xs \<Longrightarrow> y \<in> set ys \<Longrightarrow> f x = f y \<Longrightarrow> x = y"
  shows "xs = ys"
  using assms
proof (induction xs arbitrary: ys)
  case Nil
  then show ?case by simp
next
  case (Cons x xs)
  then obtain y ys' where "ys = y # ys'" by (cases ys) auto
  with Cons show ?case by auto
qed

section \<open>Properties\<close>

text \<open>The empty values of \<^verbatim>\<open>encoding/json\<close>: false, 0, a nil pointer, a nil interface value, and any array, slice,
  map or string of length zero.\<close>

definition goEmpty :: "rval \<Rightarrow> bool" where
  "goEmpty v = (v \<in> {RBool False, RPtr None, RIface None, RArray [], RSlice None, RSlice (Some []), RBytes None,
       RBytes (Some []), RMap None, RMap (Some []), RString []}
     \<or> (\<exists>w. v = RInt w 0) \<or> (\<exists>w. v = RUint w 0) \<or> (\<exists>neg. v = RFloat (FNum neg 0)))"

lemma isEmptyValue_iff: "isEmptyValue v \<longleftrightarrow> goEmpty v"
  by (cases v) (auto simp: goEmpty_def floatNonzero_def split: float64.splits)

text \<open>C24. A field of a payload struct that shares its wire name with no other field reaches the map under that name,
  converted, unless it is unexported, a nil pointer, tagged \<^verbatim>\<open>-\<close>, or tagged \<^verbatim>\<open>omitempty\<close> and empty in the sense
  of \<^verbatim>\<open>encoding/json\<close>. The name is the one of the tag, with or without \<^verbatim>\<open>omitempty\<close>, or the Go name of a
  field without tag. In the other cases the name is absent from the map.\<close>

theorem payloadToMap_field:
  assumes "name \<noteq> []" and "CHR '','' \<notin> set name" and "\<forall>(g, _) \<in> set (before @ after). wireName g \<noteq> name"
  shows "map_of (payloadToMap (RStruct (before @ (\<lparr>fieldName = go, jsonTag = name, pkgPath = pkg\<rparr>, v) # after))) name
      = (if pkg \<noteq> [] \<or> v = RPtr None \<or> name = ''-'' then None else Some (payloadValue v))
    \<and> map_of (payloadToMap (RStruct (before @ (\<lparr>fieldName = go, jsonTag = name @ '',omitempty'', pkgPath = pkg\<rparr>, v) # after))) name
      = (if pkg \<noteq> [] \<or> goEmpty v then None else Some (payloadValue v))
    \<and> map_of (payloadToMap (RStruct (before @ (\<lparr>fieldName = name, jsonTag = [], pkgPath = pkg\<rparr>, v) # after))) name
      = (if pkg \<noteq> [] \<or> v = RPtr None then None else Some (payloadValue v))"
proof (intro conjI)
  note forms = jsonFieldName_forms [OF assms(1,2)] and kept = map_of_kept_fields [of before after, unfolded wireName_def]
  note others = assms(3) [unfolded wireName_def]
  show "map_of (payloadToMap (RStruct (before @ (\<lparr>fieldName = go, jsonTag = name @ '',omitempty'', pkgPath = pkg\<rparr>, v) # after))) name
      = (if pkg \<noteq> [] \<or> goEmpty v then None else Some (payloadValue v))"
    using kept [of "\<lparr>fieldName = go, jsonTag = name @ '',omitempty'', pkgPath = pkg\<rparr>" v] others
    by (simp add: forms keepField_def isEmptyValue_iff goEmpty_def del: payloadToMap.simps)
  show "map_of (payloadToMap (RStruct (before @ (\<lparr>fieldName = name, jsonTag = [], pkgPath = pkg\<rparr>, v) # after))) name
      = (if pkg \<noteq> [] \<or> v = RPtr None then None else Some (payloadValue v))"
    using kept [of "\<lparr>fieldName = name, jsonTag = [], pkgPath = pkg\<rparr>" v] others
    by (simp add: forms keepField_def del: payloadToMap.simps)
  show "map_of (payloadToMap (RStruct (before @ (\<lparr>fieldName = go, jsonTag = name, pkgPath = pkg\<rparr>, v) # after))) name
      = (if pkg \<noteq> [] \<or> v = RPtr None \<or> name = ''-'' then None else Some (payloadValue v))"
  proof (cases "name = ''-''")
    case False
    then show ?thesis
      using kept [of "\<lparr>fieldName = go, jsonTag = name, pkgPath = pkg\<rparr>" v] others
      by (simp add: forms keepField_def del: payloadToMap.simps)
  next
    case True
    then show ?thesis using assms(3) skipped_field [of "\<lparr>fieldName = go, jsonTag = ''-'', pkgPath = pkg\<rparr>" before v after]
      by (simp add: absent_field del: payloadToMap.simps)
  qed
qed

theorem payloadToMap_field_witness:
  "map_of (payloadToMap (RStruct ([] @ (\<lparr>fieldName = ''Key'', jsonTag = ''key'', pkgPath = []\<rparr>, RString ''k'')
     # [fld ''TTL'' ''ttl,omitempty'' (RPtr None)]))) ''key'' = Some (GStr ''k'')
   \<and> map_of (payloadToMap (RStruct ([] @ (\<lparr>fieldName = ''Key'', jsonTag = ''key,omitempty'', pkgPath = []\<rparr>, RString [])
     # [fld ''TTL'' ''ttl,omitempty'' (RPtr None)]))) ''key'' = None"
  using payloadToMap_field [of "''key''" "[]" "[fld ''TTL'' ''ttl,omitempty'' (RPtr None)]" "''Key''" "[]" "RString ''k''"]
    payloadToMap_field [of "''key''" "[]" "[fld ''TTL'' ''ttl,omitempty'' (RPtr None)]" "''Key''" "[]" "RString []"]
  by (simp add: fld_def wireName_def jsonFieldName_def goEmpty_def del: payloadToMap.simps)

text \<open>The conversion loses nothing of plain data: two payload values that convert to the same map
  value are equal, so every string arrives at the mapper byte for byte, valid UTF-8 or not.\<close>

theorem payloadValue_injective:
  assumes "plainData u" and "plainData v" and "payloadValue u = payloadValue v"
  shows "u = v"
  using assms
proof (induction u arbitrary: v rule: plainData.induct)
  case (4 vs)
  then obtain ws where ws: "v = RSlice (Some ws)" by (cases v rule: plainData.cases) auto
  have inj: "x = y" if "x \<in> set vs" "y \<in> set ws" "payloadValue x = payloadValue y" for x y
    using 4(1) [OF that(1)] 4(2,3) that ws by (simp add: list_all_iff)
  from 4(4) ws have "map payloadValue vs = map payloadValue ws" by simp
  then have "vs = ws" using inj by (rule map_eq_injective)
  with ws show ?case by simp
next
  case (5 kvs)
  let ?f = "\<lambda>(k, v). (toString k, payloadValue v)"
  from 5 obtain lws where v: "v = RMap (Some lws)" by (cases v rule: plainData.cases) auto
  have maps: "map ?f kvs = map ?f lws"
    using 5(4) plain_map_payload [OF 5(2)] plain_map_payload [of lws] 5(3) v by simp
  have inj: "x = y" if "x \<in> set kvs" "y \<in> set lws" "?f x = ?f y" for x y
  proof -
    obtain k a l b where xy: "x = (k, a)" "y = (l, b)" by fastforce
    with that 5(2,3) v have "isRString k" "plainData a" "isRString l" "plainData b"
      by (auto simp: list_all_iff)
    with xy that 5(1) [OF that(1)] show ?thesis by (simp add: isRString_inject)
  qed
  from maps inj have "kvs = lws" by (rule map_eq_injective)
  with v show ?case by simp
qed (erule plainData.elims(2), auto)+

theorem payloadValue_injective_witness:
  "payloadValue (RSlice (Some [RString [char_of (222 :: nat), char_of (173 :: nat)]])) \<noteq>
   payloadValue (RSlice (Some [RString [char_of (222 :: nat)]]))"
  using payloadValue_injective [of "RSlice (Some [RString [char_of (222 :: nat), char_of (173 :: nat)]])"
      "RSlice (Some [RString [char_of (222 :: nat)]])"]
  by auto

end
