(* ===== verification/Go_Json.thy ===== *)
theory Go_Json
  imports Payload
begin

text \<open>
  \<^verbatim>\<open>encoding/json\<close> as the client uses it. A JSON text is printed from and parsed into an abstract
  document \<open>json\<close>: \<open>JStr\<close> holds the bytes of the Go string, \<open>JNum\<close> the literal, \<open>JObj\<close> the members
  in order. \<^verbatim>\<open>json.Marshal\<close> is \<open>printJson\<close> after \<open>jsonOfReflect\<close> (a typed payload) or
  \<open>jsonOfValue\<close> (an \<^verbatim>\<open>interface{}\<close>); \<^verbatim>\<open>json.Unmarshal\<close> is \<open>parseJson\<close> and then a conversion.
  Strings that are not valid UTF-8 are replaced byte by byte with U+FFFD on the way out
  (\<open>sanitize\<close>), which is what the binary transport avoids.
\<close>

datatype json =
    JNull
  | JBool bool
  | JNum string
  | JStr string
  | JArr "json list"
  | JObj "(string \<times> json) list"

section \<open>Printing\<close>

definition u4 :: "nat \<Rightarrow> string" where
  "u4 n = [CHR 0x5C, CHR ''u'', hexChar (n div 4096 mod 16), hexChar (n div 256 mod 16),
           hexChar (n div 16 mod 16), hexChar (n mod 16)]"

text \<open>One ASCII byte of a string; \<^verbatim>\<open><\<close>, \<^verbatim>\<open>>\<close> and \<^verbatim>\<open>&\<close> are escaped for HTML.\<close>

definition escapeByte :: "char \<Rightarrow> string" where
  "escapeByte c =
     (let n = of_char c :: nat
      in if c = CHR 0x22 \<or> c = CHR 0x5C then [CHR 0x5C, c]
         else if n = 8 then [CHR 0x5C, CHR ''b'']
         else if n = 12 then [CHR 0x5C, CHR ''f'']
         else if n = 10 then [CHR 0x5C, CHR ''n'']
         else if n = 13 then [CHR 0x5C, CHR ''r'']
         else if n = 9 then [CHR 0x5C, CHR ''t'']
         else if n < 32 \<or> c = CHR ''<'' \<or> c = CHR ''>'' \<or> c = CHR 0x26 then u4 n
         else [c])"

text \<open>The separators U+2028 and U+2029 as UTF-8.\<close>

definition isLineSep :: "string \<Rightarrow> bool" where
  "isLineSep r = (r = [CHR 0xE2, CHR 0x80, CHR 0xA8] \<or> r = [CHR 0xE2, CHR 0x80, CHR 0xA9])"

function escapeString :: "string \<Rightarrow> string" where
  "escapeString s =
     (case s of
        [] \<Rightarrow> []
      | c # cs \<Rightarrow>
          if (of_char c :: nat) < 128 then escapeByte c @ escapeString cs
          else let n = runeLen s
               in if n = 0 then u4 0xFFFD @ escapeString cs
                  else if isLineSep (take n s) then u4 (0x2028 + (of_char (s ! 2) - 0xA8)) @ escapeString (drop n s)
                  else take n s @ escapeString (drop n s))"
  by pat_completeness auto
termination
  by (relation "measure length") auto

declare escapeString.simps [simp del]

definition quoteString :: "string \<Rightarrow> string" where
  "quoteString s = [CHR 0x22] @ escapeString s @ [CHR 0x22]"

fun printJson :: "json \<Rightarrow> string" where
  "printJson JNull = ''null''"
| "printJson (JBool b) = formatBool b"
| "printJson (JNum s) = s"
| "printJson (JStr s) = quoteString s"
| "printJson (JArr js) = ''['' @ joinWith '','' (map printJson js) @ '']''"
| "printJson (JObj kvs) =
     [CHR ''{''] @ joinWith '','' (map (\<lambda>(k, j). quoteString k @ '':'' @ printJson j) kvs) @ [CHR ''}'']"

section \<open>Encoding Go values\<close>

text \<open>An encoder that fails on the values JSON cannot carry (NaN, infinities, channels, functions).\<close>

definition optAll :: "'a option list \<Rightarrow> 'a list option" where
  "optAll xs = (if None \<in> set xs then None else Some (map the xs))"

text \<open>\<^verbatim>\<open>base64.StdEncoding\<close>.\<close>

definition b64Char :: "nat \<Rightarrow> char" where
  "b64Char n =
     (if n < 26 then char_of (65 + n) else if n < 52 then char_of (97 + (n - 26))
      else if n < 62 then char_of (48 + (n - 52)) else if n = 62 then CHR ''+'' else CHR ''/'')"

fun base64Encode :: "string \<Rightarrow> string" where
  "base64Encode [] = []"
| "base64Encode [a] =
     (let n = of_char a * 65536 :: nat
      in [b64Char (n div 262144), b64Char (n div 4096 mod 64), CHR ''='', CHR ''=''])"
| "base64Encode [a, b] =
     (let n = of_char a * 65536 + of_char b * 256 :: nat
      in [b64Char (n div 262144), b64Char (n div 4096 mod 64), b64Char (n div 64 mod 64), CHR ''=''])"
| "base64Encode (a # b # c # cs) =
     (let n = of_char a * 65536 + of_char b * 256 + of_char c :: nat
      in [b64Char (n div 262144), b64Char (n div 4096 mod 64), b64Char (n div 64 mod 64), b64Char (n mod 64)]
         @ base64Encode cs)"

fun jsonOfValue :: "gval \<Rightarrow> json option" where
  "jsonOfValue GNil = Some JNull"
| "jsonOfValue (GBool b) = Some (JBool b)"
| "jsonOfValue (GInt i) = Some (JNum (formatInt (sint i)))"
| "jsonOfValue (GInt8 i) = Some (JNum (formatInt (sint i)))"
| "jsonOfValue (GInt16 i) = Some (JNum (formatInt (sint i)))"
| "jsonOfValue (GInt32 i) = Some (JNum (formatInt (sint i)))"
| "jsonOfValue (GInt64 i) = Some (JNum (formatInt (sint i)))"
| "jsonOfValue (GUint8 i) = Some (JNum (formatInt (uint i)))"
| "jsonOfValue (GUint16 i) = Some (JNum (formatInt (uint i)))"
| "jsonOfValue (GUint32 i) = Some (JNum (formatInt (uint i)))"
| "jsonOfValue (GUint64 i) = Some (JNum (formatInt (uint i)))"
| "jsonOfValue (GFloat64 f) = map_option JNum (formatFloatJSON f)"
| "jsonOfValue (GStr s) = Some (JStr s)"
| "jsonOfValue (GBytes s) = Some (JStr (base64Encode s))"
| "jsonOfValue (GList vs) = map_option JArr (optAll (map jsonOfValue vs))"
| "jsonOfValue (GMap kvs) =
     map_option (\<lambda>js. JObj (sort_key fst js))
       (optAll (map (\<lambda>(k, v). map_option (Pair k) (jsonOfValue v)) kvs))"

text \<open>\<^verbatim>\<open>json.Marshal\<close> of an \<^verbatim>\<open>interface{}\<close>.\<close>

definition marshalValue :: "gval \<Rightarrow> string option" where
  "marshalValue v = map_option printJson (jsonOfValue v)"

text \<open>A map key: strings as they are, integers in decimal, anything else is refused.\<close>

fun jsonKey :: "rval \<Rightarrow> string option" where
  "jsonKey (RString s) = Some s"
| "jsonKey (RInt w i) = Some (formatInt i)"
| "jsonKey (RUint w n) = Some (formatNat n)"
| "jsonKey _ = None"

definition jsonKeepField :: "sfield \<Rightarrow> rval \<Rightarrow> bool" where
  "jsonKeepField f v =
     (pkgPath f = [] \<and>
      (let (_, omitEmpty, skip) = jsonFieldName f in \<not> skip \<and> \<not> (omitEmpty \<and> isEmptyValue v)))"

fun jsonOfReflect :: "rval \<Rightarrow> json option" where
  "jsonOfReflect (RString s) = Some (JStr s)"
| "jsonOfReflect (RBool b) = Some (JBool b)"
| "jsonOfReflect (RInt w i) = Some (JNum (formatInt i))"
| "jsonOfReflect (RUint w n) = Some (JNum (formatNat n))"
| "jsonOfReflect (RFloat f) = map_option JNum (formatFloatJSON f)"
| "jsonOfReflect (RBytes None) = Some JNull"
| "jsonOfReflect (RBytes (Some s)) = Some (JStr (base64Encode s))"
| "jsonOfReflect (RSlice None) = Some JNull"
| "jsonOfReflect (RSlice (Some vs)) = map_option JArr (optAll (map jsonOfReflect vs))"
| "jsonOfReflect (RArray vs) = map_option JArr (optAll (map jsonOfReflect vs))"
| "jsonOfReflect (RMap None) = Some JNull"
| "jsonOfReflect (RMap (Some kvs)) =
     map_option (\<lambda>js. JObj (sort_key fst js))
       (optAll (map (\<lambda>(k, v).
          case jsonKey k of
            None \<Rightarrow> None
          | Some s \<Rightarrow> map_option (Pair s) (jsonOfReflect v)) kvs))"
| "jsonOfReflect (RStruct fs) =
     map_option JObj
       (optAll (concat (map (\<lambda>(f, v).
          if jsonKeepField f v then [map_option (Pair (wireName f)) (jsonOfReflect v)] else []) fs)))"
| "jsonOfReflect (RPtr None) = Some JNull"
| "jsonOfReflect (RPtr (Some v)) = jsonOfReflect v"
| "jsonOfReflect (RIface None) = Some JNull"
| "jsonOfReflect (RIface (Some v)) = jsonOfReflect v"
| "jsonOfReflect ROther = None"

definition marshalReflect :: "rval \<Rightarrow> string option" where
  "marshalReflect v = map_option printJson (jsonOfReflect v)"

section \<open>Parsing\<close>

text \<open>UTF-8 encoding of a code point (\<^verbatim>\<open>utf8.EncodeRune\<close>, for valid code points).\<close>

definition encodeRune :: "nat \<Rightarrow> string" where
  "encodeRune r =
     (if r < 128 then [char_of r]
      else if r < 2048 then [char_of (192 + r div 64), char_of (128 + r mod 64)]
      else if r < 65536 then
        [char_of (224 + r div 4096), char_of (128 + r div 64 mod 64), char_of (128 + r mod 64)]
      else [char_of (240 + r div 262144), char_of (128 + r div 4096 mod 64),
            char_of (128 + r div 64 mod 64), char_of (128 + r mod 64)])"

definition replacement :: string where
  "replacement = encodeRune 0xFFFD"

definition isHexDigit :: "char \<Rightarrow> bool" where
  "isHexDigit c = (isDigit c \<or> isHexLetter c)"

text \<open>Four hexadecimal digits at the front.\<close>

definition hex4 :: "string \<Rightarrow> nat option" where
  "hex4 s =
     (if length s \<ge> 4 \<and> list_all isHexDigit (take 4 s)
      then Some (foldl (\<lambda>n c. 16 * n + hexVal c) 0 (take 4 s)) else None)"

text \<open>
  The rune of a \<^verbatim>\<open>\u\<close> escape whose digits are at the front, with the number of bytes read after the
  first \<^verbatim>\<open>\u\<close>: a surrogate takes the low half from the escape that follows, or stands for U+FFFD alone.
\<close>

definition readEscape :: "nat \<Rightarrow> string \<Rightarrow> nat \<times> nat" where
  "readEscape r s =
     (if 0xD800 \<le> r \<and> r < 0xE000 then
        (case (if length s \<ge> 6 \<and> s ! 4 = CHR 0x5C \<and> s ! 5 = CHR ''u'' then hex4 (drop 6 s) else None) of
           Some r2 \<Rightarrow>
             if r < 0xDC00 \<and> 0xDC00 \<le> r2 \<and> r2 < 0xE000
             then ((r - 0xD800) * 1024 + (r2 - 0xDC00) + 0x10000, 10)
             else (0xFFFD, 4)
         | None \<Rightarrow> (0xFFFD, 4))
      else (r, 4))"

definition unescapeByte :: "char \<Rightarrow> char option" where
  "unescapeByte c =
     (if c = CHR 0x22 \<or> c = CHR 0x5C \<or> c = CHR ''/'' then Some c
      else if c = CHR ''b'' then Some (CHR 0x08)
      else if c = CHR ''f'' then Some (CHR 0x0C)
      else if c = CHR ''n'' then Some (CHR 0x0A)
      else if c = CHR ''r'' then Some (CHR 0x0D)
      else if c = CHR ''t'' then Some (CHR 0x09)
      else None)"

text \<open>The body of a string literal up to its closing quote: the decoded bytes and the rest.\<close>

definition consStr :: "string \<Rightarrow> (string \<times> string) option \<Rightarrow> (string \<times> string) option" where
  "consStr s r = map_option (\<lambda>(t, rest). (s @ t, rest)) r"

function parseString :: "string \<Rightarrow> (string \<times> string) option" where
  "parseString s =
     (case s of
        [] \<Rightarrow> None
      | c # cs \<Rightarrow>
          if c = CHR 0x22 then Some ([], cs)
          else if c = CHR 0x5C then
            (case cs of
               [] \<Rightarrow> None
             | d # ds \<Rightarrow>
                 if d = CHR ''u'' then
                   (case hex4 ds of
                      None \<Rightarrow> None
                    | Some r \<Rightarrow>
                        let (rune, n) = readEscape r ds
                        in consStr (encodeRune rune) (parseString (drop n ds)))
                 else (case unescapeByte d of
                         None \<Rightarrow> None
                       | Some e \<Rightarrow> consStr [e] (parseString ds)))
          else if (of_char c :: nat) < 32 then None
          else if (of_char c :: nat) < 128 then consStr [c] (parseString cs)
          else let n = runeLen s
               in if n = 0 then consStr replacement (parseString cs)
                  else consStr (take n s) (parseString (drop n s)))"
  by pat_completeness auto
termination
  by (relation "measure length") (auto simp: consStr_def less_Suc_eq_le)

declare parseString.simps [simp del]

text \<open>The literal of a number: sign, integer part without leading zeros, fraction, exponent.\<close>

definition spanDigits :: "string \<Rightarrow> string \<times> string" where
  "spanDigits s = (takeWhile isDigit s, dropWhile isDigit s)"

definition scanInt :: "string \<Rightarrow> (string \<times> string) option" where
  "scanInt s =
     (case s of
        [] \<Rightarrow> None
      | c # cs \<Rightarrow>
          if c = CHR ''0'' then Some ([c], cs)
          else if isDigit c then Some (spanDigits s) else None)"

definition scanFrac :: "string \<Rightarrow> (string \<times> string) option" where
  "scanFrac s =
     (if s \<noteq> [] \<and> hd s = CHR ''.'' then
        (let (ds, rest) = spanDigits (tl s)
         in if ds = [] then None else Some (CHR ''.'' # ds, rest))
      else Some ([], s))"

definition scanExpo :: "string \<Rightarrow> (string \<times> string) option" where
  "scanExpo s =
     (if s \<noteq> [] \<and> lowerChar (hd s) = CHR ''e'' then
        (let t = tl s;
             sign = (if t \<noteq> [] \<and> (hd t = CHR ''+'' \<or> hd t = CHR ''-'') then [hd t] else []);
             (ds, rest) = spanDigits (drop (length sign) t)
         in if ds = [] then None else Some (hd s # sign @ ds, rest))
      else Some ([], s))"

definition scanNumber :: "string \<Rightarrow> (string \<times> string) option" where
  "scanNumber s =
     (let sign = (if s \<noteq> [] \<and> hd s = CHR ''-'' then ''-'' else [])
      in case scanInt (drop (length sign) s) of
           None \<Rightarrow> None
         | Some (i, s1) \<Rightarrow>
             (case scanFrac s1 of
                None \<Rightarrow> None
              | Some (fr, s2) \<Rightarrow>
                  (case scanExpo s2 of
                     None \<Rightarrow> None
                   | Some (ex, s3) \<Rightarrow> Some (sign @ i @ fr @ ex, s3))))"

definition isSpaceChar :: "char \<Rightarrow> bool" where
  "isSpaceChar c = (c = CHR '' '' \<or> c = CHR 0x09 \<or> c = CHR 0x0A \<or> c = CHR 0x0D)"

definition skipSpace :: "string \<Rightarrow> string" where
  "skipSpace s = dropWhile isSpaceChar s"

text \<open>
  One value, the elements of an array after its first bracket or comma, the members of an object
  likewise. The first argument bounds the depth of the recursion; \<open>parseJson\<close> gives it the length of
  the text, which \<open>parseJson_enough\<close> shows to be enough.
\<close>

fun parseValue :: "nat \<Rightarrow> string \<Rightarrow> (json \<times> string) option"
  and parseElems :: "nat \<Rightarrow> string \<Rightarrow> (json list \<times> string) option"
  and parseMembers :: "nat \<Rightarrow> string \<Rightarrow> ((string \<times> json) list \<times> string) option" where
  "parseValue 0 s = None"
| "parseValue (Suc n) s =
     (case skipSpace s of
        [] \<Rightarrow> None
      | c # cs \<Rightarrow>
          if c = CHR ''{'' then
            (case skipSpace cs of
               [] \<Rightarrow> None
             | d # ds \<Rightarrow>
                 if d = CHR ''}'' then Some (JObj [], ds)
                 else map_option (\<lambda>(kvs, r). (JObj kvs, r)) (parseMembers n (d # ds)))
          else if c = CHR ''['' then
            (case skipSpace cs of
               [] \<Rightarrow> None
             | d # ds \<Rightarrow>
                 if d = CHR '']'' then Some (JArr [], ds)
                 else map_option (\<lambda>(js, r). (JArr js, r)) (parseElems n (d # ds)))
          else if c = CHR 0x22 then map_option (\<lambda>(t, r). (JStr t, r)) (parseString cs)
          else if hasPrefix (c # cs) ''true'' then Some (JBool True, drop 4 (c # cs))
          else if hasPrefix (c # cs) ''false'' then Some (JBool False, drop 5 (c # cs))
          else if hasPrefix (c # cs) ''null'' then Some (JNull, drop 4 (c # cs))
          else map_option (\<lambda>(t, r). (JNum t, r)) (scanNumber (c # cs)))"
| "parseElems 0 s = None"
| "parseElems (Suc n) s =
     (case parseValue n s of
        None \<Rightarrow> None
      | Some (j, r) \<Rightarrow>
          (case skipSpace r of
             [] \<Rightarrow> None
           | d # ds \<Rightarrow>
               if d = CHR '','' then map_option (\<lambda>(js, r'). (j # js, r')) (parseElems n ds)
               else if d = CHR '']'' then Some ([j], ds) else None))"
| "parseMembers 0 s = None"
| "parseMembers (Suc n) s =
     (case skipSpace s of
        [] \<Rightarrow> None
      | q # cs \<Rightarrow>
          if q \<noteq> CHR 0x22 then None
          else (case parseString cs of
             None \<Rightarrow> None
           | Some (k, r) \<Rightarrow>
               (case skipSpace r of
                  [] \<Rightarrow> None
                | colon # r' \<Rightarrow>
                    if colon \<noteq> CHR '':'' then None
                    else (case parseValue n r' of
                       None \<Rightarrow> None
                     | Some (j, r'') \<Rightarrow>
                         (case skipSpace r'' of
                            [] \<Rightarrow> None
                          | d # ds \<Rightarrow>
                              if d = CHR '','' then map_option (\<lambda>(kvs, t). ((k, j) # kvs, t)) (parseMembers n ds)
                              else if d = CHR ''}'' then Some ([(k, j)], ds) else None)))))"

text \<open>The whole text is one value with white space around it.\<close>

definition parseJson :: "string \<Rightarrow> json option" where
  "parseJson s =
     (case parseValue (2 * length s + 2) s of
        Some (j, rest) \<Rightarrow> if skipSpace rest = [] then Some j else None
      | None \<Rightarrow> None)"

end
