(* ===== verification/Command_Map.thy ===== *)
theory Command_Map
  imports Go_Json
begin

text \<open>
  \<^verbatim>\<open>mapCommandToWire\<close> of \<^verbatim>\<open>client.go\<close>: an SDK command and its payload map become the raw command and
  arguments of the native wires. The \<^verbatim>\<open>switch\<close> of the source is one definition per family of commands,
  in the order of its cases (\<open>None\<close>: the command is not of the family); \<open>wireCommand\<close> is the whole
  switch, \<open>mapCommandToWire\<close> adds the transaction wrapper in front of it.
\<close>

datatype TransportMode = TransportHTTP | TransportSynapRPC | TransportRESP3

type_synonym wire_command = "string \<times> gval list"

section \<open>Reading the payload\<close>

definition getStr :: "payload \<Rightarrow> string \<Rightarrow> string" where
  "getStr p key =
     (case map_of p key of
        Some v \<Rightarrow> (case v of GStr s \<Rightarrow> s | _ \<Rightarrow> fmtV v)
      | None \<Rightarrow> [])"

definition getFloat :: "payload \<Rightarrow> string \<Rightarrow> float64" where
  "getFloat p key =
     (case map_of p key of
        Some (GFloat64 n) \<Rightarrow> n
      | Some (GInt n) \<Rightarrow> floatOfInt (sint n)
      | _ \<Rightarrow> FNum False 0)"

definition getStrSlice :: "payload \<Rightarrow> string \<Rightarrow> string list" where
  "getStrSlice p key =
     (case map_of p key of Some (GList arr) \<Rightarrow> map fmtV arr | _ \<Rightarrow> [])"

text \<open>\<^verbatim>\<open>int(getFloat(key))\<close>.\<close>

definition getInt :: "payload \<Rightarrow> string \<Rightarrow> gval" where
  "getInt p key = GInt (int64OfFloat (getFloat p key))"

text \<open>
  \<^verbatim>\<open>counterAmount\<close>: an integer travels as an integer, anything else as the JSON text
  \<^verbatim>\<open>json.Marshal\<close> gives it.
\<close>

definition counterAmount :: "payload \<Rightarrow> gval option" where
  "counterAmount p =
     (case map_of p ''amount'' of
        None \<Rightarrow> None
      | Some GNil \<Rightarrow> None
      | Some (GInt n) \<Rightarrow> Some (GInt64 n)
      | Some (GInt64 n) \<Rightarrow> Some (GInt64 n)
      | Some v \<Rightarrow> (case marshalValue v of Some t \<Rightarrow> Some (GStr t) | None \<Rightarrow> Some (GStr (fmtV v))))"

section \<open>The switch\<close>

definition wireKV :: "string \<Rightarrow> payload \<Rightarrow> wire_command option" where
  "wireKV command p =
     (let key = GStr (getStr p ''key'') in
      if command = ''kv.set'' then
        (let ttl = getFloat p ''ttl''
         in Some (''SET'', [key, GStr (getStr p ''value'')]
                    @ (if floatPos ttl then [GStr ''EX'', GInt (int64OfFloat ttl)] else [])))
      else if command = ''kv.get'' then Some (''GET'', [key])
      else if command = ''kv.del'' then Some (''DEL'', [key])
      else if command = ''kv.exists'' then Some (''EXISTS'', [key])
      else if command = ''kv.incr'' then
        (case counterAmount p of
           Some amount \<Rightarrow> Some (''INCRBY'', [key, amount])
         | None \<Rightarrow> Some (''INCR'', [key]))
      else if command = ''kv.decr'' then
        (case counterAmount p of
           Some amount \<Rightarrow> Some (''DECRBY'', [key, amount])
         | None \<Rightarrow> Some (''DECR'', [key]))
      else None)"

definition wireHash :: "string \<Rightarrow> payload \<Rightarrow> wire_command option" where
  "wireHash command p =
     (let key = GStr (getStr p ''key''); field = GStr (getStr p ''field'') in
      if command = ''hash.set'' then Some (''HSET'', [key, field, GStr (getStr p ''value'')])
      else if command = ''hash.get'' then Some (''HGET'', [key, field])
      else if command = ''hash.getall'' then Some (''HGETALL'', [key])
      else if command = ''hash.del'' then
        (let args = [key] @ map GStr (getStrSlice p ''fields'')
         in Some (''HDEL'', if length args = 1 then args @ [field] else args))
      else if command = ''hash.exists'' then Some (''HEXISTS'', [key, field])
      else None)"

definition wireList :: "string \<Rightarrow> payload \<Rightarrow> wire_command option" where
  "wireList command p =
     (let key = GStr (getStr p ''key'') in
      if command = ''list.lpush'' then Some (''LPUSH'', [key] @ map GStr (getStrSlice p ''values''))
      else if command = ''list.rpush'' then Some (''RPUSH'', [key] @ map GStr (getStrSlice p ''values''))
      else if command = ''list.lpop'' then Some (''LPOP'', [key, getInt p ''count''])
      else if command = ''list.rpop'' then Some (''RPOP'', [key, getInt p ''count''])
      else if command = ''list.range'' then Some (''LRANGE'', [key, getInt p ''start'', getInt p ''stop''])
      else if command = ''list.len'' then Some (''LLEN'', [key])
      else None)"

definition wireSet :: "string \<Rightarrow> payload \<Rightarrow> wire_command option" where
  "wireSet command p =
     (let key = GStr (getStr p ''key'') in
      if command = ''set.add'' then Some (''SADD'', [key] @ map GStr (getStrSlice p ''members''))
      else if command = ''set.members'' then Some (''SMEMBERS'', [key])
      else if command = ''set.ismember'' then Some (''SISMEMBER'', [key, GStr (getStr p ''member'')])
      else if command = ''set.rem'' then Some (''SREM'', [key] @ map GStr (getStrSlice p ''members''))
      else if command = ''set.card'' then Some (''SCARD'', [key])
      else None)"

text \<open>The payload of \<^verbatim>\<open>queue.publish\<close>: a list of numbers is a byte string, an element that is no
  \<^verbatim>\<open>float64\<close> leaves a zero byte; any other value is rendered by \<^verbatim>\<open>%v\<close>.\<close>

definition queueBytes :: "gval list \<Rightarrow> string" where
  "queueBytes barr =
     map (\<lambda>v. case v of GFloat64 f \<Rightarrow> char_of (unat (byteOfFloat f)) | _ \<Rightarrow> char_of (0 :: nat)) barr"

definition wireQueue :: "string \<Rightarrow> payload \<Rightarrow> wire_command option" where
  "wireQueue command p =
     (let queue = GStr (getStr p ''queue'') in
      if command = ''queue.create'' then Some (''QCREATE'', [GStr (getStr p ''name'')])
      else if command = ''queue.delete'' then Some (''QDELETE'', [queue])
      else if command = ''queue.publish'' then
        Some (''QPUBLISH'', [queue]
          @ (case map_of p ''payload'' of
               Some (GList barr) \<Rightarrow> [GStr (queueBytes barr)]
             | Some v \<Rightarrow> [GStr (fmtV v)]
             | None \<Rightarrow> []))
      else if command = ''queue.consume'' then Some (''QCONSUME'', [queue, GStr (getStr p ''consumer_id'')])
      else if command = ''queue.ack'' then Some (''QACK'', [queue, GStr (getStr p ''message_id'')])
      else if command = ''queue.nack'' then Some (''QNACK'', [queue, GStr (getStr p ''message_id'')])
      else if command = ''queue.list'' then Some (''QLIST'', [])
      else if command = ''queue.stats'' then Some (''QSTATS'', [queue])
      else None)"

definition wireStream :: "string \<Rightarrow> payload \<Rightarrow> wire_command option" where
  "wireStream command p =
     (let room = GStr (getStr p ''room'') in
      if command = ''stream.create'' then Some (''SCREATE'', [room])
      else if command = ''stream.get_or_create'' then Some (''SGETORCREATE'', [room])
      else if command = ''stream.publish'' then
        Some (''SPUBLISH'', [room, GStr (getStr p ''event''), GStr (getStr p ''data'')])
      else if command = ''stream.consume'' then
        Some (''SREAD'', [room, GStr (getStr p ''subscriber_id''), getInt p ''from_offset'', getInt p ''limit''])
      else if command = ''stream.list'' then Some (''SLIST'', [])
      else if command = ''stream.stats'' then Some (''SSTATS'', [room])
      else if command = ''stream.delete'' then Some (''SDELETE'', [room])
      else None)"

definition wireTransaction :: "string \<Rightarrow> payload \<Rightarrow> wire_command option" where
  "wireTransaction command p =
     (let clientID = GStr (getStr p ''client_id'') in
      if command = ''transaction.multi'' then Some (''MULTI'', [clientID])
      else if command = ''transaction.exec'' then Some (''EXEC'', [clientID])
      else if command = ''transaction.discard'' then Some (''DISCARD'', [clientID])
      else if command = ''transaction.watch'' then
        Some (''WATCH'', [clientID] @ map GStr (getStrSlice p ''keys''))
      else if command = ''transaction.unwatch'' then Some (''UNWATCH'', [clientID])
      else None)"

definition wirePubSub :: "string \<Rightarrow> payload \<Rightarrow> TransportMode \<Rightarrow> wire_command option" where
  "wirePubSub command p transport =
     (if command = ''pubsub.publish'' then
        Some (''PUBLISH'', [GStr (getStr p ''topic''), GStr (getStr p ''payload'')])
      else if command = ''pubsub.subscribe'' then Some (''SUBSCRIBE'', map GStr (getStrSlice p ''topics''))
      else if command = ''pubsub.unsubscribe'' then
        Some (''UNSUBSCRIBE'', [GStr (getStr p ''subscriber_id'')] @ map GStr (getStrSlice p ''topics''))
      else if command = ''pubsub.topics'' then
        (if transport = TransportRESP3 then Some (''PUBSUB'', [GStr ''CHANNELS'']) else Some (''TOPICS'', []))
      else None)"

text \<open>The arguments of \<^verbatim>\<open>MSET\<close>: key and value of every pair that is a map; a missing entry is rendered
  as a nil value.\<close>

definition msetArgs :: "payload \<Rightarrow> gval list" where
  "msetArgs p =
     (case map_of p ''pairs'' of
        Some (GList pairs) \<Rightarrow>
          concat (map (\<lambda>q. case q of
              GMap pm \<Rightarrow>
                (let idx = (\<lambda>k. case map_of pm k of Some v \<Rightarrow> v | None \<Rightarrow> GNil)
                 in [GStr (fmtV (idx ''key'')), GStr (fmtV (idx ''value''))])
            | _ \<Rightarrow> []) pairs)
      | _ \<Rightarrow> [])"

definition wireUtility :: "string \<Rightarrow> payload \<Rightarrow> wire_command option" where
  "wireUtility command p =
     (if command = ''kv.dbsize'' then Some (''DBSIZE'', [])
      else if command = ''kv.flushdb'' then Some (''FLUSHDB'', [])
      else if command = ''kv.flushall'' then Some (''FLUSHALL'', [])
      else if command = ''kv.persist'' then Some (''PERSIST'', [GStr (getStr p ''key'')])
      else if command = ''kv.scan'' then
        (let prefix = getStr p ''prefix''
         in if prefix = [] then Some (''KEYS'', [GStr ''*'']) else Some (''KEYS'', [GStr (prefix @ ''*'')]))
      else if command = ''kv.mdel'' then Some (''DEL'', map GStr (getStrSlice p ''keys''))
      else if command = ''kv.mset'' then Some (''MSET'', msetArgs p)
      else if command = ''kv.mget'' then Some (''MGET'', map GStr (getStrSlice p ''keys''))
      else None)"

fun firstSome :: "'a option list \<Rightarrow> 'a option" where
  "firstSome [] = None"
| "firstSome (None # xs) = firstSome xs"
| "firstSome (Some x # xs) = Some x"

definition unsupportedCommand :: "string \<Rightarrow> goerr" where
  "unsupportedCommand command =
     SynapError ''UnsupportedCommand''
       (''command '' @ [CHR 0x27] @ command @ [CHR 0x27] @ '' is not supported on transport '' @ [CHR 0x27] @ ''SynapRpc'' @ [CHR 0x27])"

definition wireCommand ::
  "string \<Rightarrow> payload \<Rightarrow> TransportMode \<Rightarrow> goerr + wire_command" where
  "wireCommand command p transport =
     (case firstSome [wireKV command p, wireHash command p, wireList command p,
                      wireSet command p, wireQueue command p, wireStream command p,
                      wireTransaction command p, wirePubSub command p transport, wireUtility command p] of
        Some w \<Rightarrow> Inr w
      | None \<Rightarrow> Inl (unsupportedCommand command))"

section \<open>The transaction wrapper\<close>

definition txQueueable :: "string list" where
  "txQueueable =
     [''SET'', ''DEL'', ''INCR'', ''DECR'', ''INCRBY'', ''DECRBY'', ''HSET'', ''HDEL'', ''HINCRBY'',
      ''LPUSH'', ''RPUSH'', ''LPOP'', ''RPOP'', ''SADD'', ''SREM'']"

definition notQueueable :: "string \<Rightarrow> goerr" where
  "notQueueable command =
     SynapError ''UnsupportedCommand''
       (''command '' @ [CHR 0x27] @ command @ [CHR 0x27] @ '' cannot be queued inside a transaction'')"

text \<open>\<^verbatim>\<open>ok && clientID != nil && clientID != ""\<close>.\<close>

definition txClient :: "payload \<Rightarrow> gval option" where
  "txClient p =
     (case map_of p ''client_id'' of
        Some cid \<Rightarrow> if cid \<noteq> GNil \<and> cid \<noteq> GStr [] then Some cid else None
      | None \<Rightarrow> None)"

definition dropClientID :: "payload \<Rightarrow> payload" where
  "dropClientID p = filter (\<lambda>(k, v). k \<noteq> ''client_id'') p"

lemma length_dropClientID: "txClient p = Some cid \<Longrightarrow> length (dropClientID p) < length p"
  by (auto simp: txClient_def dropClientID_def split: option.splits if_splits
      dest!: map_of_SomeD intro!: length_filter_less)

function mapCommandToWire ::
  "string \<Rightarrow> payload \<Rightarrow> TransportMode \<Rightarrow> goerr + wire_command" where
  "mapCommandToWire command p transport =
     (case (if hasPrefix command ''transaction.'' then None else txClient p) of
        Some cid \<Rightarrow>
          rbind (mapCommandToWire command (dropClientID p) transport) (\<lambda>(innerCmd, innerArgs).
            if innerCmd \<notin> set txQueueable then Inl (notQueueable command)
            else Inr (''TXQUEUE'', [GStr (fmtV cid), GStr innerCmd] @ innerArgs))
      | None \<Rightarrow> wireCommand command p transport)"
  by pat_completeness auto
termination
  by (relation "measure (\<lambda>(c, p, t). length p)") (auto simp: length_dropClientID split: if_splits)

declare mapCommandToWire.simps [simp del]

section \<open>Which commands, which arguments\<close>

text \<open>The commands the native wires know.\<close>

definition supportedCommands :: "string list" where
  "supportedCommands =
     [''kv.set'', ''kv.get'', ''kv.del'', ''kv.exists'', ''kv.incr'', ''kv.decr'',
      ''hash.set'', ''hash.get'', ''hash.getall'', ''hash.del'', ''hash.exists'',
      ''list.lpush'', ''list.rpush'', ''list.lpop'', ''list.rpop'', ''list.range'', ''list.len'',
      ''set.add'', ''set.members'', ''set.ismember'', ''set.rem'', ''set.card'',
      ''queue.create'', ''queue.delete'', ''queue.publish'', ''queue.consume'', ''queue.ack'', ''queue.nack'', ''queue.list'', ''queue.stats'',
      ''stream.create'', ''stream.get_or_create'', ''stream.publish'', ''stream.consume'', ''stream.list'', ''stream.stats'', ''stream.delete'',
      ''transaction.multi'', ''transaction.exec'', ''transaction.discard'', ''transaction.watch'', ''transaction.unwatch'',
      ''pubsub.publish'', ''pubsub.subscribe'', ''pubsub.unsubscribe'', ''pubsub.topics'',
      ''kv.dbsize'', ''kv.flushdb'', ''kv.flushall'', ''kv.persist'', ''kv.scan'', ''kv.mdel'', ''kv.mset'', ''kv.mget'']"

lemmas wire_defs = wireKV_def wireHash_def wireList_def wireSet_def wireQueue_def wireStream_def
  wireTransaction_def wirePubSub_def wireUtility_def

lemma firstSome_not_None: "firstSome xs \<noteq> None \<longleftrightarrow> (\<exists>x \<in> set xs. x \<noteq> None)"
  by (induction xs rule: firstSome.induct) auto

lemma firstSome_SomeD: "firstSome xs = Some x \<Longrightarrow> Some x \<in> set xs"
  by (induction xs rule: firstSome.induct) auto

lemma wire_supported:
  "wireKV c p \<noteq> None \<longleftrightarrow> c \<in> {''kv.set'', ''kv.get'', ''kv.del'', ''kv.exists'', ''kv.incr'', ''kv.decr''}"
  "wireHash c p \<noteq> None \<longleftrightarrow> c \<in> {''hash.set'', ''hash.get'', ''hash.getall'', ''hash.del'', ''hash.exists''}"
  "wireList c p \<noteq> None \<longleftrightarrow> c \<in> {''list.lpush'', ''list.rpush'', ''list.lpop'', ''list.rpop'', ''list.range'', ''list.len''}"
  "wireSet c p \<noteq> None \<longleftrightarrow> c \<in> {''set.add'', ''set.members'', ''set.ismember'', ''set.rem'', ''set.card''}"
  "wireQueue c p \<noteq> None \<longleftrightarrow> c \<in> {''queue.create'', ''queue.delete'', ''queue.publish'', ''queue.consume'',
     ''queue.ack'', ''queue.nack'', ''queue.list'', ''queue.stats''}"
  "wireStream c p \<noteq> None \<longleftrightarrow> c \<in> {''stream.create'', ''stream.get_or_create'', ''stream.publish'', ''stream.consume'',
     ''stream.list'', ''stream.stats'', ''stream.delete''}"
  "wireTransaction c p \<noteq> None \<longleftrightarrow> c \<in> {''transaction.multi'', ''transaction.exec'', ''transaction.discard'',
     ''transaction.watch'', ''transaction.unwatch''}"
  "wirePubSub c p tr \<noteq> None \<longleftrightarrow> c \<in> {''pubsub.publish'', ''pubsub.subscribe'', ''pubsub.unsubscribe'', ''pubsub.topics''}"
  "wireUtility c p \<noteq> None \<longleftrightarrow> c \<in> {''kv.dbsize'', ''kv.flushdb'', ''kv.flushall'', ''kv.persist'', ''kv.scan'',
     ''kv.mdel'', ''kv.mset'', ''kv.mget''}"
  by (simp_all add: wire_defs Let_def split: option.splits del: not_None_eq)

abbreviation families :: "string \<Rightarrow> payload \<Rightarrow> TransportMode \<Rightarrow> wire_command option list" where
  "families c p tr \<equiv>
     [wireKV c p, wireHash c p, wireList c p, wireSet c p, wireQueue c p, wireStream c p,
      wireTransaction c p, wirePubSub c p tr, wireUtility c p]"

lemma wireCommand_Inr_iff: "wireCommand c p tr = Inr w \<longleftrightarrow> firstSome (families c p tr) = Some w"
  by (simp add: wireCommand_def split: option.split)

lemma wireCommand_supported: "(\<exists>w. wireCommand c p tr = Inr w) \<longleftrightarrow> c \<in> set supportedCommands"
proof -
  have "(\<exists>w. wireCommand c p tr = Inr w) \<longleftrightarrow> firstSome (families c p tr) \<noteq> None"
    by (simp add: wireCommand_Inr_iff)
  also have "\<dots> \<longleftrightarrow> (\<exists>x \<in> set (families c p tr). x \<noteq> None)"
    by (rule firstSome_not_None)
  also have "\<dots> \<longleftrightarrow> c \<in> set supportedCommands"
    by (simp add: wire_supported supportedCommands_def disj_assoc del: not_None_eq)
  finally show ?thesis .
qed

text \<open>An argument is text or an integer, never a list, a map, a float or nil.\<close>

definition plainArg :: "gval \<Rightarrow> bool" where
  "plainArg v = (case v of GStr _ \<Rightarrow> True | GInt _ \<Rightarrow> True | GInt64 _ \<Rightarrow> True | _ \<Rightarrow> False)"

lemma plainArg_simps [simp]: "plainArg (GStr s)" "plainArg (GInt i)" "plainArg (GInt64 i)" "plainArg (getInt p k)"
  by (simp_all add: plainArg_def getInt_def)

lemma counterAmount_plain: "counterAmount p = Some a \<Longrightarrow> plainArg a"
  by (auto simp: counterAmount_def split: option.splits gval.splits)

lemma msetArgs_plain: "list_all plainArg (msetArgs p)"
  by (auto simp: msetArgs_def list_all_iff Let_def split: option.splits gval.splits)

lemma wire_plain:
  "wireKV c p = Some (w, args) \<Longrightarrow> list_all plainArg args"
  "wireHash c p = Some (w, args) \<Longrightarrow> list_all plainArg args"
  "wireList c p = Some (w, args) \<Longrightarrow> list_all plainArg args"
  "wireSet c p = Some (w, args) \<Longrightarrow> list_all plainArg args"
  "wireQueue c p = Some (w, args) \<Longrightarrow> list_all plainArg args"
  "wireStream c p = Some (w, args) \<Longrightarrow> list_all plainArg args"
  "wireTransaction c p = Some (w, args) \<Longrightarrow> list_all plainArg args"
  "wirePubSub c p tr = Some (w, args) \<Longrightarrow> list_all plainArg args"
  "wireUtility c p = Some (w, args) \<Longrightarrow> list_all plainArg args"
  by (force simp: wire_defs Let_def list_all_iff counterAmount_plain msetArgs_plain [unfolded list_all_iff]
      split: if_splits option.splits gval.splits)+

lemma wireCommand_plain:
  assumes "wireCommand c p tr = Inr (w, args)"
  shows "list_all plainArg args"
proof -
  have "Some (w, args) \<in> set (families c p tr)"
    by (rule firstSome_SomeD) (use assms wireCommand_Inr_iff in blast)
  then show ?thesis by (auto dest: wire_plain [OF sym])
qed

section \<open>Transactions\<close>

lemma txClient_dropClientID: "txClient (dropClientID p) = None"
proof -
  have "map_of (dropClientID p) ''client_id'' = None"
    by (auto simp: dropClientID_def map_of_eq_None_iff)
  then show ?thesis by (simp add: txClient_def)
qed

text \<open>The mapper, by whether the payload belongs to a transaction.\<close>

lemma mapCommandToWire_plain:
  "hasPrefix command ''transaction.'' \<or> txClient p = None \<Longrightarrow>
   mapCommandToWire command p tr = wireCommand command p tr"
  by (subst mapCommandToWire.simps) auto

lemma mapCommandToWire_scoped:
  assumes "\<not> hasPrefix command ''transaction.''" and "txClient p = Some cid"
  shows "mapCommandToWire command p tr =
    rbind (wireCommand command (dropClientID p) tr) (\<lambda>(inner, args).
      if inner \<notin> set txQueueable then Inl (notQueueable command)
      else Inr (''TXQUEUE'', [GStr (fmtV cid), GStr inner] @ args))"
  using assms mapCommandToWire_plain [of command "dropClientID p" tr]
  by (subst mapCommandToWire.simps) (simp add: txClient_dropClientID)

section \<open>Properties\<close>



text \<open>C32. Outside a transaction a command is accepted by the native wires exactly when it is one of the
  fifty-four they know; every other command, \<^verbatim>\<open>kv.stats\<close> among them, is refused with
  \<^verbatim>\<open>UnsupportedCommand\<close>.\<close>

theorem supported_commands:
  assumes "txClient p = None"
  shows "(if command \<in> set supportedCommands
          then \<exists>w. mapCommandToWire command p tr = Inr w
          else mapCommandToWire command p tr = Inl (unsupportedCommand command))
       \<and> length supportedCommands = 54 \<and> ''kv.stats'' \<notin> set supportedCommands"
proof -
  have "mapCommandToWire command p tr = wireCommand command p tr"
    using assms by (simp add: mapCommandToWire_plain)
  moreover have "wireCommand command p tr = Inl (unsupportedCommand command) \<or> (\<exists>w. wireCommand command p tr = Inr w)"
    by (auto simp: wireCommand_def split: option.splits)
  moreover have "length supportedCommands = 54 \<and> ''kv.stats'' \<notin> set supportedCommands"
    by (simp add: supportedCommands_def)
  ultimately show ?thesis using wireCommand_supported [of command p tr] by auto
qed

theorem supported_commands_witness:
  "mapCommandToWire ''kv.stats'' [] TransportSynapRPC = Inl (unsupportedCommand ''kv.stats'')"
  using supported_commands [of "[]" "''kv.stats''" TransportSynapRPC] by (simp add: txClient_def)

text \<open>Every argument put on a native wire is text or an integer: no list, map, float or nil reaches the
  transport, whatever the payload holds.\<close>

lemma wire_arguments_are_plain:
  assumes "mapCommandToWire command p tr = Inr (w, args)"
  shows "list_all plainArg args"
proof (cases "hasPrefix command ''transaction.'' \<or> txClient p = None")
  case True
  with assms show ?thesis by (simp add: mapCommandToWire_plain wireCommand_plain)
next
  case False
  then obtain cid where "txClient p = Some cid" "\<not> hasPrefix command ''transaction.''" by auto
  with assms show ?thesis
    by (auto simp: mapCommandToWire_scoped rbind_eq_Inr_iff split: if_splits dest: wireCommand_plain)
qed

end
