(* ===== verification/Json_Roundtrip.thy ===== *)
theory Json_Roundtrip
  imports Go_Json
begin

text \<open>
  What is printed parses back: for every document whose number literals are well formed, parsing the
  text \<open>printJson\<close> gives returns the same document with its strings passed through \<open>sanitize\<close> (the
  identity on valid UTF-8). And the parser's fuel does not matter: any larger bound gives the same
  result (\<open>parseJson_enough\<close>).
\<close>

section \<open>String literals\<close>

lemma isHexDigit_hexChar [simp]: "d < 16 \<Longrightarrow> isHexDigit (hexChar d)"
  by (auto simp: isHexDigit_def isDigit_def isHexLetter_def hexChar_def lowerChar_def Let_def)

lemma hexVal_hexChar [simp]: "d < 16 \<Longrightarrow> hexVal (hexChar d) = d"
  by (auto simp: hexVal_def isDigit_def digitVal_def hexChar_def lowerChar_def Let_def)

lemma hex4_four:
  "hex4 (a # b # c # d # t) =
     (if isHexDigit a \<and> isHexDigit b \<and> isHexDigit c \<and> isHexDigit d
      then Some (16 * (16 * (16 * hexVal a + hexVal b) + hexVal c) + hexVal d) else None)"
  by (simp add: hex4_def)

lemma hex4_u4: "n < 65536 \<Longrightarrow> hex4 (drop 2 (u4 n) @ t) = Some n"
proof -
  assume n: "n < 65536"
  have d: "n div 256 = n div 16 div 16" "n div 4096 = n div 16 div 16 div 16"
    by (simp_all flip: div_mult2_eq)
  have lt: "n div 4096 < 16" using n by simp
  then have "16 * (16 * (16 * (n div 4096 mod 16) + n div 256 mod 16) + n div 16 mod 16) + n mod 16 = n"
    by (simp only: d mod_less mult_div_mod_eq)
  with lt show ?thesis by (simp add: hex4_four u4_def)
qed

lemma parseString_u4:
  assumes "n < 0xD800 \<or> 0xE000 \<le> n" and "n < 65536"
  shows "parseString (u4 n @ t) = consStr (encodeRune n) (parseString t)"
proof -
  let ?ds = "drop 2 (u4 n) @ t"
  have u4: "u4 n @ t = CHR 0x5C # CHR ''u'' # ?ds" by (simp add: u4_def)
  have "hex4 ?ds = Some n" using assms(2) by (rule hex4_u4)
  moreover have "readEscape n ?ds = (n, 4)" using assms(1) by (auto simp: readEscape_def)
  moreover have "drop 4 ?ds = t" by (simp add: u4_def)
  ultimately show ?thesis
    unfolding u4 by (subst parseString.simps) simp
qed

lemma encodeRune_ascii: "(of_char c :: nat) < 128 \<Longrightarrow> encodeRune (of_char c) = [c]"
  by (simp add: encodeRune_def)

lemma parseString_escapeByte:
  assumes "(of_char c :: nat) < 128"
  shows "parseString (escapeByte c @ t) = consStr [c] (parseString t)"
proof -
  have short: "parseString (CHR 0x5C # d # t) = consStr [c] (parseString t)"
    if "unescapeByte d = Some c" "d \<noteq> CHR ''u''" for d
    using that by (subst parseString.simps) simp
  have plain: "parseString (c # t) = consStr [c] (parseString t)"
    if "c \<noteq> CHR 0x22" "c \<noteq> CHR 0x5C" "(of_char c :: nat) \<ge> 32"
    using that assms by (subst parseString.simps) simp
  have long: "parseString (u4 (of_char c) @ t) = consStr [c] (parseString t)"
    using parseString_u4 [of "of_char c" t] assms encodeRune_ascii [OF assms] by simp
  have chars: "(of_char c :: nat) = 8 \<Longrightarrow> c = CHR 0x08" "(of_char c :: nat) = 12 \<Longrightarrow> c = CHR 0x0C"
    "(of_char c :: nat) = 10 \<Longrightarrow> c = CHR 0x0A" "(of_char c :: nat) = 13 \<Longrightarrow> c = CHR 0x0D"
    "(of_char c :: nat) = 9 \<Longrightarrow> c = CHR 0x09"
    by (rule char_eqI, simp)+
  show ?thesis
    using short long plain chars
    by (auto simp: escapeByte_def Let_def unescapeByte_def split: if_splits)
qed
text \<open>What the other side decodes: each byte that starts no valid encoding became U+FFFD.\<close>

function sanitize :: "string \<Rightarrow> string" where
  "sanitize s =
     (case s of
        [] \<Rightarrow> []
      | c # cs \<Rightarrow>
          if runeLen s = 0 then replacement @ sanitize cs
          else take (runeLen s) s @ sanitize (drop (runeLen s) s))"
  by pat_completeness auto
termination
  by (relation "measure length") auto

declare sanitize.simps [simp del]

lemma sanitize_valid: "validString s \<Longrightarrow> sanitize s = s"
proof (induction s rule: sanitize.induct)
  case (1 s)
  show ?case
  proof (cases s)
    case Nil
    then show ?thesis by (simp add: sanitize.simps)
  next
    case (Cons c cs)
    with 1(3) have n: "runeLen s > 0" and "validString (drop (runeLen s) s)"
      using validString.simps [of s] by (auto split: if_splits)
    with 1(2) [of c cs] Cons have "sanitize (drop (runeLen s) s) = drop (runeLen s) s" by simp
    with n Cons show ?thesis by (subst sanitize.simps) simp
  qed
qed

lemma consStr_Some [simp]: "consStr s (Some (t, r)) = Some (s @ t, r)"
  by (simp add: consStr_def)

lemma encodeRune_lineSep:
  "encodeRune 0x2028 = [CHR 0xE2, CHR 0x80, CHR 0xA8]" "encodeRune 0x2029 = [CHR 0xE2, CHR 0x80, CHR 0xA9]"
proof -
  have chr: "CHR 0xE2 = char_of (226 :: nat)" "CHR 0x80 = char_of (128 :: nat)"
    "CHR 0xA8 = char_of (168 :: nat)" "CHR 0xA9 = char_of (169 :: nat)"
    by (rule char_eqI, simp)+
  show "encodeRune 0x2028 = [CHR 0xE2, CHR 0x80, CHR 0xA8]" "encodeRune 0x2029 = [CHR 0xE2, CHR 0x80, CHR 0xA9]"
    by (simp_all add: encodeRune_def chr)
qed

lemma parseString_high:
  assumes "(of_char c :: nat) \<ge> 128" and "runeLen (c # cs) = n" and "n > 0"
  shows "parseString (take n (c # cs) @ t) = consStr (take n (c # cs)) (parseString t)"
proof -
  have r: "runeLen (take n (c # cs) @ t) = n" using assms(2,3) by (rule runeLen_take)
  have len: "length (take n (c # cs)) = n"
    using runeLen_le [of "c # cs"] assms(2) by simp
  obtain m where m: "n = Suc m" using assms(3) by (cases n) auto
  have c: "c \<noteq> CHR 0x22" "c \<noteq> CHR 0x5C" using assms(1) by auto
  have "drop n (take n (c # cs) @ t) = t" "take n (take n (c # cs) @ t) = take n (c # cs)"
    using len by simp_all
  moreover have "take n (c # cs) @ t = c # take m cs @ t" using m by simp
  ultimately show ?thesis
    using r c assms(1,3) by (subst parseString.simps) (simp add: Let_def)
qed

text \<open>The two line separators are escaped although they are valid.\<close>

lemma parseString_lineSep:
  assumes "s = c # cs" and "\<not> (of_char c :: nat) < 128" and sep: "isLineSep (take (runeLen s) s)" and "runeLen s \<noteq> 0"
  shows "parseString (escapeString s @ t) = consStr (take (runeLen s) s) (parseString (escapeString (drop (runeLen s) s) @ t))"
proof -
  have "length (take (runeLen s) s) = runeLen s" using runeLen_le [of s] by simp
  moreover from sep have "length (take (runeLen s) s) = 3" by (auto simp: isLineSep_def simp del: length_take)
  ultimately have n: "runeLen s = 3" by (simp only:)
  have nth: "s ! 2 = take 3 s ! 2" by simp
  define r where "r = 0x2028 + (of_char (s ! 2) - (0xA8 :: nat))"
  have r: "take 3 s = encodeRune r" "0x2028 + (of_char (s ! 2) - 0xA8) = r" "r = 0x2028 \<or> r = 0x2029"
    using sep n unfolding r_def nth by (auto simp: isLineSep_def encodeRune_lineSep simp del: nth_take)
  from r(3) have "parseString (u4 r @ escapeString (drop 3 s) @ t) = consStr (encodeRune r) (parseString (escapeString (drop 3 s) @ t))"
    by (intro parseString_u4) auto
  moreover from assms(1,2) n sep r(2) have "escapeString s = u4 r @ escapeString (drop 3 s)"
    by (subst escapeString.simps) simp
  ultimately show ?thesis using r(1) n by simp
qed

lemma parseString_escapeString [codec_simps]:
  "parseString (escapeString s @ CHR 0x22 # t) = Some (sanitize s, t)"
proof (induction s rule: escapeString.induct)
  case (1 s)
  show ?case
  proof (cases s)
    case Nil
    then show ?thesis by (simp add: escapeString.simps sanitize.simps parseString.simps)
  next
    case (Cons c cs)
    let ?n = "runeLen s"
    show ?thesis
    proof (cases "(of_char c :: nat) < 128")
      case True
      with 1(1) Cons have IH: "parseString (escapeString cs @ CHR 0x22 # t) = Some (sanitize cs, t)" by simp
      from True Cons have "sanitize s = [c] @ sanitize cs"
        by (subst sanitize.simps) (simp add: runeLen_ascii)
      with True Cons IH show ?thesis
        by (subst escapeString.simps) (simp add: parseString_escapeByte)
    next
      case high: False
      show ?thesis
      proof (cases "?n = 0")
        case True
        with 1(2) Cons high have IH: "parseString (escapeString cs @ CHR 0x22 # t) = Some (sanitize cs, t)" by simp
        from True Cons have "sanitize s = replacement @ sanitize cs" by (subst sanitize.simps) simp
        with True Cons IH high show ?thesis
          using parseString_u4 [of 65533]
          by (subst escapeString.simps) (simp add: replacement_def)
      next
        case False
        with 1(3,4) Cons high
        have IH: "parseString (escapeString (drop ?n s) @ CHR 0x22 # t) = Some (sanitize (drop ?n s), t)" by metis
        from False Cons have san: "sanitize s = take ?n s @ sanitize (drop ?n s)"
          by (subst sanitize.simps) simp
        show ?thesis
        proof (cases "isLineSep (take ?n s)")
          case True
          with parseString_lineSep [OF Cons high True False] IH san show ?thesis by simp
        next
          case noSep: False
          with False Cons IH high san parseString_high [of c cs ?n] show ?thesis
            by (subst escapeString.simps) (simp add: Let_def)
        qed
      qed
    qed
  qed
qed

section \<open>Numbers\<close>

text \<open>A number literal JSON accepts, and a rest that cannot prolong one.\<close>

definition goodLiteral :: "string \<Rightarrow> bool" where
  "goodLiteral s = (scanNumber s = Some (s, []))"

definition numberEnds :: "string \<Rightarrow> bool" where
  "numberEnds t = (t = [] \<or> hd t \<in> {CHR '','', CHR '']'', CHR ''}''} \<or> isSpaceChar (hd t))"

lemma numberEnds_hd:
  assumes "numberEnds t" and "t \<noteq> []"
  shows "\<not> isDigit (hd t)" "hd t \<noteq> CHR ''.''" "lowerChar (hd t) \<noteq> CHR ''e''" "hd t \<noteq> CHR ''-''" "hd t \<noteq> CHR ''+''"
proof -
  from assms have "hd t \<in> {CHR '','', CHR '']'', CHR ''}'', CHR '' '', CHR 0x09, CHR 0x0A, CHR 0x0D}"
    by (auto simp: numberEnds_def isSpaceChar_def)
  then show "\<not> isDigit (hd t)" "hd t \<noteq> CHR ''.''" "lowerChar (hd t) \<noteq> CHR ''e''" "hd t \<noteq> CHR ''-''" "hd t \<noteq> CHR ''+''"
    by (auto simp: isDigit_def lowerChar_def Let_def)
qed

lemma spanDigits_append:
  assumes "t = [] \<or> \<not> isDigit (hd t)"
  shows "spanDigits (s @ t) = (fst (spanDigits s), snd (spanDigits s) @ t)"
  using assms
  by (induction s) (auto simp: spanDigits_def, (cases t; simp)+)

lemma scanNumber_append:
  assumes "goodLiteral s" and "numberEnds t"
  shows "scanNumber (s @ t) = Some (s, t)"
proof -
  have t: "t = [] \<or> \<not> isDigit (hd t)" using numberEnds_hd [OF assms(2)] by blast
  have s: "s \<noteq> []" using assms(1) by (auto simp: goodLiteral_def scanNumber_def scanInt_def)
  have int: "scanInt (u @ t) = Some (i, r @ t)" if "scanInt u = Some (i, r)" for u i r
    using that spanDigits_append [OF t, of u]
    by (auto simp: scanInt_def spanDigits_def split: list.splits if_splits)
  have frac: "scanFrac (u @ t) = Some (f, r @ t)" if "scanFrac u = Some (f, r)" for u f r
    using that spanDigits_append [OF t, of "tl u"] numberEnds_hd [OF assms(2)]
    by (cases u; cases t) (auto simp: scanFrac_def spanDigits_def split: if_splits)
  have expo: "scanExpo (u @ t) = Some (e, r @ t)" if "scanExpo u = Some (e, r)" for u e r
  proof (cases "u = []")
    case True
    with that show ?thesis using numberEnds_hd(3) [OF assms(2)] by (auto simp: scanExpo_def)
  next
    case False
    define sg where "sg = (if tl u \<noteq> [] \<and> (hd (tl u) = CHR ''+'' \<or> hd (tl u) = CHR ''-'') then [hd (tl u)] else [])"
    have sg: "(if tl u @ t \<noteq> [] \<and> (hd (tl u @ t) = CHR ''+'' \<or> hd (tl u @ t) = CHR ''-'')
        then [hd (tl u @ t)] else []) = sg"
      using numberEnds_hd(4,5) [OF assms(2)] by (cases "tl u") (auto simp: sg_def)
    have dr: "drop (length sg) (tl u @ t) = drop (length sg) (tl u) @ t"
      by (cases "tl u") (auto simp: sg_def)
    from False that sg dr spanDigits_append [OF t, of "drop (length sg) (tl u)"] show ?thesis
      by (auto simp: scanExpo_def Let_def case_prod_unfold sg_def [symmetric] split: if_splits)
  qed
  let ?sg = "if hd s = CHR ''-'' then ''-'' else []"
  from assms(1) s obtain i s1 fr s2 ex where
      p: "scanInt (drop (length ?sg) s) = Some (i, s1)" "scanFrac s1 = Some (fr, s2)"
        "scanExpo s2 = Some (ex, [])" "?sg @ i @ fr @ ex = s"
    by (auto simp: goodLiteral_def scanNumber_def Let_def split: option.splits)
  have "drop (length ?sg) (s @ t) = drop (length ?sg) s @ t" using s by (cases s) auto
  with int [OF p(1)] have "scanInt (drop (length ?sg) (s @ t)) = Some (i, s1 @ t)" by (simp only:)
  with s p(4) frac [OF p(2)] expo [OF p(3)] show ?thesis
    by (simp add: scanNumber_def Let_def)
qed

lemma goodLiteral_formatInt [simp]: "goodLiteral (formatInt i)"
proof -
  have nat: "scanInt (formatNat n) = Some (formatNat n, [])" for n
  proof (cases "n < 10")
    case True
    then show ?thesis
      by (subst (1 2) formatNat.simps) (auto simp: scanInt_def spanDigits_def)
  next
    case False
    obtain c cs where c: "formatNat n = c # cs" by (cases "formatNat n") auto
    with False hd_formatNat_zero [of n] have "c \<noteq> CHR ''0''" by simp
    moreover have "\<forall>x \<in> set (formatNat n). isDigit x" by (auto dest: formatNat_isDigit)
    ultimately show ?thesis using c by (auto simp: scanInt_def spanDigits_def takeWhile_eq_all_conv)
  qed
  show ?thesis
    by (auto simp: goodLiteral_def scanNumber_def formatInt_def nat scanFrac_def scanExpo_def)
qed

section \<open>Documents\<close>

fun goodJson :: "json \<Rightarrow> bool" where
  "goodJson (JNum s) = goodLiteral s"
| "goodJson (JArr js) = list_all goodJson js"
| "goodJson (JObj kvs) = list_all (\<lambda>(k, j). goodJson j) kvs"
| "goodJson _ = True"

fun sanitizeJson :: "json \<Rightarrow> json" where
  "sanitizeJson (JStr s) = JStr (sanitize s)"
| "sanitizeJson (JArr js) = JArr (map sanitizeJson js)"
| "sanitizeJson (JObj kvs) = JObj (map (\<lambda>(k, j). (sanitize k, sanitizeJson j)) kvs)"
| "sanitizeJson j = j"

text \<open>The fuel a printed document needs.\<close>

fun need :: "json \<Rightarrow> nat" where
  "need (JArr js) = Suc (sum_list (map (\<lambda>j. Suc (need j)) js))"
| "need (JObj kvs) = Suc (sum_list (map (\<lambda>(k, j). Suc (need j)) kvs))"
| "need _ = 1"

lemmas need_induct = need.induct [case_names array object null boolean number str]

lemma goodLiteral_hd:
  assumes "goodLiteral s"
  shows "s \<noteq> [] \<and> (hd s = CHR ''-'' \<or> isDigit (hd s))"
proof (cases s)
  case Nil
  with assms show ?thesis by (simp add: goodLiteral_def scanNumber_def scanInt_def)
next
  case (Cons c cs)
  with assms show ?thesis
    by (auto simp: goodLiteral_def scanNumber_def scanInt_def Let_def isDigit_def
        split: if_splits option.splits)
qed

lemma hd_printJson:
  assumes "goodJson j"
  shows "printJson j \<noteq> [] \<and> \<not> isSpaceChar (hd (printJson j)) \<and> hd (printJson j) \<notin> {CHR '']'', CHR ''}''}"
proof (cases j)
  case (JNum s)
  with assms goodLiteral_hd [of s] show ?thesis
    by (auto simp: isSpaceChar_def isDigit_def)
qed (auto simp: isSpaceChar_def formatBool_def quoteString_def)

lemma skipSpace_printJson:
  assumes "goodJson j"
  shows "skipSpace (printJson j @ t) = printJson j @ t"
  using hd_printJson [OF assms] by (cases "printJson j") (auto simp: skipSpace_def)

lemma skipSpace_nonspace: "\<not> isSpaceChar c \<Longrightarrow> skipSpace (c # t) = c # t"
  by (simp add: skipSpace_def)

definition parsesBack :: "json \<Rightarrow> bool" where
  "parsesBack j = (\<forall>n t. need j \<le> n \<longrightarrow> numberEnds t \<longrightarrow>
     parseValue n (printJson j @ t) = Some (sanitizeJson j, t))"

lemma parsesBackD:
  "parsesBack j \<Longrightarrow> need j \<le> n \<Longrightarrow> numberEnds t \<Longrightarrow> parseValue n (printJson j @ t) = Some (sanitizeJson j, t)"
  by (simp add: parsesBack_def)

lemma numberEnds_simps [simp]:
  "numberEnds (CHR '','' # t)" "numberEnds (CHR '']'' # t)" "numberEnds (CHR ''}'' # t)" "numberEnds []"
  by (simp_all add: numberEnds_def)

lemma nonspace_simps [simp]:
  "\<not> isSpaceChar (CHR '','')" "\<not> isSpaceChar (CHR '']'')" "\<not> isSpaceChar (CHR ''}'')"
  "\<not> isSpaceChar (CHR '':'')" "\<not> isSpaceChar (CHR 0x22)" "\<not> isSpaceChar (CHR ''{'')" "\<not> isSpaceChar (CHR ''['')"
  by (simp_all add: isSpaceChar_def)

lemma parseElems_print:
  assumes "js \<noteq> []" and "list_all parsesBack js" and "sum_list (map (\<lambda>j. Suc (need j)) js) \<le> n"
  shows "parseElems n (joinWith '','' (map printJson js) @ CHR '']'' # t) = Some (map sanitizeJson js, t)"
  using assms
proof (induction js arbitrary: n rule: induct_list012)
  case 1
  then show ?case by simp
next
  case (2 j)
  then obtain m where m: "n = Suc m" "need j \<le> m" by (cases n) auto
  with 2 show ?case by (simp add: parsesBackD skipSpace_nonspace)
next
  case (3 j j' js)
  then obtain m where m: "n = Suc m" "need j \<le> m" "sum_list (map (\<lambda>j. Suc (need j)) (j' # js)) \<le> m"
    by (cases n) auto
  with 3 have "parseElems m (joinWith '','' (map printJson (j' # js)) @ CHR '']'' # t) = Some (map sanitizeJson (j' # js), t)"
    by (intro "3.IH"(2)) auto
  with 3 m show ?case by (simp add: parsesBackD skipSpace_nonspace)
qed

lemma parseMembers_print:
  assumes "kvs \<noteq> []" and "list_all (\<lambda>(k, j). parsesBack j) kvs"
    and "sum_list (map (\<lambda>(k, j). Suc (need j)) kvs) \<le> n"
  shows "parseMembers n (joinWith '','' (map (\<lambda>(k, j). quoteString k @ '':'' @ printJson j) kvs) @ CHR ''}'' # t)
           = Some (map (\<lambda>(k, j). (sanitize k, sanitizeJson j)) kvs, t)"
  using assms
proof (induction kvs arbitrary: n rule: induct_list012)
  case 1
  then show ?case by simp
next
  case (2 kj)
  obtain k j where kj: "kj = (k, j)" by fastforce
  with 2 obtain m where m: "n = Suc m" "need j \<le> m" by (cases n) auto
  with 2 kj show ?case
    by (simp add: parsesBackD skipSpace_nonspace quoteString_def parseString_escapeString)
next
  case (3 kj kj' kvs)
  obtain k j where kj: "kj = (k, j)" by fastforce
  with 3 obtain m where m: "n = Suc m" "need j \<le> m" "sum_list (map (\<lambda>(k, j). Suc (need j)) (kj' # kvs)) \<le> m"
    by (cases n) auto
  with 3 have "parseMembers m (joinWith '','' (map (\<lambda>(k, j). quoteString k @ '':'' @ printJson j) (kj' # kvs)) @ CHR ''}'' # t)
      = Some (map (\<lambda>(k, j). (sanitize k, sanitizeJson j)) (kj' # kvs), t)"
    by (intro "3.IH"(2)) auto
  with 3 m kj show ?case
    by (simp add: parsesBackD skipSpace_nonspace quoteString_def parseString_escapeString)
qed

lemma hd_joinWith: "x \<noteq> [] \<Longrightarrow> joinWith sep (x # xs) \<noteq> [] \<and> hd (joinWith sep (x # xs)) = hd x"
  by (cases xs) auto

lemma parsesBack_array:
  assumes array: "goodJson (JArr js)" "\<And>j. j \<in> set js \<Longrightarrow> goodJson j \<Longrightarrow> parsesBack j"
  shows "parsesBack (JArr js)"
  unfolding parsesBack_def
proof (intro allI impI)
  fix n t assume n: "need (JArr js) \<le> n"
  then obtain m where m: "n = Suc m" "sum_list (map (\<lambda>j. Suc (need j)) js) \<le> m" by (cases n) auto
  show "parseValue n (printJson (JArr js) @ t) = Some (sanitizeJson (JArr js), t)"
  proof (cases js)
    case Nil
    with m show ?thesis by (simp add: skipSpace_nonspace)
  next
    case (Cons j js')
    let ?body = "joinWith '','' (map printJson js) @ CHR '']'' # t"
    from array have "list_all parsesBack js" by (auto simp: list_all_iff)
    with Cons m have body: "parseElems m ?body = Some (map sanitizeJson js, t)"
      by (intro parseElems_print) auto
    have "printJson j \<noteq> [] \<and> \<not> isSpaceChar (hd (printJson j)) \<and> hd (printJson j) \<noteq> CHR '']''"
      using hd_printJson [of j] array Cons by simp
    then obtain c cs where c: "?body = c # cs" "\<not> isSpaceChar c" "c \<noteq> CHR '']''"
      using hd_joinWith [of "printJson j" "'',''" "map printJson js'"] Cons
      by (cases "joinWith '','' (map printJson js)") auto
    with m body show ?thesis by (simp add: skipSpace_nonspace)
  qed
qed

lemma parsesBack_object:
  assumes object: "goodJson (JObj kvs)" "\<And>k j. (k, j) \<in> set kvs \<Longrightarrow> goodJson j \<Longrightarrow> parsesBack j"
  shows "parsesBack (JObj kvs)"
  unfolding parsesBack_def
proof (intro allI impI)
  fix n t assume n: "need (JObj kvs) \<le> n"
  then obtain m where m: "n = Suc m" "sum_list (map (\<lambda>(k, j). Suc (need j)) kvs) \<le> m" by (cases n) auto
  show "parseValue n (printJson (JObj kvs) @ t) = Some (sanitizeJson (JObj kvs), t)"
  proof (cases kvs)
    case Nil
    with m show ?thesis by (simp add: skipSpace_nonspace)
  next
    case (Cons kj kvs')
    let ?pr = "\<lambda>(k, j). quoteString k @ '':'' @ printJson j"
    let ?body = "joinWith '','' (map ?pr kvs) @ CHR ''}'' # t"
    from object have "list_all (\<lambda>(k, j). parsesBack j) kvs" by (fastforce simp: list_all_iff)
    with Cons m have body: "parseMembers m ?body = Some (map (\<lambda>(k, j). (sanitize k, sanitizeJson j)) kvs, t)"
      by (intro parseMembers_print) auto
    obtain k j where "kj = (k, j)" by fastforce
    then obtain cs where c: "?body = CHR 0x22 # cs"
      using hd_joinWith [of "?pr kj" "'',''" "map ?pr kvs'"] Cons
      by (cases "joinWith '','' (map ?pr kvs)") (auto simp: quoteString_def)
    with m body show ?thesis by (simp add: skipSpace_nonspace)
  qed
qed

lemma parsesBack_number:
  assumes number: "goodJson (JNum s)"
  shows "parsesBack (JNum s)"
  unfolding parsesBack_def
proof (intro allI impI)
  fix n t assume n: "need (JNum s) \<le> n" and t: "numberEnds t"
  from number have s: "goodLiteral s" by simp
  then obtain c cs where c: "s = c # cs" "c = CHR ''-'' \<or> isDigit c"
    using goodLiteral_hd [of s] by (cases s) auto
  from n obtain m where "n = Suc m" by (cases n) auto
  moreover have "\<not> isSpaceChar c" "c \<notin> {CHR ''{'', CHR ''['', CHR 0x22, CHR ''t'', CHR ''f'', CHR ''n''}"
    using c(2) by (auto simp: isSpaceChar_def isDigit_def)
  ultimately show "parseValue n (printJson (JNum s) @ t) = Some (sanitizeJson (JNum s), t)"
    using c(1) scanNumber_append [OF s t] by (simp add: skipSpace_nonspace hasPrefix_def)
qed

lemma printJson_parsesBack: "goodJson j \<Longrightarrow> parsesBack j"
proof (induction j rule: need_induct)
  case (array js)
  then show ?case by (intro parsesBack_array)
next
  case (object kvs)
  then show ?case by (intro parsesBack_object) blast+
next
  case (number s)
  then show ?case by (rule parsesBack_number)
qed (auto simp: parsesBack_def Suc_le_eq gr0_conv_Suc skipSpace_def isSpaceChar_def formatBool_def
    hasPrefix_def quoteString_def parseString_escapeString)

lemma sum_list_length_joinWith:
  assumes "\<And>x. x \<in> set xs \<Longrightarrow> f x \<le> 2 * length (g x)"
  shows "sum_list (map f xs) \<le> 2 * length (joinWith sep (map g xs))"
  using assms
proof (induction xs rule: induct_list012)
  case (3 x y xs)
  then have "sum_list (map f (y # xs)) \<le> 2 * length (joinWith sep (map g (y # xs)))"
    by (intro "3.IH"(2)) auto
  moreover have "f x \<le> 2 * length (g x)" using 3(3) [of x] by simp
  ultimately show ?case by simp
qed auto

lemma need_less: "goodJson j \<Longrightarrow> need j < 2 * length (printJson j)"
proof (induction j rule: need_induct)
  case (array js)
  then have "sum_list (map (\<lambda>j. Suc (need j)) js) \<le> 2 * length (joinWith '','' (map printJson js))"
    by (intro sum_list_length_joinWith) (auto simp: list_all_iff Suc_le_eq)
  then show ?case by simp
next
  case (object kvs)
  let ?pr = "\<lambda>(k, j). quoteString k @ '':'' @ printJson j"
  have "(\<lambda>(k, j). Suc (need j)) x \<le> 2 * length (?pr x)" if "x \<in> set kvs" for x
    using object(1) [OF that] object(2) that by (cases x) (fastforce simp: list_all_iff)
  then have "sum_list (map (\<lambda>(k, j). Suc (need j)) kvs) \<le> 2 * length (joinWith '','' (map ?pr kvs))"
    by (rule sum_list_length_joinWith)
  then show ?case by simp
next
  case (number s)
  then show ?case using goodLiteral_hd [of s] by (cases s) auto
qed (auto simp: formatBool_def quoteString_def)

lemma parseJson_printJson [codec_simps]:
  assumes "goodJson j"
  shows "parseJson (printJson j) = Some (sanitizeJson j)"
proof -
  from need_less [OF assms] have "need j \<le> 2 * length (printJson j) + 2" by simp
  with parsesBackD [OF printJson_parsesBack [OF assms], of _ "[]"]
  have "parseValue (2 * length (printJson j) + 2) (printJson j) = Some (sanitizeJson j, [])"
    by (simp del: parseValue.simps add_2_eq_Suc')
  then show ?thesis
    by (simp add: parseJson_def skipSpace_def del: parseValue.simps add_2_eq_Suc')
qed

section \<open>The fuel of the parser is enough\<close>

lemma length_skipSpace: "length (skipSpace s) \<le> length s"
  by (simp add: skipSpace_def length_dropWhile_le)

lemma skipSpace_Cons_less: "skipSpace s = c # cs \<Longrightarrow> length cs < length s"
  using length_skipSpace [of s] by simp

lemma consStr_eq_Some: "consStr s r = Some (t, u) \<longleftrightarrow> (\<exists>t'. r = Some (t', u) \<and> t = s @ t')"
  by (auto simp: consStr_def)

lemma parseString_step:
  assumes "parseString s = Some (t, r)"
  shows "length r < length s \<or> (\<exists>s' t'. length s' < length s \<and> parseString s' = Some (t', r))"
proof (cases s)
  case Nil
  with assms show ?thesis by (simp add: parseString.simps)
next
  case (Cons c cs)
  have run: "length (drop (runeLen s) s) < length s" if "runeLen s \<noteq> 0" using that Cons by simp
  from assms Cons run show ?thesis
    by (subst (asm) parseString.simps)
       (cases cs; auto simp: consStr_eq_Some Let_def split: if_splits option.splits prod.splits)
qed

lemma parseString_consumes: "parseString s = Some (t, r) \<Longrightarrow> length r < length s"
proof (induction s arbitrary: t r rule: length_induct)
  case (1 s)
  from parseString_step [OF 1(2)] 1(1) show ?case by fastforce
qed

lemma scanInt_consumes: "scanInt s = Some (i, r) \<Longrightarrow> length r < length s"
  by (auto simp: scanInt_def spanDigits_def less_Suc_eq_le length_dropWhile_le split: list.splits if_splits)

lemma scanFrac_consumes: "scanFrac s = Some (i, r) \<Longrightarrow> length r \<le> length s"
  by (auto simp: scanFrac_def spanDigits_def split: if_splits)
     (metis diff_le_self length_dropWhile_le length_tl order_trans)

lemma scanExpo_consumes: "scanExpo s = Some (i, r) \<Longrightarrow> length r \<le> length s"
proof -
  have "length (dropWhile isDigit (drop k (tl s))) \<le> length s" for k
    using length_dropWhile_le [of isDigit "drop k (tl s)"] by simp
  from this [of 0] this [of 1] show "scanExpo s = Some (i, r) \<Longrightarrow> length r \<le> length s"
    by (auto simp: scanExpo_def spanDigits_def Let_def split: if_splits)
qed

lemma scanNumber_consumes: "scanNumber s = Some (i, r) \<Longrightarrow> length r < length s"
  by (fastforce simp: scanNumber_def Let_def split: option.splits if_splits
      dest!: scanInt_consumes scanFrac_consumes scanExpo_consumes)

lemma parse_consumes:
  "parseValue n s = Some (j, r) \<Longrightarrow> length r < length s"
  "parseElems n s = Some (js, r) \<Longrightarrow> length r < length s"
  "parseMembers n s = Some (kvs, r) \<Longrightarrow> length r < length s"
proof (induction n s and n s and n s arbitrary: j r and js r and kvs r
    rule: parseValue_parseElems_parseMembers.induct)
  case (2 n s)
  show ?case
  proof (cases "skipSpace s")
    case Nil
    with 2(3) show ?thesis by simp
  next
    case (Cons c cs)
    with skipSpace_Cons_less [of s c cs] length_skipSpace [of cs] 2 show ?thesis
      by (fastforce split: if_splits list.splits dest: parseString_consumes scanNumber_consumes)
  qed
next
  case (4 n s)
  from 4(3) obtain j1 r1 d ds where "parseValue n s = Some (j1, r1)" "skipSpace r1 = d # ds"
    by (auto split: option.splits prod.splits list.splits)
  with 4 skipSpace_Cons_less [of r1 d ds] show ?case
    by (fastforce split: if_splits)
next
  case (6 n s)
  from 6(3) obtain q cs k r1 r2 j1 r3 d ds where
    p: "skipSpace s = q # cs" "q = CHR 0x22" "parseString cs = Some (k, r1)" "skipSpace r1 = CHR '':'' # r2"
      "parseValue n r2 = Some (j1, r3)" "skipSpace r3 = d # ds"
    by (auto split: option.splits prod.splits list.splits if_splits)
  have "length ds < length r3" "length r2 < length r1" "length r1 < length cs" "length cs < length s"
    using p skipSpace_Cons_less parseString_consumes by blast+
  with 6 p show ?case by (fastforce split: if_splits)
qed auto

lemma parse_fuel:
  "length s \<le> k \<Longrightarrow> 2 * k < n \<Longrightarrow> 2 * k < m \<Longrightarrow> parseValue n s = parseValue m s"
  "length s \<le> k \<Longrightarrow> 2 * k + 1 < n \<Longrightarrow> 2 * k + 1 < m \<Longrightarrow> parseElems n s = parseElems m s"
  "length s \<le> k \<Longrightarrow> 2 * k + 1 < n \<Longrightarrow> 2 * k + 1 < m \<Longrightarrow> parseMembers n s = parseMembers m s"
proof (induction k arbitrary: s n m)
  case 0
  {
    case 1 then show ?case by (cases n; cases m) (auto simp: skipSpace_def)
  next
    case 2 then show ?case by (cases n; cases m; cases "n - 1"; cases "m - 1") (auto simp: skipSpace_def)
  next
    case 3 then show ?case by (cases n; cases m) (auto simp: skipSpace_def)
  }
next
  case (Suc k)
  have V: "parseValue n s = parseValue m s" if "length s \<le> Suc k" "2 * Suc k < n" "2 * Suc k < m" for s n m
  proof -
    from that obtain n' m' where nm: "n = Suc n'" "m = Suc m'" "2 * k + 1 < n'" "2 * k + 1 < m'"
      by (cases n; cases m) auto
    have "parseElems n' t = parseElems m' t" "parseMembers n' t = parseMembers m' t" if "length t \<le> k" for t
      using Suc.IH(2,3) [OF that] nm by blast+
    moreover have "length (d # ds) \<le> k" if "skipSpace s = c # cs" "skipSpace cs = d # ds" for c cs d ds
      using skipSpace_Cons_less [OF that(1)] length_skipSpace [of cs] that(2) \<open>length s \<le> Suc k\<close> by simp
    ultimately show ?thesis using nm by (auto split: list.splits)
  qed
  {
    case 1 then show ?case by (rule V)
  next
    case 2
    then obtain n' m' where nm: "n = Suc n'" "m = Suc m'" "2 * Suc k < n'" "2 * Suc k < m'"
      by (cases n; cases m) auto
    have val: "parseValue n' s = parseValue m' s" using 2(1) nm(3,4) by (rule V)
    have "parseElems n' ds = parseElems m' ds"
      if "parseValue m' s = Some (j, r)" "skipSpace r = d # ds" for j r d ds
      using parse_consumes(1) [OF that(1)] skipSpace_Cons_less [OF that(2)] 2(1) nm
      by (intro Suc.IH(2)) auto
    with nm val show ?case by (auto split: option.splits list.splits)
  next
    case 3
    then obtain n' m' where nm: "n = Suc n'" "m = Suc m'" "2 * Suc k < n'" "2 * Suc k < m'"
      by (cases n; cases m) auto
    have val: "parseValue n' t = parseValue m' t" if "length t \<le> Suc k" for t
      using that nm(3,4) by (rule V)
    have mem: "parseMembers n' t = parseMembers m' t" if "length t \<le> k" for t
      using Suc.IH(3) [OF that] nm by auto
    have "length r' \<le> Suc k" if "skipSpace s = q # cs" "parseString cs = Some (k1, r)" "skipSpace r = c # r'" for q cs k1 r c r'
      using skipSpace_Cons_less [OF that(1)] parseString_consumes [OF that(2)] skipSpace_Cons_less [OF that(3)] 3(1) by simp
    moreover have "length ds \<le> k" if "skipSpace s = q # cs" "parseString cs = Some (k1, r)" "skipSpace r = c # r'"
      "parseValue m' r' = Some (j, r2)" "skipSpace r2 = d # ds" for q cs k1 r c r' j r2 d ds
      using skipSpace_Cons_less [OF that(1)] parseString_consumes [OF that(2)] skipSpace_Cons_less [OF that(3)]
        parse_consumes(1) [OF that(4)] skipSpace_Cons_less [OF that(5)] 3(1) by simp
    ultimately show ?case using nm val mem by (auto split: option.splits list.splits)
  }
qed

lemma parseJson_enough:
  assumes "2 * length s < n"
  shows "parseJson s = (case parseValue n s of
           Some (j, rest) \<Rightarrow> if skipSpace rest = [] then Some j else None | None \<Rightarrow> None)"
  using parse_fuel(1) [of s "length s" "2 * length s + 2" n] assms
  by (simp add: parseJson_def del: parseValue.simps add_2_eq_Suc')

section \<open>Documents of valid strings\<close>

fun validJson :: "json \<Rightarrow> bool" where
  "validJson (JStr s) = validString s"
| "validJson (JArr js) = list_all validJson js"
| "validJson (JObj kvs) = list_all (\<lambda>(k, j). validString k \<and> validJson j) kvs"
| "validJson _ = True"

lemma sanitizeJson_valid: "validJson j \<Longrightarrow> sanitizeJson j = j"
proof (induction j rule: validJson.induct)
  case (2 js)
  then show ?case by (auto simp: list_all_iff intro!: map_idI)
next
  case (3 kvs)
  then show ?case by (fastforce simp: list_all_iff sanitize_valid intro!: map_idI)
qed (auto simp: sanitize_valid)

end
