(* ===== verification/Response.thy ===== *)
theory Response
  imports Json_Roundtrip
begin

text \<open>
  \<^verbatim>\<open>response.go\<close>: a reply in the form its transport produced and its decoding into a typed target.
  \<open>assign\<close> is the reflective decoder of the binary transport, \<open>decodeJson\<close> what
  \<^verbatim>\<open>json.Unmarshal\<close> does for the targets the module methods use. A decoder takes the type of the target
  and its current value, and returns the value written; on an error the callers drop the target.
\<close>

section \<open>Replies\<close>

datatype response = JsonResponse string | ValueResponse gval

definition jsonResponse :: "string \<Rightarrow> response" where
  "jsonResponse raw = JsonResponse raw"

definition valueResponse :: "gval \<Rightarrow> response" where
  "valueResponse v = ValueResponse v"

definition isNull :: "response \<Rightarrow> bool" where
  "isNull r =
     (case r of ValueResponse v \<Rightarrow> v = GNil | JsonResponse s \<Rightarrow> s = [] \<or> s = ''null'')"

text \<open>\<^verbatim>\<open>Raw\<close>: \<^verbatim>\<open>json.Marshal\<close> fails on NaN and the infinities.\<close>

definition rawOf :: "response \<Rightarrow> goerr + string" where
  "rawOf r =
     (case r of
        JsonResponse s \<Rightarrow> Inr s
      | ValueResponse v \<Rightarrow> (case marshalValue v of
            Some s \<Rightarrow> Inr s | None \<Rightarrow> Inl (Errorf ''json: unsupported value'' None)))"

section \<open>Scalars\<close>

text \<open>Type names in error messages; a struct type is abbreviated.\<close>

fun typeText :: "gtype \<Rightarrow> string" where
  "typeText TString = ''string''"
| "typeText TBool = ''bool''"
| "typeText (TInt w) = ''int'' @ formatNat w"
| "typeText (TUint w) = ''uint'' @ formatNat w"
| "typeText TFloat = ''float64''"
| "typeText TBytes = ''[]uint8''"
| "typeText (TSlice t) = ''[]'' @ typeText t"
| "typeText (TMap t) = ''map[string]'' @ typeText t"
| "typeText (TStruct _) = ''struct''"
| "typeText (TPtr t) = ''*'' @ typeText t"
| "typeText TIface = ''interface {}''"
| "typeText TOther = ''unsupported kind''"

definition cannotDecode :: "gval \<Rightarrow> string \<Rightarrow> goerr" where
  "cannotDecode src into = Errorf (''synap: cannot decode '' @ typeName src @ '' into '' @ into) None"

definition asStringValue :: "gval \<Rightarrow> goerr + string" where
  "asStringValue src =
     (case src of
        GStr v \<Rightarrow> Inr v
      | GBytes v \<Rightarrow> Inr v
      | GInt64 v \<Rightarrow> Inr (formatInt (sint v))
      | GFloat64 v \<Rightarrow> Inr (formatFloatF v)
      | GBool v \<Rightarrow> Inr (formatBool v)
      | _ \<Rightarrow> Inl (cannotDecode src ''string''))"

definition asInt :: "gval \<Rightarrow> goerr + int64" where
  "asInt src =
     (case src of
        GInt64 v \<Rightarrow> Inr v
      | GFloat64 v \<Rightarrow> Inr (int64OfFloat v)
      | GStr v \<Rightarrow> map_sum numError id (parseInt v)
      | GBool v \<Rightarrow> Inr (if v then 1 else 0)
      | _ \<Rightarrow> Inl (cannotDecode src ''an integer''))"

definition asFloat :: "gval \<Rightarrow> goerr + float64" where
  "asFloat src =
     (case src of
        GFloat64 v \<Rightarrow> Inr v
      | GInt64 v \<Rightarrow> Inr (floatOfInt (sint v))
      | GStr v \<Rightarrow> map_sum numError id (parseFloat v)
      | _ \<Rightarrow> Inl (cannotDecode src ''a float''))"

definition asBool :: "gval \<Rightarrow> goerr + bool" where
  "asBool src =
     (case src of
        GBool v \<Rightarrow> Inr v
      | GInt64 v \<Rightarrow> Inr (v \<noteq> 0)
      | GFloat64 v \<Rightarrow> Inr (floatNonzero v)
      | _ \<Rightarrow> Inl (cannotDecode src ''bool''))"

section \<open>assign\<close>

text \<open>\<^verbatim>\<open>SetInt\<close> and \<^verbatim>\<open>SetUint\<close> keep the low bits of the target's width.\<close>

definition setInt :: "nat \<Rightarrow> int64 \<Rightarrow> rval" where
  "setInt w n = RInt w (signed_take_bit (w - 1) (sint n))"

definition setUint :: "nat \<Rightarrow> int64 \<Rightarrow> goerr + rval" where
  "setUint w n =
     (if sint n < 0
      then Inl (Errorf (''synap: cannot decode negative '' @ formatInt (sint n) @ '' into uint'' @ formatNat w) None)
      else Inr (RUint w (take_bit w (unat n))))"

fun assign :: "gtype \<Rightarrow> gval \<Rightarrow> rval \<Rightarrow> goerr + rval"
  and assignFields :: "(sfield \<times> gtype) list \<Rightarrow> (string \<times> gval) list \<Rightarrow> (sfield \<times> rval) list
      \<Rightarrow> goerr + (sfield \<times> rval) list" where
  "assign t src cur =
     (if src = GNil then Inr (zeroOf t)
      else case t of
        TIface \<Rightarrow> Inr (RIface (Some (reflectOf src)))
      | TPtr t' \<Rightarrow>
          rbind (assign t' src (case cur of RPtr (Some v) \<Rightarrow> v | _ \<Rightarrow> zeroOf t')) (\<lambda>v. Inr (RPtr (Some v)))
      | TString \<Rightarrow> rbind (asStringValue src) (\<lambda>s. Inr (RString s))
      | TBool \<Rightarrow> rbind (asBool src) (\<lambda>b. Inr (RBool b))
      | TInt w \<Rightarrow> rbind (asInt src) (\<lambda>n. Inr (setInt w n))
      | TUint w \<Rightarrow> rbind (asInt src) (\<lambda>n. setUint w n)
      | TFloat \<Rightarrow> rbind (asFloat src) (\<lambda>f. Inr (RFloat f))
      | TBytes \<Rightarrow> rbind (asStringValue src) (\<lambda>s. Inr (RBytes (Some s)))
      | TSlice t' \<Rightarrow>
          (case src of
             GList items \<Rightarrow>
               rbind (traverse (\<lambda>item. assign t' item (zeroOf t')) items) (\<lambda>out. Inr (RSlice (Some out)))
           | _ \<Rightarrow> Inl (cannotDecode src (typeText t)))
      | TMap t' \<Rightarrow>
          (case src of
             GMap entries \<Rightarrow>
               rbind (traverse (\<lambda>(k, v). rbind (assign t' v (zeroOf t')) (\<lambda>e. Inr (RString k, e))) entries)
                 (\<lambda>out. Inr (RMap (Some out)))
           | _ \<Rightarrow> Inl (cannotDecode src (typeText t)))
      | TStruct fs \<Rightarrow>
          (case src of
             GMap entries \<Rightarrow>
               rbind (assignFields fs entries (case cur of RStruct vs \<Rightarrow> vs | _ \<Rightarrow> []))
                 (\<lambda>vs. Inr (RStruct vs))
           | _ \<Rightarrow> Inl (cannotDecode src (typeText t)))
      | TOther \<Rightarrow> Inl (Errorf (''synap: cannot decode into '' @ typeText t) None))"
| "assignFields ((f, t) # fs) entries ((g, v) # vs) =
     rbind (if pkgPath f \<noteq> [] \<or> snd (snd (jsonFieldName f)) then Inr v
            else case map_of entries (wireName f) of
                   None \<Rightarrow> Inr v
                 | Some src \<Rightarrow>
                     (case assign t src v of
                        Inl e \<Rightarrow> Inl (Errorf (''field '' @ wireName f) (Some e))
                      | Inr v' \<Rightarrow> Inr v'))
       (\<lambda>v'. rbind (assignFields fs entries vs) (\<lambda>vs'. Inr ((g, v') # vs')))"
| "assignFields _ entries vs = Inr vs"

declare assign.simps [simp del]

section \<open>json.Unmarshal\<close>

text \<open>Into an \<^verbatim>\<open>interface{}\<close>: numbers become \<^verbatim>\<open>float64\<close> (nil, with an error, when out of range), a
  repeated key keeps its last value.\<close>

fun valueOfJson :: "json \<Rightarrow> gval" where
  "valueOfJson JNull = GNil"
| "valueOfJson (JBool b) = GBool b"
| "valueOfJson (JNum s) = (case parseFloat s of Inr f \<Rightarrow> GFloat64 f | Inl _ \<Rightarrow> GNil)"
| "valueOfJson (JStr s) = GStr s"
| "valueOfJson (JArr js) = GList (map valueOfJson js)"
| "valueOfJson (JObj kvs) = GMap (makeMap (map (\<lambda>(k, j). (k, valueOfJson j)) kvs))"

fun numbersFit :: "json \<Rightarrow> bool" where
  "numbersFit (JNum s) = (case parseFloat s of Inr _ \<Rightarrow> True | Inl _ \<Rightarrow> False)"
| "numbersFit (JArr js) = list_all numbersFit js"
| "numbersFit (JObj kvs) = list_all (\<lambda>(k, j). numbersFit j) kvs"
| "numbersFit _ = True"

text \<open>Into a \<^verbatim>\<open>map[string]interface{}\<close>: a null leaves the map nil (empty).\<close>

definition unmarshalMap :: "string \<Rightarrow> payload option" where
  "unmarshalMap s =
     (case parseJson s of
        Some (JObj kvs) \<Rightarrow>
          if numbersFit (JObj kvs) then Some (makeMap (map (\<lambda>(k, j). (k, valueOfJson j)) kvs)) else None
      | Some JNull \<Rightarrow> Some []
      | _ \<Rightarrow> None)"

text \<open>\<^verbatim>\<open>base64.StdEncoding.DecodeString\<close>: line breaks are skipped, the padding is required.\<close>

definition b64Val :: "char \<Rightarrow> nat option" where
  "b64Val c =
     (let n = of_char c :: nat
      in if 65 \<le> n \<and> n \<le> 90 then Some (n - 65)
         else if 97 \<le> n \<and> n \<le> 122 then Some (n - 97 + 26)
         else if 48 \<le> n \<and> n \<le> 57 then Some (n - 48 + 52)
         else if c = CHR ''+'' then Some 62 else if c = CHR ''/'' then Some 63 else None)"

fun b64Decode :: "string \<Rightarrow> string option" where
  "b64Decode [] = Some []"
| "b64Decode (a # b # c # d # s) =
     (case (b64Val a, b64Val b) of
        (Some x, Some y) \<Rightarrow>
          if c = CHR ''='' \<and> d = CHR ''='' then
            (if s = [] then Some [char_of (x * 4 + y div 16)] else None)
          else (case b64Val c of
            None \<Rightarrow> None
          | Some z \<Rightarrow>
              if d = CHR ''='' then
                (if s = [] then Some [char_of (x * 4 + y div 16), char_of (y mod 16 * 16 + z div 4)] else None)
              else (case b64Val d of
                None \<Rightarrow> None
              | Some w \<Rightarrow>
                  map_option (\<lambda>r. [char_of (x * 4 + y div 16), char_of (y mod 16 * 16 + z div 4),
                                    char_of (z mod 4 * 64 + w)] @ r) (b64Decode s)))
      | _ \<Rightarrow> None)"
| "b64Decode _ = None"

definition base64Decode :: "string \<Rightarrow> string option" where
  "base64Decode s = b64Decode (filter (\<lambda>c. c \<noteq> CHR 0x0A \<and> c \<noteq> CHR 0x0D) s)"

text \<open>Member names match a field exactly, or up to case: ASCII letters, and the two code points that
  fold to ASCII letters (the long s and the Kelvin sign).\<close>

fun foldName :: "string \<Rightarrow> string" where
  "foldName [] = []"
| "foldName (c # cs) =
     (if c = CHR 0xC5 \<and> take 1 cs = [CHR 0xBF] then CHR ''s'' # foldName (drop 1 cs)
      else if c = CHR 0xE2 \<and> take 2 cs = [CHR 0x84, CHR 0xAA] then CHR ''k'' # foldName (drop 2 cs)
      else lowerChar c # foldName cs)"

definition typeError :: "string \<Rightarrow> gtype \<Rightarrow> goerr" where
  "typeError what t =
     Errorf (''json: cannot unmarshal '' @ what @ '' into Go value of type '' @ typeText t) None"

definition jsonKind :: "json \<Rightarrow> string" where
  "jsonKind j = (case j of JNull \<Rightarrow> ''null'' | JBool _ \<Rightarrow> ''bool'' | JNum _ \<Rightarrow> ''number''
                  | JStr _ \<Rightarrow> ''string'' | JArr _ \<Rightarrow> ''array'' | JObj _ \<Rightarrow> ''object'')"

text \<open>An integer literal that fits the width.\<close>

definition decodeInt :: "nat \<Rightarrow> string \<Rightarrow> goerr + rval" where
  "decodeInt w s =
     (case parseInt s of
        Inr n \<Rightarrow> if - (2 ^ (w - 1)) \<le> sint n \<and> sint n < 2 ^ (w - 1) then Inr (RInt w (sint n))
                  else Inl (typeError (''number '' @ s) (TInt w))
      | Inl _ \<Rightarrow> Inl (typeError (''number '' @ s) (TInt w)))"

definition decodeUint :: "nat \<Rightarrow> string \<Rightarrow> goerr + rval" where
  "decodeUint w s =
     (case parseNat s of
        Some n \<Rightarrow> if n < 2 ^ w then Inr (RUint w n) else Inl (typeError (''number '' @ s) (TUint w))
      | None \<Rightarrow> Inl (typeError (''number '' @ s) (TUint w)))"

definition decodeByte :: "json \<Rightarrow> goerr + char" where
  "decodeByte j =
     (case j of
        JNum s \<Rightarrow>
          (case decodeUint 8 s of
             Inr (RUint _ n) \<Rightarrow> Inr (char_of n)
           | _ \<Rightarrow> Inl (typeError (''number '' @ s) (TUint 8)))
      | JNull \<Rightarrow> Inr (char_of (0 :: nat))
      | _ \<Rightarrow> Inl (typeError (jsonKind j) (TUint 8)))"

text \<open>The field a member goes to: the one with its exact name, else the first up to case.\<close>

definition findField :: "(sfield \<times> gtype) list \<Rightarrow> string \<Rightarrow> sfield option" where
  "findField fs k =
     (let usable = filter (\<lambda>(f, t). pkgPath f = [] \<and> \<not> snd (snd (jsonFieldName f))) fs
      in case List.find (\<lambda>(f, t). wireName f = k) usable of
           Some (f, t) \<Rightarrow> Some f
         | None \<Rightarrow> map_option fst (List.find (\<lambda>(f, t). foldName (wireName f) = foldName k) usable))"

text \<open>The members that go to one field, in order; each is decoded over the value the previous one left.\<close>

definition membersFor :: "(sfield \<times> gtype) list \<Rightarrow> sfield \<Rightarrow> (string \<times> json) list \<Rightarrow> json list" where
  "membersFor fs f kvs = map snd (filter (\<lambda>(k, j). findField fs k = Some f) kvs)"

fun seqDecode :: "(json \<Rightarrow> rval \<Rightarrow> goerr + rval) \<Rightarrow> json list \<Rightarrow> rval \<Rightarrow> goerr + rval" where
  "seqDecode d [] cur = Inr cur"
| "seqDecode d (j # js) cur = rbind (d j cur) (seqDecode d js)"

fun decodeJson :: "gtype \<Rightarrow> json \<Rightarrow> rval \<Rightarrow> goerr + rval"
  and decodeFields :: "(sfield \<times> gtype) list \<Rightarrow> (sfield \<times> gtype) list \<Rightarrow> (string \<times> json) list
      \<Rightarrow> (sfield \<times> rval) list \<Rightarrow> goerr + (sfield \<times> rval) list" where
  "decodeJson t j cur =
     (case t of
        TIface \<Rightarrow>
          if numbersFit j
          then Inr (RIface (case valueOfJson j of GNil \<Rightarrow> None | v \<Rightarrow> Some (reflectOf v)))
          else Inl (typeError ''number'' TFloat)
      | TPtr t' \<Rightarrow>
          if j = JNull then Inr (RPtr None)
          else rbind (decodeJson t' j (case cur of RPtr (Some v) \<Rightarrow> v | _ \<Rightarrow> zeroOf t'))
                 (\<lambda>v. Inr (RPtr (Some v)))
      | TString \<Rightarrow>
          (case j of JNull \<Rightarrow> Inr cur | JStr s \<Rightarrow> Inr (RString s) | _ \<Rightarrow> Inl (typeError (jsonKind j) t))
      | TBool \<Rightarrow>
          (case j of JNull \<Rightarrow> Inr cur | JBool b \<Rightarrow> Inr (RBool b) | _ \<Rightarrow> Inl (typeError (jsonKind j) t))
      | TInt w \<Rightarrow>
          (case j of JNull \<Rightarrow> Inr cur | JNum s \<Rightarrow> decodeInt w s | _ \<Rightarrow> Inl (typeError (jsonKind j) t))
      | TUint w \<Rightarrow>
          (case j of JNull \<Rightarrow> Inr cur | JNum s \<Rightarrow> decodeUint w s | _ \<Rightarrow> Inl (typeError (jsonKind j) t))
      | TFloat \<Rightarrow>
          (case j of
             JNull \<Rightarrow> Inr cur
           | JNum s \<Rightarrow> (case parseFloat s of
                 Inr f \<Rightarrow> Inr (RFloat f) | Inl _ \<Rightarrow> Inl (typeError (''number '' @ s) t))
           | _ \<Rightarrow> Inl (typeError (jsonKind j) t))
      | TBytes \<Rightarrow>
          (case j of
             JNull \<Rightarrow> Inr (RBytes None)
           | JStr s \<Rightarrow> (case base64Decode s of
                 Some b \<Rightarrow> Inr (RBytes (Some b)) | None \<Rightarrow> Inl (Errorf ''illegal base64 data'' None))
           | JArr js \<Rightarrow> rbind (traverse decodeByte js) (\<lambda>b. Inr (RBytes (Some b)))
           | _ \<Rightarrow> Inl (typeError (jsonKind j) t))
      | TSlice t' \<Rightarrow>
          (case j of
             JNull \<Rightarrow> Inr (RSlice None)
           | JArr js \<Rightarrow>
               rbind (traverse (\<lambda>e. decodeJson t' e (zeroOf t')) js) (\<lambda>vs. Inr (RSlice (Some vs)))
           | _ \<Rightarrow> Inl (typeError (jsonKind j) t))
      | TMap t' \<Rightarrow>
          (case j of
             JNull \<Rightarrow> Inr (RMap None)
           | JObj kvs \<Rightarrow>
               rbind (traverse (\<lambda>(k, e). rbind (decodeJson t' e (zeroOf t')) (\<lambda>v. Inr (RString k, v))) kvs)
                 (\<lambda>out. Inr (RMap (Some (makeMap out))))
           | _ \<Rightarrow> Inl (typeError (jsonKind j) t))
      | TStruct fs \<Rightarrow>
          (case j of
             JNull \<Rightarrow> Inr cur
           | JObj kvs \<Rightarrow>
               rbind (decodeFields fs fs kvs (case cur of RStruct vs \<Rightarrow> vs | _ \<Rightarrow> []))
                 (\<lambda>vs. Inr (RStruct vs))
           | _ \<Rightarrow> Inl (typeError (jsonKind j) t))
      | TOther \<Rightarrow> Inl (typeError (jsonKind j) t))"
| "decodeFields all ((f, t) # fs) kvs ((g, v) # vs) =
     rbind (seqDecode (\<lambda>j c. decodeJson t j c) (membersFor all f kvs) v)
       (\<lambda>v'. rbind (decodeFields all fs kvs vs) (\<lambda>vs'. Inr ((g, v') # vs')))"
| "decodeFields all _ kvs vs = Inr vs"

declare decodeJson.simps [simp del]

section \<open>Decode\<close>

text \<open>Every caller passes a pointer to a fresh variable, so the target starts as the zero value.\<close>

definition decode :: "response \<Rightarrow> gtype \<Rightarrow> goerr + rval" where
  "decode r t =
     (case r of
        ValueResponse v \<Rightarrow> assign t v (zeroOf t)
      | JsonResponse s \<Rightarrow>
          (case parseJson s of
             None \<Rightarrow> Inl (Errorf ''json: invalid JSON'' None)
           | Some j \<Rightarrow> decodeJson t j (zeroOf t)))"

section \<open>Base64\<close>

lemma b64Val_b64Char: "n < 64 \<Longrightarrow> b64Val (b64Char n) = Some n"
proof -
  assume "n < 64"
  then consider "n < 26" | "26 \<le> n" "n < 52" | "52 \<le> n" "n < 62" | "n = 62" | "n = 63" by linarith
  then show ?thesis by cases (auto simp: b64Val_def b64Char_def Let_def)
qed

lemma b64Char_special: "b64Char n \<noteq> CHR ''=''" "b64Char n \<noteq> CHR 0x0A" "b64Char n \<noteq> CHR 0x0D" if "n < 64"
proof -
  from that have "b64Val (b64Char n) \<noteq> None" by (simp add: b64Val_b64Char)
  moreover have "b64Val CHR ''='' = None" "b64Val (CHR 0x0A) = None" "b64Val (CHR 0x0D) = None"
    by (simp_all add: b64Val_def)
  ultimately show "b64Char n \<noteq> CHR ''=''" "b64Char n \<noteq> CHR 0x0A" "b64Char n \<noteq> CHR 0x0D" by metis+
qed

lemma of_char_less: "(of_char (c :: char) :: nat) < 256"
  using nat_of_char_less_256 [of c] by simp

lemma div_mod_split:
  fixes x r k :: nat
  assumes "r < k"
  shows "(x * k + r) div k = x" "(x * k + r) mod k = r"
  using assms by simp_all

text \<open>Three bytes as their two, four and six bit groups.\<close>

lemma b64_groups:
  fixes a1 a2 b1 b2 c1 c2 :: nat
  assumes "a1 < 64" "a2 < 4" "b1 < 16" "b2 < 16" "c1 < 4" "c2 < 64"
  defines "n \<equiv> (a1 * 4 + a2) * 65536 + (b1 * 16 + b2) * 256 + (c1 * 64 + c2)"
  shows "n div 262144 = a1" "n div 4096 mod 64 = a2 * 16 + b1" "n div 64 mod 64 = b2 * 4 + c1" "n mod 64 = c2"
proof -
  have "n = a1 * 262144 + (a2 * 65536 + b1 * 4096 + b2 * 256 + c1 * 64 + c2)" by (simp add: n_def)
  moreover have "a2 * 65536 + b1 * 4096 + b2 * 256 + c1 * 64 + c2 < 262144" using assms by linarith
  ultimately show "n div 262144 = a1" using div_mod_split(1) by metis
  have "n = (a1 * 64 + (a2 * 16 + b1)) * 4096 + (b2 * 256 + c1 * 64 + c2)" by (simp add: n_def)
  moreover have "b2 * 256 + c1 * 64 + c2 < 4096" using assms by linarith
  ultimately have "n div 4096 = a1 * 64 + (a2 * 16 + b1)" using div_mod_split(1) by metis
  moreover have "a2 * 16 + b1 < 64" using assms by linarith
  ultimately show "n div 4096 mod 64 = a2 * 16 + b1" using div_mod_split(2) by metis
  have n64: "n = (a1 * 4096 + a2 * 1024 + b1 * 64 + (b2 * 4 + c1)) * 64 + c2" by (simp add: n_def)
  then have "n div 64 = (a1 * 64 + a2 * 16 + b1) * 64 + (b2 * 4 + c1)"
    using div_mod_split(1) [OF assms(6)] by simp
  moreover have "b2 * 4 + c1 < 64" using assms by linarith
  ultimately show "n div 64 mod 64 = b2 * 4 + c1" using div_mod_split(2) by metis
  show "n mod 64 = c2" using n64 div_mod_split(2) [OF assms(6)] by metis
qed

lemma b64_digits:
  fixes a b c :: nat
  assumes "a < 256" "b < 256" "c < 256"
  shows "(a * 65536 + b * 256 + c) div 262144 = a div 4"
    "(a * 65536 + b * 256 + c) div 4096 mod 64 = a mod 4 * 16 + b div 16"
    "(a * 65536 + b * 256 + c) div 64 mod 64 = b mod 16 * 4 + c div 64"
    "(a * 65536 + b * 256 + c) mod 64 = c mod 64"
proof -
  have "a div 4 < 64" "a mod 4 < 4" "b div 16 < 16" "b mod 16 < 16" "c div 64 < 4" "c mod 64 < 64"
    using assms by (simp_all add: less_mult_imp_div_less)
  note g = b64_groups [OF this, unfolded div_mult_mod_eq]
  show "(a * 65536 + b * 256 + c) div 262144 = a div 4" by (rule g(1))
  show "(a * 65536 + b * 256 + c) div 4096 mod 64 = a mod 4 * 16 + b div 16" by (rule g(2))
  show "(a * 65536 + b * 256 + c) div 64 mod 64 = b mod 16 * 4 + c div 64" by (rule g(3))
  show "(a * 65536 + b * 256 + c) mod 64 = c mod 64" by (rule g(4))
qed

lemma b64_bytes:
  fixes a b c :: nat
  assumes "a < 256" "b < 256" "c < 256"
  shows "a div 4 < 64" "a mod 4 * 16 + b div 16 < 64" "b mod 16 * 4 + c div 64 < 64" "c mod 64 < 64"
    "a div 4 * 4 + (a mod 4 * 16 + b div 16) div 16 = a"
    "(a mod 4 * 16 + b div 16) mod 16 * 16 + (b mod 16 * 4 + c div 64) div 4 = b"
    "(b mod 16 * 4 + c div 64) mod 4 * 64 + c mod 64 = c"
proof -
  have *: "b div 16 < 16" "c div 64 < 4" using assms by (simp_all add: less_mult_imp_div_less)
  have m: "a mod 4 < 4" "b mod 16 < 16" "c mod 64 < 64" by simp_all
  show "a div 4 < 64" using assms by (simp add: less_mult_imp_div_less)
  show "a mod 4 * 16 + b div 16 < 64" "b mod 16 * 4 + c div 64 < 64" "c mod 64 < 64" using * m by linarith+
  show "a div 4 * 4 + (a mod 4 * 16 + b div 16) div 16 = a"
    "(a mod 4 * 16 + b div 16) mod 16 * 16 + (b mod 16 * 4 + c div 64) div 4 = b"
    "(b mod 16 * 4 + c div 64) mod 4 * 64 + c mod 64 = c"
    unfolding div_mod_split [OF *(1)] div_mod_split [OF *(2)] by (rule div_mult_mod_eq)+
qed

lemma b64_three:
  fixes a b c :: char
  defines "n \<equiv> of_char a * 65536 + of_char b * 256 + of_char c :: nat"
  obtains x y z w where "n div 262144 = x" "n div 4096 mod 64 = y" "n div 64 mod 64 = z" "n mod 64 = w"
    "x < 64" "y < 64" "z < 64" "w < 64"
    "char_of (x * 4 + y div 16) = a" "char_of (y mod 16 * 16 + z div 4) = b" "char_of (z mod 4 * 64 + w) = c"
proof -
  have "(of_char d :: nat) < 256" for d :: char by (rule of_char_less)
  note less = this [of a] this [of b] this [of c]
  show ?thesis
    using that [OF b64_digits [OF less, folded n_def]] b64_bytes [OF less] by simp
qed

lemma b64Decode_base64Encode: "b64Decode (base64Encode s) = Some s"
proof (induction s rule: base64Encode.induct)
  case (2 a)
  show ?case
    by (rule b64_three [of a "char_of (0 :: nat)" "char_of (0 :: nat)"]) (simp add: b64Val_b64Char Let_def)
next
  case (3 a b)
  show ?case
    by (rule b64_three [of a b "char_of (0 :: nat)"]) (simp add: b64Val_b64Char b64Char_special Let_def)
next
  case (4 a b c cs)
  then show ?case
    by (rule_tac b64_three [of a b c]) (simp add: b64Val_b64Char b64Char_special Let_def)
qed simp

lemma base64Encode_line: "d \<in> set (base64Encode s) \<Longrightarrow> d \<noteq> CHR 0x0A \<and> d \<noteq> CHR 0x0D"
proof (induction s rule: base64Encode.induct)
  case (2 a)
  then show ?case
    by (rule_tac b64_three [of a "char_of (0 :: nat)" "char_of (0 :: nat)"]) (auto simp: b64Char_special Let_def)
next
  case (3 a b)
  then show ?case
    by (rule_tac b64_three [of a b "char_of (0 :: nat)"]) (auto simp: b64Char_special Let_def)
next
  case (4 a b c cs)
  then show ?case
    by (rule_tac b64_three [of a b c]) (auto simp: b64Char_special Let_def)
qed simp

lemma base64Decode_base64Encode [codec_simps]: "base64Decode (base64Encode s) = Some s"
proof -
  have "filter (\<lambda>c. c \<noteq> CHR 0x0A \<and> c \<noteq> CHR 0x0D) (base64Encode s) = base64Encode s"
    by (simp add: filter_id_conv base64Encode_line)
  then show ?thesis by (simp add: base64Decode_def b64Decode_base64Encode)
qed
end
