(* ===== verification/Resp3_Codec.thy ===== *)
theory Resp3_Codec
  imports Go_Value
begin

text \<open>
  The framing of \<^verbatim>\<open>transport_resp3.go\<close>: \<^verbatim>\<open>buildMultibulk\<close>, \<^verbatim>\<open>readLine\<close>, \<^verbatim>\<open>readFull\<close> and
  \<^verbatim>\<open>readResponse\<close>. The buffered reader is the list of bytes that are still to come; \<open>eof\<close> is the error
  the connection reports once they are used up (end of file, or the deadline). Every reader returns its
  result and the bytes it leaves, on an error too. A reply recurses through its elements; the fuel of
  \<open>readValue\<close> is the nesting depth, and one more than the number of bytes is always enough.
\<close>

section \<open>Requests\<close>

abbreviation crlf :: string where
  "crlf \<equiv> [CHR 0x0D, CHR 0x0A]"

definition bulk :: "string \<Rightarrow> string" where
  "bulk p = ''$'' @ formatInt (int (length p)) @ crlf @ p @ crlf"

definition buildMultibulk :: "string \<Rightarrow> gval list \<Rightarrow> string" where
  "buildMultibulk cmd args =
     (let parts = cmd # map fmtV args
      in ''*'' @ formatInt (int (length parts)) @ crlf @ concat (map bulk parts))"

section \<open>Replies\<close>

type_synonym 'a reading = "(goerr + 'a) \<times> string"

text \<open>\<^verbatim>\<open>r.ReadString('\n')\<close> and the trimming of every trailing carriage return and line feed.\<close>

definition readLine :: "goerr \<Rightarrow> string \<Rightarrow> string reading" where
  "readLine eof s =
     (case indexByte (CHR 0x0A) s of
        None \<Rightarrow> (Inl (Errorf ''RESP3: read line'' (Some eof)), [])
      | Some i \<Rightarrow> (Inr (trimRight (take (Suc i) s) {CHR 0x0D, CHR 0x0A}), drop (Suc i) s))"

definition readFull :: "goerr \<Rightarrow> nat \<Rightarrow> string \<Rightarrow> string reading" where
  "readFull eof n s = (if n \<le> length s then (Inr (take n s), drop n s) else (Inl eof, []))"

text \<open>The run time refuses an allocation of more than \<open>2 ^ 48\<close> bytes; an \<^verbatim>\<open>interface{}\<close> takes 16.\<close>

definition maxAlloc :: int where
  "maxAlloc = 2 ^ 48"

definition makesliceOK :: "int \<Rightarrow> int \<Rightarrow> bool" where
  "makesliceOK width n = (0 \<le> n \<and> n * width \<le> maxAlloc)"

definition lenPanic :: goerr where
  "lenPanic = Panic ''makeslice: len out of range''"

text \<open>A counted block: \<^verbatim>\<open>data := make([]byte, length+2)\<close>, filled, and \<^verbatim>\<open>data[:length]\<close>; the sum wraps
  around.\<close>

definition readBlock :: "goerr \<Rightarrow> string \<Rightarrow> int \<Rightarrow> string \<Rightarrow> string reading" where
  "readBlock eof what len s =
     (let total = sint (word_of_int (len + 2) :: int64)
      in if \<not> makesliceOK 1 total then (Inl lenPanic, s)
         else (case readFull eof (nat total) s of
                 (Inl e, s') \<Rightarrow> (Inl (Errorf what (Some e)), s')
               | (Inr data, s') \<Rightarrow>
                   if len < 0 then (Inl (Panic ''slice bounds out of range''), s')
                   else (Inr (take (nat len) data), s')))"

text \<open>A length field.\<close>

definition lengthField :: "string \<Rightarrow> string \<Rightarrow> goerr + int" where
  "lengthField what payload =
     (case atoi payload of
        Inl e \<Rightarrow> Inl (Errorf (''RESP3: invalid '' @ what) (Some (numError e)))
      | Inr n \<Rightarrow> Inr n)"

text \<open>The scalar replies of RESP2: simple string, error, integer and bulk string.\<close>

definition readBasic :: "goerr \<Rightarrow> char \<Rightarrow> string \<Rightarrow> string \<Rightarrow> gval reading" where
  "readBasic eof pre payload s =
     (if pre = CHR ''+'' then (Inr (GStr payload), s)
      else if pre = CHR ''-'' then (Inl (newServerError payload), s)
      else if pre = CHR '':'' then
        ((case parseInt payload of
            Inl e \<Rightarrow> Inl (Errorf ''RESP3: invalid integer'' (Some (numError e)))
          | Inr n \<Rightarrow> Inr (GInt64 n)), s)
      else
        (case lengthField ''bulk length'' payload of
           Inl e \<Rightarrow> (Inl e, s)
         | Inr len \<Rightarrow>
             if len = -1 then (Inr GNil, s)
             else apfst (map_sum id GStr) (readBlock eof ''RESP3: read bulk data'' len s)))"

text \<open>Those of RESP3, and the byte that is no type.\<close>

definition readExtended :: "goerr \<Rightarrow> char \<Rightarrow> string \<Rightarrow> string \<Rightarrow> gval reading" where
  "readExtended eof pre payload s =
     (if pre = CHR ''#'' then
        ((if payload = ''t'' then Inr (GBool True)
          else if payload = ''f'' then Inr (GBool False)
          else Inl (Errorf ''RESP3: invalid boolean'' None)), s)
      else if pre = CHR '','' then
        ((case parseFloat payload of
            Inl e \<Rightarrow> Inl (Errorf ''RESP3: invalid double'' (Some (numError e)))
          | Inr f \<Rightarrow> Inr (GFloat64 f)), s)
      else if pre = CHR ''('' then (Inr (GStr payload), s)
      else if pre = CHR ''!'' then
        (case lengthField ''blob error length'' payload of
           Inl e \<Rightarrow> (Inl e, s)
         | Inr len \<Rightarrow>
             (case readBlock eof ''RESP3: read blob error'' len s of
                (Inl e, s') \<Rightarrow> (Inl e, s')
              | (Inr data, s') \<Rightarrow> (Inl (newServerError data), s')))
      else if pre = CHR ''='' then
        (case lengthField ''verbatim length'' payload of
           Inl e \<Rightarrow> (Inl e, s)
         | Inr len \<Rightarrow>
             (case readBlock eof ''RESP3: read verbatim string'' len s of
                (Inl e, s') \<Rightarrow> (Inl e, s')
              | (Inr body, s') \<Rightarrow>
                  (Inr (GStr (if length body > 4 \<and> body ! 3 = CHR '':'' then drop 4 body else body)), s')))
      else if pre = CHR ''_'' then (Inr GNil, s)
      else (Inl (Errorf ''RESP3: unknown type byte'' None), s))"

definition readScalar :: "goerr \<Rightarrow> char \<Rightarrow> string \<Rightarrow> string \<Rightarrow> gval reading" where
  "readScalar eof pre payload s =
     (if pre = CHR ''+'' \<or> pre = CHR ''-'' \<or> pre = CHR '':'' \<or> pre = CHR ''$''
      then readBasic eof pre payload s else readExtended eof pre payload s)"

lemmas readScalar_defs = readScalar_def readBasic_def readExtended_def

text \<open>A reading followed by another, which an error skips. \<open>None\<close> is a reading that has not ended.\<close>

fun andThen :: "'a reading option \<Rightarrow> ('a \<Rightarrow> string \<Rightarrow> 'b reading option) \<Rightarrow> 'b reading option" where
  "andThen None f = None"
| "andThen (Some (Inl e, s)) f = Some (Inl e, s)"
| "andThen (Some (Inr x, s)) f = f x s"

text \<open>The loops over the elements of an array or set and over the entries of a map.\<close>

fun readElems :: "(string \<Rightarrow> gval reading option) \<Rightarrow> nat \<Rightarrow> string \<Rightarrow> gval list reading option" where
  "readElems rd 0 s = Some (Inr [], s)"
| "readElems rd (Suc k) s =
     andThen (rd s) (\<lambda>elem s'.
       andThen (readElems rd k s') (\<lambda>arr s''. Some (Inr (elem # arr), s'')))"

fun readPairs :: "(string \<Rightarrow> gval reading option) \<Rightarrow> nat \<Rightarrow> string \<Rightarrow> (string \<times> gval) list
    \<Rightarrow> (string \<times> gval) list reading option" where
  "readPairs rd 0 s out = Some (Inr out, s)"
| "readPairs rd (Suc k) s out =
     andThen (rd s) (\<lambda>key s'.
       andThen (rd s') (\<lambda>val s''. readPairs rd k s'' (aput (fmtV key) val out)))"

text \<open>\<^verbatim>\<open>readResponse\<close>, with \<open>rd\<close> for its recursive calls.\<close>

definition readArray :: "(string \<Rightarrow> gval reading option) \<Rightarrow> string \<Rightarrow> string \<Rightarrow> string \<Rightarrow> gval reading option" where
  "readArray rd what payload s =
     (case lengthField what payload of
        Inl e \<Rightarrow> Some (Inl e, s)
      | Inr count \<Rightarrow>
          if count = -1 then Some (Inr GNil, s)
          else if \<not> makesliceOK 16 count then Some (Inl lenPanic, s)
          else andThen (readElems rd (nat count) s) (\<lambda>arr s'. Some (Inr (GList arr), s')))"

definition readMap :: "(string \<Rightarrow> gval reading option) \<Rightarrow> string \<Rightarrow> string \<Rightarrow> gval reading option" where
  "readMap rd payload s =
     (case lengthField ''map length'' payload of
        Inl e \<Rightarrow> Some (Inl e, s)
      | Inr count \<Rightarrow>
          if count = -1 then Some (Inr GNil, s)
          else andThen (readPairs rd (nat count) s []) (\<lambda>out s'. Some (Inr (GMap out), s')))"

definition readOne :: "(string \<Rightarrow> gval reading option) \<Rightarrow> goerr \<Rightarrow> string \<Rightarrow> gval reading option" where
  "readOne rd eof s =
     andThen (Some (readLine eof s)) (\<lambda>line s'.
       case line of
         [] \<Rightarrow> Some (Inl (Errorf ''RESP3: empty line'' None), s')
       | pre # payload \<Rightarrow>
           if pre = CHR ''*'' then readArray rd ''array length'' payload s'
           else if pre = CHR ''%'' then readMap rd payload s'
           else if pre = CHR ''~'' then readArray rd ''set length'' payload s'
           else Some (readScalar eof pre payload s'))"

primrec readValue :: "nat \<Rightarrow> goerr \<Rightarrow> string \<Rightarrow> gval reading option" where
  "readValue 0 eof s = None"
| "readValue (Suc n) eof s = readOne (readValue n eof) eof s"

definition readResponse :: "goerr \<Rightarrow> string \<Rightarrow> gval reading" where
  "readResponse eof s = the (readValue (Suc (length s)) eof s)"

section \<open>The recursion ends\<close>

text \<open>A reader that answers more often gives the same answers where both do; a reader that never leaves
  more bytes than it was given keeps this through the loops.\<close>

definition extends :: "(string \<Rightarrow> 'a option) \<Rightarrow> (string \<Rightarrow> 'a option) \<Rightarrow> bool" where
  "extends rd rd' \<longleftrightarrow> (\<forall>s r. rd s = Some r \<longrightarrow> rd' s = Some r)"

definition shrinking :: "(string \<Rightarrow> 'a reading option) \<Rightarrow> bool" where
  "shrinking rd \<longleftrightarrow> (\<forall>s r s'. rd s = Some (r, s') \<longrightarrow> length s' \<le> length s)"

definition answersUpTo :: "nat \<Rightarrow> (string \<Rightarrow> 'a option) \<Rightarrow> bool" where
  "answersUpTo n rd \<longleftrightarrow> (\<forall>s. length s \<le> n \<longrightarrow> rd s \<noteq> None)"

lemma extendsD: "extends rd rd' \<Longrightarrow> rd s = Some r \<Longrightarrow> rd' s = Some r"
  by (auto simp: extends_def)

lemma shrinkingD: "shrinking rd \<Longrightarrow> rd s = Some (r, s') \<Longrightarrow> length s' \<le> length s"
  by (auto simp: shrinking_def)

lemma answersUpToE:
  assumes "answersUpTo n rd" and "length s \<le> n"
  obtains r s' where "rd s = Some (r, s')"
  using assms by (auto simp: answersUpTo_def)

lemma andThen_eq_Some_iff:
  "andThen m f = Some (r, s') \<longleftrightarrow>
     (\<exists>e. m = Some (Inl e, s') \<and> r = Inl e) \<or> (\<exists>x t. m = Some (Inr x, t) \<and> f x t = Some (r, s'))"
  by (cases "(m, f)" rule: andThen.cases) auto

lemma andThen_eq_None_iff:
  "andThen m f = None \<longleftrightarrow> m = None \<or> (\<exists>x t. m = Some (Inr x, t) \<and> f x t = None)"
  by (cases "(m, f)" rule: andThen.cases) auto

named_theorems reading \<open>how readings compose\<close>

lemma extends_refl [reading]: "extends rd rd"
  by (simp add: extends_def)

lemma extends_andThen [reading]:
  "extends rd rd' \<Longrightarrow> (\<And>x. extends (f x) (f' x)) \<Longrightarrow>
   extends (\<lambda>s. andThen (rd s) f) (\<lambda>s. andThen (rd' s) f')"
  unfolding extends_def by (auto simp: andThen_eq_Some_iff)

lemma shrinking_Some [reading]: "shrinking (\<lambda>s. Some (r, s))"
  by (simp add: shrinking_def)

lemma shrinking_andThen [reading]:
  "shrinking rd \<Longrightarrow> (\<And>x. shrinking (f x)) \<Longrightarrow> shrinking (\<lambda>s. andThen (rd s) f)"
  unfolding shrinking_def by (auto simp: andThen_eq_Some_iff) (metis le_trans)

lemma answersUpTo_Some [reading]: "answersUpTo n (\<lambda>s. Some (r s))"
  by (simp add: answersUpTo_def)

lemma answersUpTo_andThen [reading]:
  "shrinking rd \<Longrightarrow> answersUpTo n rd \<Longrightarrow> (\<And>x. answersUpTo n (f x)) \<Longrightarrow>
   answersUpTo n (\<lambda>s. andThen (rd s) f)"
  unfolding answersUpTo_def shrinking_def by (metis andThen_eq_None_iff le_trans)

lemma readElems_eqs:
  "readElems rd 0 = (\<lambda>s. Some (Inr [], s))"
  "readElems rd (Suc k) =
     (\<lambda>s. andThen (rd s) (\<lambda>elem s'. andThen (readElems rd k s') (\<lambda>arr s''. Some (Inr (elem # arr), s''))))"
  by (simp_all add: fun_eq_iff)

lemma readElems_extends [reading]: "extends rd rd' \<Longrightarrow> extends (readElems rd k) (readElems rd' k)"
  unfolding atomize_imp by (induction k; unfold readElems_eqs) (blast intro: reading)+

lemma readElems_shrinking [reading]: "shrinking rd \<Longrightarrow> shrinking (readElems rd k)"
  by (induction k; unfold readElems_eqs) (blast intro: reading)+

lemma readElems_answers [reading]:
  "shrinking rd \<Longrightarrow> answersUpTo n rd \<Longrightarrow> answersUpTo n (readElems rd k)"
  by (induction k; unfold readElems_eqs) (blast intro: reading)+

lemma readPairs_extends [reading]:
  "extends rd rd' \<Longrightarrow> extends (\<lambda>s. readPairs rd k s out) (\<lambda>s. readPairs rd' k s out)"
  by (induction k arbitrary: out; unfold readPairs.simps) (blast intro: reading)+

lemma readPairs_shrinking [reading]: "shrinking rd \<Longrightarrow> shrinking (\<lambda>s. readPairs rd k s out)"
  by (induction k arbitrary: out; unfold readPairs.simps) (blast intro: reading)+

lemma readPairs_answers [reading]:
  "shrinking rd \<Longrightarrow> answersUpTo n rd \<Longrightarrow> answersUpTo n (\<lambda>s. readPairs rd k s out)"
  by (induction k arbitrary: out; unfold readPairs.simps) (blast intro: reading)+

lemma reading_if [reading]:
  "extends f f' \<Longrightarrow> extends g g' \<Longrightarrow> extends (\<lambda>s. if P then f s else g s) (\<lambda>s. if P then f' s else g' s)"
  "shrinking k \<Longrightarrow> shrinking l \<Longrightarrow> shrinking (\<lambda>s. if P then k s else l s)"
  "answersUpTo n u \<Longrightarrow> answersUpTo n v \<Longrightarrow> answersUpTo n (\<lambda>s. if P then u s else v s)"
  by (cases P; simp)+

lemma reading_sum [reading]:
  "(\<And>e. extends (f e) (f' e)) \<Longrightarrow> (\<And>x. extends (g x) (g' x)) \<Longrightarrow>
   extends (\<lambda>s. case m of Inl e \<Rightarrow> f e s | Inr x \<Rightarrow> g x s) (\<lambda>s. case m of Inl e \<Rightarrow> f' e s | Inr x \<Rightarrow> g' x s)"
  "(\<And>e. shrinking (k e)) \<Longrightarrow> (\<And>x. shrinking (l x)) \<Longrightarrow>
   shrinking (\<lambda>s. case m of Inl e \<Rightarrow> k e s | Inr x \<Rightarrow> l x s)"
  "(\<And>e. answersUpTo n (u e)) \<Longrightarrow> (\<And>x. answersUpTo n (v x)) \<Longrightarrow>
   answersUpTo n (\<lambda>s. case m of Inl e \<Rightarrow> u e s | Inr x \<Rightarrow> v x s)"
  by (cases m; simp)+

lemma readArray_reading [reading]:
  "extends rd rd' \<Longrightarrow> extends (readArray rd what payload) (readArray rd' what payload)"
  "shrinking rd \<Longrightarrow> shrinking (readArray rd what payload)"
  "shrinking rd \<Longrightarrow> answersUpTo n rd \<Longrightarrow> answersUpTo n (readArray rd what payload)"
  unfolding readArray_def [abs_def] by (intro reading; assumption)+

lemma readMap_reading [reading]:
  "extends rd rd' \<Longrightarrow> extends (readMap rd payload) (readMap rd' payload)"
  "shrinking rd \<Longrightarrow> shrinking (readMap rd payload)"
  "shrinking rd \<Longrightarrow> answersUpTo n rd \<Longrightarrow> answersUpTo n (readMap rd payload)"
  unfolding readMap_def [abs_def] by (intro reading; assumption)+

lemma indexByte_less: "indexByte c s = Some i \<Longrightarrow> i < length s"
  by (induction s arbitrary: i) (auto split: if_splits)

lemma readLine_less: "readLine eof s = (Inr line, s') \<Longrightarrow> length s' < length s"
  by (auto simp: readLine_def split: option.splits dest: indexByte_less)

lemma readBlock_le: "readBlock eof what len s = (r, s') \<Longrightarrow> length s' \<le> length s"
  by (auto simp: readBlock_def readFull_def Let_def split: if_splits)

lemma length_snd_if: "length (snd a) \<le> n \<Longrightarrow> length (snd b) \<le> n \<Longrightarrow> length (snd (if P then a else b)) \<le> n"
  by simp

lemma readScalar_le: "length (snd (readScalar eof pre payload s)) \<le> length s"
  unfolding readScalar_defs
  by (intro length_snd_if)
    (auto split: sum.splits prod.splits dest!: readBlock_le intro: readBlock_le [OF prod.collapse [symmetric]])

lemma readScalar_shrinking [reading]: "shrinking (\<lambda>s. Some (readScalar eof pre payload s))"
  unfolding shrinking_def using readScalar_le by (metis option.inject snd_conv)

lemma readLine_shrinking [reading]: "shrinking (\<lambda>s. Some (readLine eof s))"
  unfolding shrinking_def by (auto simp: readLine_def split: option.splits)

lemma reading_list [reading]:
  "extends f f' \<Longrightarrow> (\<And>x xs. extends (g x xs) (g' x xs)) \<Longrightarrow>
   extends (\<lambda>s. case m of [] \<Rightarrow> f s | x # xs \<Rightarrow> g x xs s) (\<lambda>s. case m of [] \<Rightarrow> f' s | x # xs \<Rightarrow> g' x xs s)"
  "shrinking k \<Longrightarrow> (\<And>x xs. shrinking (l x xs)) \<Longrightarrow> shrinking (\<lambda>s. case m of [] \<Rightarrow> k s | x # xs \<Rightarrow> l x xs s)"
  "answersUpTo n u \<Longrightarrow> (\<And>x xs. answersUpTo n (v x xs)) \<Longrightarrow>
   answersUpTo n (\<lambda>s. case m of [] \<Rightarrow> u s | x # xs \<Rightarrow> v x xs s)"
  by (cases m; simp)+

lemma answersUpTo_line:
  "(\<And>x. answersUpTo n (f x)) \<Longrightarrow> answersUpTo (Suc n) (\<lambda>s. andThen (Some (readLine eof s)) f)"
  unfolding answersUpTo_def by (auto simp: andThen_eq_None_iff dest: readLine_less)

lemma answersUpTo_line_zero: "answersUpTo 0 (\<lambda>s. andThen (Some (readLine eof s)) f)"
  unfolding answersUpTo_def by (auto simp: andThen_eq_None_iff dest: readLine_less)

lemma readOne_reading [reading]:
  "extends rd rd' \<Longrightarrow> extends (readOne rd eof) (readOne rd' eof)"
  "shrinking rd \<Longrightarrow> shrinking (readOne rd eof)"
  unfolding readOne_def [abs_def] by (intro reading; assumption)+

lemma readOne_answers:
  "answersUpTo 0 (readOne rd eof)"
  "shrinking rd \<Longrightarrow> answersUpTo n rd \<Longrightarrow> answersUpTo (Suc n) (readOne rd eof)"
  unfolding readOne_def [abs_def] by (rule answersUpTo_line_zero answersUpTo_line; intro reading; assumption)+

lemma readValue_Suc: "readValue (Suc n) eof = readOne (readValue n eof) eof"
  by (simp add: fun_eq_iff)

lemma readValue_shrinking: "shrinking (readValue n eof)"
  by (induction n) (auto simp: shrinking_def readValue_Suc intro: readOne_reading(2) [unfolded shrinking_def, rule_format])

lemma readValue_extends: "extends (readValue n eof) (readValue (Suc n) eof)"
proof (induction n)
  case 0
  show ?case by (simp add: extends_def)
next
  case (Suc n)
  then show ?case unfolding readValue_Suc by (rule readOne_reading)
qed

lemma readValue_mono: "readValue n eof s = Some r \<Longrightarrow> n \<le> m \<Longrightarrow> readValue m eof s = Some r"
  by (induction m) (auto simp: le_Suc_eq simp del: readValue.simps(2) dest: extendsD [OF readValue_extends])

lemma readValue_answers: "answersUpTo n (readValue (Suc n) eof)"
proof (induction n)
  case 0
  show ?case unfolding readValue_Suc by (rule readOne_answers)
next
  case (Suc n)
  show ?case
    unfolding readValue_Suc [of "Suc n"] by (rule readOne_answers(2) [OF readValue_shrinking Suc.IH])
qed

lemma readValue_enough: "length s < n \<Longrightarrow> readValue n eof s = Some (readResponse eof s)"
proof -
  assume n: "length s < n"
  obtain r where r: "readValue (Suc (length s)) eof s = Some r"
    using readValue_answers [of "length s" eof] unfolding answersUpTo_def by blast
  then show ?thesis using readValue_mono [OF r, of n] n by (simp add: readResponse_def)
qed

lemma readValue_unique: "readValue n eof s = Some r \<Longrightarrow> r = readResponse eof s"
  using readValue_mono [of n eof s r "n + Suc (length s)"] readValue_enough [of s "n + Suc (length s)" eof]
  by simp

text \<open>\<^verbatim>\<open>readResponse\<close> as the code writes it, without fuel.\<close>

lemma readResponse_unfold:
  "readOne (\<lambda>t. Some (readResponse eof t)) eof s = Some (readResponse eof s)"
proof -
  have "extends (readValue (length s) eof) (\<lambda>t. Some (readResponse eof t))"
    unfolding extends_def by (auto dest: readValue_unique)
  from extendsD [OF readOne_reading(1) [OF this]] show ?thesis
    using readValue_enough [of s "Suc (length s)" eof] by simp
qed

lemma readResponse_le: "length (snd (readResponse eof s)) \<le> length s"
  using readValue_enough [of s "Suc (length s)" eof] readValue_shrinking [of "Suc (length s)" eof]
  by (metis lessI prod.collapse shrinkingD)

section \<open>The protocol\<close>

text \<open>
  The replies of RESP2 and RESP3, as a server prints them, and the Go value each stands for. A double is
  kept as its literal. \<open>goodReply\<close> is what the protocol asks of a reply (lines without line breaks, a
  three-byte format in a verbatim string), with lengths the run time can allocate, no error inside and no
  empty verbatim string.
\<close>

datatype reply =
    Simple string
  | Error string
  | Integer int64
  | Bulk string
  | NullBulk
  | NullArray
  | Null
  | Array "reply list"
  | SetOf "reply list"
  | MapOf "(reply \<times> reply) list"
  | Boolean bool
  | Double string
  | BigNumber string
  | BlobError string
  | Verbatim string string

definition line :: "char \<Rightarrow> string \<Rightarrow> string" where
  "line c payload = c # payload @ crlf"

definition block :: "char \<Rightarrow> string \<Rightarrow> string" where
  "block c p = line c (formatInt (int (length p))) @ p @ crlf"

fun printReply :: "reply \<Rightarrow> string" where
  "printReply (Simple s) = line CHR ''+'' s"
| "printReply (Error s) = line CHR ''-'' s"
| "printReply (Integer n) = line CHR '':'' (formatInt (sint n))"
| "printReply (Bulk s) = block CHR ''$'' s"
| "printReply NullBulk = line CHR ''$'' ''-1''"
| "printReply NullArray = line CHR ''*'' ''-1''"
| "printReply Null = line CHR ''_'' []"
| "printReply (Array rs) = line CHR ''*'' (formatInt (int (length rs))) @ concat (map printReply rs)"
| "printReply (SetOf rs) = line CHR ''~'' (formatInt (int (length rs))) @ concat (map printReply rs)"
| "printReply (MapOf kvs) =
     line CHR ''%'' (formatInt (int (length kvs))) @ concat (map (\<lambda>(k, v). printReply k @ printReply v) kvs)"
| "printReply (Boolean b) = line CHR ''#'' (if b then ''t'' else ''f'')"
| "printReply (Double s) = line CHR '','' s"
| "printReply (BigNumber s) = line CHR ''('' s"
| "printReply (BlobError s) = block CHR ''!'' s"
| "printReply (Verbatim fmt s) = block CHR ''='' (fmt @ '':'' @ s)"

fun replyValue :: "reply \<Rightarrow> gval" where
  "replyValue (Simple s) = GStr s"
| "replyValue (Integer n) = GInt64 n"
| "replyValue (Bulk s) = GStr s"
| "replyValue (Array rs) = GList (map replyValue rs)"
| "replyValue (SetOf rs) = GList (map replyValue rs)"
| "replyValue (MapOf kvs) =
     GMap (foldl (\<lambda>m (k, v). aput k v m) [] (map (\<lambda>(k, v). (fmtV (replyValue k), replyValue v)) kvs))"
| "replyValue (Boolean b) = GBool b"
| "replyValue (Double s) = (case parseFloat s of Inr f \<Rightarrow> GFloat64 f | Inl _ \<Rightarrow> GNil)"
| "replyValue (BigNumber s) = GStr s"
| "replyValue (Verbatim fmt s) = GStr s"
| "replyValue _ = GNil"

definition lineText :: "string \<Rightarrow> bool" where
  "lineText s = (CHR 0x0D \<notin> set s \<and> CHR 0x0A \<notin> set s)"

definition blockOK :: "string \<Rightarrow> bool" where
  "blockOK s = (int (length s) + 2 \<le> maxAlloc)"

definition countOK :: "'a list \<Rightarrow> bool" where
  "countOK xs = makesliceOK 16 (int (length xs))"

fun goodReply :: "reply \<Rightarrow> bool" where
  "goodReply (Simple s) = lineText s"
| "goodReply (Bulk s) = blockOK s"
| "goodReply (Array rs) = (countOK rs \<and> list_all goodReply rs)"
| "goodReply (SetOf rs) = (countOK rs \<and> list_all goodReply rs)"
| "goodReply (MapOf kvs) = (countOK kvs \<and> list_all (\<lambda>(k, v). goodReply k \<and> goodReply v) kvs)"
| "goodReply (Double s) = (lineText s \<and> (\<exists>f. parseFloat s = Inr f))"
| "goodReply (BigNumber s) = lineText s"
| "goodReply (Verbatim fmt s) = (length fmt = 3 \<and> s \<noteq> [] \<and> blockOK (fmt @ '':'' @ s))"
| "goodReply (Error s) = False"
| "goodReply (BlobError s) = False"
| "goodReply _ = True"

lemma readLine_line:
  assumes "c \<noteq> CHR 0x0A" "c \<noteq> CHR 0x0D" "lineText payload"
  shows "readLine eof (line c payload @ rest) = (Inr (c # payload), rest)"
proof -
  let ?l = "c # payload"
  have "CHR 0x0A \<notin> set (?l @ [CHR 0x0D])" using assms by (auto simp: lineText_def)
  from indexByte_append [OF this, of rest]
  have "indexByte CHR 0x0A (line c payload @ rest) = Some (length ?l + 1)"
    by (simp add: line_def)
  moreover have "trimRight (?l @ crlf) {CHR 0x0D, CHR 0x0A} = ?l"
    using assms last_in_set [of ?l] unfolding lineText_def
    by (subst trimRight_append) (fastforce intro!: trimRight_id simp del: last.simps)+
  ultimately show ?thesis by (simp add: readLine_def line_def)
qed

lemma lineText_simps [simp]: "lineText (formatInt i)" "lineText []" "lineText ''t''" "lineText ''f''"
  by (simp_all add: lineText_def)

lemma lengthField_formatInt:
  "- (2 ^ 63) \<le> i \<Longrightarrow> i < 2 ^ 63 \<Longrightarrow> lengthField what (formatInt i) = Inr i"
  by (simp add: lengthField_def atoi_formatInt)

lemma readBlock_crlf:
  assumes "blockOK p"
  shows "readBlock eof what (int (length p)) (p @ CHR 0x0D # CHR 0x0A # rest) = (Inr p, rest)"
proof -
  from assms have "int (length p) + 2 < 2 ^ 63" by (simp add: blockOK_def maxAlloc_def)
  then have "sint (word_of_int (int (length p) + 2) :: int64) = int (length p) + 2"
    by (intro sint_int64) auto
  with assms show ?thesis
    by (simp add: readBlock_def readFull_def makesliceOK_def blockOK_def nat_add_distrib)
qed

lemma readOne_line:
  assumes "c \<noteq> CHR 0x0A" "c \<noteq> CHR 0x0D" "lineText payload"
  shows "readOne rd eof (line c payload @ rest) =
    (if c = CHR ''*'' then readArray rd ''array length'' payload rest
     else if c = CHR ''%'' then readMap rd payload rest
     else if c = CHR ''~'' then readArray rd ''set length'' payload rest
     else Some (readScalar eof c payload rest))"
  by (simp add: readOne_def readLine_line [OF assms])

lemma readResponse_eq:
  "readOne (\<lambda>t. Some (readResponse eof t)) eof s = Some r \<Longrightarrow> readResponse eof s = r"
  using readResponse_unfold [of eof s] by simp

lemma readElems_replies:
  assumes "\<And>r rest. r \<in> set rs \<Longrightarrow> rd (printReply r @ rest) = Some (Inr (replyValue r), rest)"
  shows "readElems rd (length rs) (concat (map printReply rs) @ rest) = Some (Inr (map replyValue rs), rest)"
  using assms by (induction rs) simp_all

lemma readPairs_replies:
  assumes "\<And>k v rest. (k, v) \<in> set kvs \<Longrightarrow> rd (printReply k @ rest) = Some (Inr (replyValue k), rest)
             \<and> rd (printReply v @ rest) = Some (Inr (replyValue v), rest)"
  shows "readPairs rd (length kvs) (concat (map (\<lambda>(k, v). printReply k @ printReply v) kvs) @ rest) out
    = Some (Inr (foldl (\<lambda>m (k, v). aput k v m) out
                   (map (\<lambda>(k, v). (fmtV (replyValue k), replyValue v)) kvs)), rest)"
  using assms
proof (induction kvs arbitrary: out)
  case (Cons kv kvs)
  obtain k v where kv: "kv = (k, v)" by fastforce
  have "(k, v) \<in> set (kv # kvs)" by (simp add: kv)
  note here = Cons.prems [OF this]
  from Cons.IH [OF Cons.prems] show ?case by (simp add: kv here)
qed simp

lemma countOK_bounds: "countOK xs \<Longrightarrow> int (length xs) < 2 ^ 63"
  by (simp add: countOK_def makesliceOK_def maxAlloc_def)

lemma blockOK_bounds: "blockOK p \<Longrightarrow> int (length p) < 2 ^ 63"
  by (simp add: blockOK_def maxAlloc_def)

lemma readArray_count:
  assumes "countOK xs"
  shows "readArray rd what (formatInt (int (length xs))) s =
    andThen (readElems rd (length xs) s) (\<lambda>arr s'. Some (Inr (GList arr), s'))"
proof -
  have "lengthField what (formatInt (int (length xs))) = Inr (int (length xs))"
    using countOK_bounds [OF assms] by (intro lengthField_formatInt) auto
  with assms show ?thesis by (simp add: readArray_def countOK_def)
qed

lemma readMap_count:
  assumes "countOK xs"
  shows "readMap rd (formatInt (int (length xs))) s =
    andThen (readPairs rd (length xs) s []) (\<lambda>out s'. Some (Inr (GMap out), s'))"
proof -
  have "lengthField ''map length'' (formatInt (int (length xs))) = Inr (int (length xs))"
    using countOK_bounds [OF assms] by (intro lengthField_formatInt) auto
  then show ?thesis by (simp add: readMap_def)
qed

lemma minus_one_field [simp]: "lengthField what ''-1'' = Inr (-1)" "lineText ''-1''"
proof -
  have "formatInt (-1) = ''-1''"
    by (simp add: formatInt_def formatNat.simps digitChar_def, rule char_eqI, simp)
  then show "lengthField what ''-1'' = Inr (-1)" "lineText ''-1''"
    using lengthField_formatInt [of "-1" what] lineText_simps(1) [of "-1"] by simp_all
qed

lemma blockOK_field: "blockOK p \<Longrightarrow> lengthField what (formatInt (int (length p))) = Inr (int (length p))"
  using blockOK_bounds by (intro lengthField_formatInt) auto

lemma readResponse_printReply:
  "goodReply r \<Longrightarrow> readResponse eof (printReply r @ rest) = (Inr (replyValue r), rest)"
proof (induction r arbitrary: rest)
  case (Array rs)
  then have "\<And>r rest. r \<in> set rs \<Longrightarrow> readResponse eof (printReply r @ rest) = (Inr (replyValue r), rest)"
    by (auto simp: list_all_iff)
  with Array.prems show ?case
    by (intro readResponse_eq) (simp add: readOne_line readArray_count readElems_replies)
next
  case (SetOf rs)
  then have "\<And>r rest. r \<in> set rs \<Longrightarrow> readResponse eof (printReply r @ rest) = (Inr (replyValue r), rest)"
    by (auto simp: list_all_iff)
  with SetOf.prems show ?case
    by (intro readResponse_eq) (simp add: readOne_line readArray_count readElems_replies)
next
  case (MapOf kvs)
  then have "\<And>k v rest. (k, v) \<in> set kvs \<Longrightarrow> readResponse eof (printReply k @ rest) = (Inr (replyValue k), rest)
      \<and> readResponse eof (printReply v @ rest) = (Inr (replyValue v), rest)"
    by (fastforce simp: list_all_iff)
  with MapOf.prems show ?case
    by (intro readResponse_eq) (simp add: readOne_line readMap_count readPairs_replies)
next
  case (Verbatim fmt s)
  then show ?case
    using blockOK_field [of "fmt @ '':'' @ s"] readBlock_crlf [of "fmt @ '':'' @ s"]
    by (intro readResponse_eq) (simp add: readOne_line readScalar_defs block_def nth_append)
qed (auto intro!: readResponse_eq
      simp: readOne_line readScalar_defs readArray_def parseInt_formatInt_sint block_def blockOK_field readBlock_crlf)

section \<open>Framing as an interface\<close>

text \<open>
  What the transport relies on: a decoder that reads exactly one frame off the stream and hands back the
  bytes behind it. Frames in sequence are then read in sequence, and no frame is a prefix of another.
\<close>

text \<open>The outcomes of reading \<open>n\<close> replies one after the other, errors of the server among them.\<close>

fun readMany :: "(string \<Rightarrow> 'a reading) \<Rightarrow> nat \<Rightarrow> string \<Rightarrow> (goerr + 'a) list \<times> string" where
  "readMany rd 0 s = ([], s)"
| "readMany rd (Suc n) s = (case rd s of (x, s') \<Rightarrow> apfst ((#) x) (readMany rd n s'))"

locale framing =
  fixes decodeFrame :: "string \<Rightarrow> 'a reading"
    and encodeFrame :: "'b \<Rightarrow> string"
    and valid :: "'b \<Rightarrow> bool"
    and meaning :: "'b \<Rightarrow> goerr + 'a"
  assumes decode_encode: "valid x \<Longrightarrow> decodeFrame (encodeFrame x @ rest) = (meaning x, rest)"
begin

lemma sequence_in_order:
  "list_all valid xs \<Longrightarrow>
   readMany decodeFrame (length xs) (concat (map encodeFrame xs) @ rest) = (map meaning xs, rest)"
  by (induction xs) (simp_all add: decode_encode)

lemma prefix_free:
  assumes "valid x" and "valid y" and "encodeFrame x @ r = encodeFrame y @ t"
  shows "meaning x = meaning y \<and> r = t"
  using decode_encode [OF assms(1), of r] decode_encode [OF assms(2), of t] assms(3) by simp

end

text \<open>A request is a frame too: the array of its parts.\<close>

definition requestParts :: "string \<times> gval list \<Rightarrow> string list" where
  "requestParts req = fst req # map fmtV (snd req)"

definition goodRequest :: "string \<times> gval list \<Rightarrow> bool" where
  "goodRequest req = (countOK (requestParts req) \<and> list_all blockOK (requestParts req))"

lemma bulk_printReply: "bulk p = printReply (Bulk p)"
  by (simp add: bulk_def block_def line_def)

lemma buildMultibulk_printReply:
  "buildMultibulk cmd args = printReply (Array (map Bulk (requestParts (cmd, args))))"
  by (simp add: buildMultibulk_def requestParts_def line_def bulk_printReply comp_def Let_def)

interpretation requests: framing "readResponse eof" "\<lambda>(cmd, args). buildMultibulk cmd args" goodRequest
    "\<lambda>req. Inr (GList (map GStr (requestParts req)))"
proof
  fix req :: "string \<times> gval list" and rest
  assume "goodRequest req"
  then have "goodReply (Array (map Bulk (requestParts req)))"
    by (simp add: goodRequest_def list_all_iff countOK_def)
  from readResponse_printReply [OF this, of eof rest]
  show "readResponse eof ((case req of (cmd, args) \<Rightarrow> buildMultibulk cmd args) @ rest) =
        (Inr (GList (map GStr (requestParts req))), rest)"
    by (simp add: buildMultibulk_printReply comp_def split: prod.split)
qed

section \<open>Error replies\<close>

lemma readResponse_error:
  "lineText m \<Longrightarrow> readResponse eof (printReply (Error m) @ rest) = (Inl (newServerError m), rest)"
  "blockOK m \<Longrightarrow> readResponse eof (printReply (BlobError m) @ rest) = (Inl (newServerError m), rest)"
  by (intro readResponse_eq;
      simp add: readOne_line readScalar_defs block_def blockOK_field readBlock_crlf)+

text \<open>A reply as the whole answer to a command: an error is the outcome, anything else its value.\<close>

fun answerOK :: "reply \<Rightarrow> bool" where
  "answerOK (Error m) = lineText m"
| "answerOK (BlobError m) = blockOK m"
| "answerOK r = goodReply r"

fun outcome :: "reply \<Rightarrow> goerr + gval" where
  "outcome (Error m) = Inl (newServerError m)"
| "outcome (BlobError m) = Inl (newServerError m)"
| "outcome r = Inr (replyValue r)"

lemma readResponse_outcome: "answerOK r \<Longrightarrow> readResponse eof (printReply r @ rest) = (outcome r, rest)"
  using readResponse_error [of _ eof rest] readResponse_printReply [of r eof rest]
  by (cases r) (simp_all del: printReply.simps)

interpretation replies: framing "readResponse eof" printReply answerOK outcome
  by unfold_locales (rule readResponse_outcome)

text \<open>An error among the elements ends the loop at once; the elements behind it stay in the reader.\<close>

lemma readElems_error:
  assumes "list_all goodReply rs" and "lineText m"
  shows "readElems (\<lambda>t. Some (readResponse eof t)) (length rs + Suc n)
           (concat (map printReply rs) @ printReply (Error m) @ rest)
         = Some (Inl (newServerError m), rest)"
  using assms
proof (induction rs)
  case Nil
  then show ?case using readResponse_error(1) by (simp del: printReply.simps)
next
  case (Cons r rs)
  then show ?case using readResponse_printReply by simp
qed

lemma readResponse_nested_error:
  assumes "list_all goodReply rs" and "lineText m" and "countOK (rs @ Error m # rs')"
  shows "readResponse eof (printReply (Array (rs @ Error m # rs')) @ rest) =
         (Inl (newServerError m), concat (map printReply rs') @ rest)"
proof (rule readResponse_eq)
  have "readElems (\<lambda>t. Some (readResponse eof t)) (length (rs @ Error m # rs'))
          (concat (map printReply (rs @ Error m # rs')) @ rest)
        = Some (Inl (newServerError m), concat (map printReply rs') @ rest)"
    using readElems_error [OF assms(1,2), of eof "length rs'" "concat (map printReply rs') @ rest"] by simp
  then show "readOne (\<lambda>t. Some (readResponse eof t)) eof (printReply (Array (rs @ Error m # rs')) @ rest) =
        Some (Inl (newServerError m), concat (map printReply rs') @ rest)"
    by (simp add: readOne_line readArray_count [OF assms(3)] del: length_append list.size)
qed

section \<open>Properties\<close>

text \<open>C6. Answers that follow each other on the connection are read back one by one in order, each as the Go
  value it stands for or as the server's error, and the bytes behind the last one are left alone. An answer is
  a reply of any RESP2 or RESP3 type, nested to any depth, or a simple or blob error; excluded are an error
  inside an array, set or map, and a verbatim string without text, which the reader returns with its format
  hint.\<close>

theorem replies_in_sequence:
  assumes "list_all answerOK rs"
  shows "readMany (readResponse eof) (length rs) (concat (map printReply rs) @ rest) = (map outcome rs, rest)"
  using assms by (rule replies.sequence_in_order)

definition sampleReplies :: "reply list" where
  "sampleReplies =
     [Array [Bulk [CHR 0x0D, CHR 0x0A], NullBulk, SetOf [Integer 7]], Error ''ERR no'',
      MapOf [(Simple ''k'', Boolean True), (Integer 3, Verbatim ''txt'' ''v'')]]"

theorem replies_in_sequence_witness:
  "list_all answerOK sampleReplies \<and>
   readMany (readResponse (Errorf ''EOF'' None)) 3 (concat (map printReply sampleReplies) @ ''+OK'') =
     (map outcome sampleReplies, ''+OK'')"
proof -
  have good: "list_all answerOK sampleReplies"
    by (simp add: sampleReplies_def lineText_def blockOK_def countOK_def makesliceOK_def maxAlloc_def)
  moreover have "length sampleReplies = 3" by (simp add: sampleReplies_def)
  ultimately show ?thesis using replies_in_sequence [OF good] by metis
qed

text \<open>C11. No argument can forge protocol text: when the bytes of two requests begin the same stream, the
  commands, the rendered arguments and what follows are the same, whatever bytes (line breaks included)
  the arguments hold.\<close>

theorem no_command_injection:
  assumes "goodRequest (cmd, args)" and "goodRequest (cmd', args')"
    and "buildMultibulk cmd args @ rest = buildMultibulk cmd' args' @ rest'"
  shows "cmd = cmd' \<and> map fmtV args = map fmtV args' \<and> rest = rest'"
proof -
  have "inj GStr" by (simp add: inj_def)
  with requests.prefix_free [of "(cmd, args)" "(cmd', args')" rest rest'] assms show ?thesis
    by (simp add: requestParts_def inj_map_eq_map flip: map_map)
qed

theorem no_command_injection_witness:
  "goodRequest (''GET'', [GStr (''a'' @ crlf @ ''*1'')]) \<and>
   ''GET'' = ''GET'' \<and> map fmtV [GStr (''a'' @ crlf @ ''*1'')] = map fmtV [GStr (''a'' @ crlf @ ''*1'')] \<and> ''x'' = ''x''"
proof -
  have good: "goodRequest (''GET'', [GStr (''a'' @ crlf @ ''*1'')])"
    by (simp add: goodRequest_def requestParts_def blockOK_def countOK_def makesliceOK_def maxAlloc_def)
  then show ?thesis using no_command_injection [OF good good refl, of "''x''"] by simp
qed

text \<open>C23. Reading a reply always ends: \<^verbatim>\<open>readResponse\<close> satisfies its own recursion equation with no bound
  on the depth, never leaves more bytes than it was given, and any fuel above the number of unread bytes
  gives the same result.\<close>

theorem readResponse_terminates:
  "readOne (\<lambda>t. Some (readResponse eof t)) eof s = Some (readResponse eof s)
   \<and> length (snd (readResponse eof s)) \<le> length s
   \<and> readValue (Suc (length s + k)) eof s = Some (readResponse eof s)"
  using readResponse_unfold readResponse_le readValue_enough [of s "Suc (length s + k)" eof]
  by (simp del: readValue.simps)

text \<open>C37. A negative length other than \<open>-1\<close> in a bulk reply is not refused with an error: the
  client panics.\<close>

theorem negative_bulk_length_panics:
  assumes "- (2 ^ 63) \<le> n" and "n < -1"
  shows "\<exists>msg s'. readResponse eof (line CHR ''$'' (formatInt n) @ rest) = (Inl (Panic msg), s')"
proof -
  have field: "lengthField ''bulk length'' (formatInt n) = Inr n"
    using assms by (intro lengthField_formatInt) auto
  have "sint (word_of_int (n + 2) :: int64) = n + 2" using assms by (intro sint_int64) auto
  then have "\<exists>msg s'. readBlock eof ''RESP3: read bulk data'' n rest = (Inl (Panic msg), s')"
    using assms by (auto simp: readBlock_def makesliceOK_def lenPanic_def readFull_def Let_def)
  then obtain msg s' where "readBlock eof ''RESP3: read bulk data'' n rest = (Inl (Panic msg), s')" by blast
  with field assms have "readResponse eof (line CHR ''$'' (formatInt n) @ rest) = (Inl (Panic msg), s')"
    by (intro readResponse_eq) (simp add: readOne_line readScalar_defs)
  then show ?thesis by blast
qed

theorem negative_bulk_length_panics_witness:
  "\<exists>msg s'. readResponse (Errorf ''EOF'' None) (line CHR ''$'' (formatInt (-5)) @ []) = (Inl (Panic msg), s')"
  by (rule negative_bulk_length_panics) simp_all

end
