(* ===== verification/Rpc_Transport.thy ===== *)
theory Rpc_Transport
  imports Go_Value
begin

text \<open>
  \<^verbatim>\<open>transport_rpc.go\<close>. The connection itself is Thunder's client, a package the repository only calls:
  it is a record of operations over a world \<open>'w\<close>, a parameter of every definition that uses it. Its
  clients are named by numbers. Of Thunder's values the model has the eight kinds \<^verbatim>\<open>fromWire\<close>
  distinguishes; constants of the package are named by their identifiers. The mutex of the transport makes
  \<^verbatim>\<open>ensureConnected\<close> and \<^verbatim>\<open>Close\<close> atomic, so each is one state transformation. \<^verbatim>\<open>Execute\<close> releases the mutex before its call:
  \<open>rpcExecute\<close> is a call that no other goroutine interrupts, the interleavings are in \<open>Rpc_Concurrency\<close>.
\<close>

section \<open>Wire values\<close>

datatype wvalue =
    WNull
  | WBool bool
  | WInt int64
  | WFloat float64
  | WStr string
  | WBytes string
  | WArray "wvalue list"
  | WMap "(wvalue \<times> wvalue) list"

fun toWire :: "gval \<Rightarrow> wvalue" where
  "toWire GNil = WNull"
| "toWire (GBool b) = WBool b"
| "toWire (GStr s) = (if \<not> validString s then WBytes s else WStr s)"
| "toWire (GBytes s) = WBytes s"
| "toWire (GInt i) = WInt i"
| "toWire (GInt64 i) = WInt i"
| "toWire (GUint64 i) = WInt i"
| "toWire (GFloat64 f) = WFloat f"
| "toWire (GList vs) = WArray (map toWire vs)"
| "toWire (GMap kvs) = WMap (map (\<lambda>(k, v). (WStr k, toWire v)) kvs)"
| "toWire (GInt8 i) = WStr (fmtV (GInt8 i))"
| "toWire (GInt16 i) = WStr (fmtV (GInt16 i))"
| "toWire (GInt32 i) = WStr (fmtV (GInt32 i))"
| "toWire (GUint8 i) = WStr (fmtV (GUint8 i))"
| "toWire (GUint16 i) = WStr (fmtV (GUint16 i))"
| "toWire (GUint32 i) = WStr (fmtV (GUint32 i))"

fun fromWire :: "wvalue \<Rightarrow> gval" where
  "fromWire WNull = GNil"
| "fromWire (WBool b) = GBool b"
| "fromWire (WInt i) = GInt64 i"
| "fromWire (WFloat f) = GFloat64 f"
| "fromWire (WStr s) = GStr s"
| "fromWire (WBytes s) = GStr s"
| "fromWire (WArray vs) = GList (map fromWire vs)"
| "fromWire (WMap kvs) =
     GMap (foldl (\<lambda>m (k, v). aput k v m) [] (map (\<lambda>(k, v). (fmtV (fromWire k), fromWire v)) kvs))"

section \<open>Configuration\<close>

text \<open>The fields of \<^verbatim>\<open>thunder.Config\<close> the SDK sets; the rest of the record keeps the standard's values.\<close>

record thunder_config =
  Scheme :: string
  DefaultPort :: int
  Handshake :: string
  HelloStyle :: string
  Push :: string
  ErrorCodes :: string
  MaxFrame :: nat

definition MaxFrameBytes :: nat where
  "MaxFrameBytes = 512 * 1024 * 1024"

definition DefaultRpcPort :: int where
  "DefaultRpcPort = 15501"

definition synapConfig :: "thunder_config \<Rightarrow> thunder_config" where
  "synapConfig c = c
     \<lparr>Scheme := ''synap'', DefaultPort := DefaultRpcPort,
      Handshake := ''HandshakeAuthCommand'', HelloStyle := ''HelloStyleNotUsed'',
      Push := ''PushEnabled'', ErrorCodes := ''ErrorResp3Prefixes'', MaxFrame := MaxFrameBytes\<rparr>"

datatype credentials = UserPass string string | APIKey string

record client_config =
  ConnectTimeout :: int
  CallTimeout :: int
  ClientName :: string
  Credentials :: "credentials option"

text \<open>The deadline of a \<^verbatim>\<open>context.Context\<close>, if it has one (nanoseconds).\<close>

record goctx =
  ctxDeadline :: "int option"

type_synonym handle = nat

text \<open>Thunder: an error is its text. \<open>onPush\<close> registers the hook of a client; the hook itself is the
  caller's, and what it does with a frame is modelled with the subscriptions.\<close>

record 'w thunder =
  standard :: thunder_config
  connect :: "string \<Rightarrow> thunder_config \<Rightarrow> client_config \<Rightarrow> 'w \<Rightarrow> (string + handle) \<times> 'w"
  isAlive :: "handle \<Rightarrow> 'w \<Rightarrow> bool"
  closeClient :: "handle \<Rightarrow> 'w \<Rightarrow> 'w"
  callWire :: "handle \<Rightarrow> goctx \<Rightarrow> string \<Rightarrow> wvalue list \<Rightarrow> 'w \<Rightarrow> (string + wvalue) \<times> 'w"
  onPush :: "handle \<Rightarrow> 'w \<Rightarrow> 'w"
  mapGet :: "wvalue \<Rightarrow> string \<Rightarrow> wvalue option"
  unwatchContext :: "'w \<Rightarrow> goctx"

record SynapRpcTransport =
  rpcEndpoint :: string
  clientConfig :: client_config

definition newSynapRpcTransport :: "string \<Rightarrow> int \<Rightarrow> int \<Rightarrow> SynapRpcTransport" where
  "newSynapRpcTransport host port timeout =
     \<lparr>rpcEndpoint = ''synap://'' @ host @ '':'' @ formatInt port,
      clientConfig = \<lparr>ConnectTimeout = timeout, CallTimeout = timeout,
                      ClientName = ''synap-go-sdk'', Credentials = None\<rparr>\<rparr>"

definition withCredentials :: "SynapRpcTransport \<Rightarrow> string \<Rightarrow> string \<Rightarrow> string \<Rightarrow> SynapRpcTransport" where
  "withCredentials t token username password =
     (if username \<noteq> [] \<and> password \<noteq> []
      then t\<lparr>clientConfig := (clientConfig t)\<lparr>Credentials := Some (UserPass username password)\<rparr>\<rparr>
      else if token \<noteq> []
      then t\<lparr>clientConfig := (clientConfig t)\<lparr>Credentials := Some (APIKey token)\<rparr>\<rparr>
      else t)"

section \<open>The transport\<close>

text \<open>The state is the field \<^verbatim>\<open>t.client\<close> and the world.\<close>

type_synonym 'w rpc_state = "handle option \<times> 'w"

definition rpcDial :: "'w thunder \<Rightarrow> SynapRpcTransport \<Rightarrow> 'w \<Rightarrow> (goerr + handle) \<times> 'w" where
  "rpcDial th t w =
     apfst (map_sum (\<lambda>err. newServerError (''SynapRPC connect '' @ rpcEndpoint t @ '': '' @ err)) id)
       (connect th (rpcEndpoint t) (synapConfig (standard th)) (clientConfig t) w)"

definition ensureConnected ::
  "'w thunder \<Rightarrow> SynapRpcTransport \<Rightarrow> 'w rpc_state \<Rightarrow> (goerr + handle) \<times> 'w rpc_state" where
  "ensureConnected th t st =
     (case st of
        (Some c, w) \<Rightarrow>
          if isAlive th c w then (Inr c, st)
          else (case rpcDial th t (closeClient th c w) of
                  (Inl e, w') \<Rightarrow> (Inl e, (None, w'))
                | (Inr c', w') \<Rightarrow> (Inr c', (Some c', w')))
      | (None, w) \<Rightarrow>
          (case rpcDial th t w of
             (Inl e, w') \<Rightarrow> (Inl e, (None, w'))
           | (Inr c', w') \<Rightarrow> (Inr c', (Some c', w'))))"

definition rpcExecute ::
  "'w thunder \<Rightarrow> SynapRpcTransport \<Rightarrow> goctx \<Rightarrow> string \<Rightarrow> gval list \<Rightarrow> 'w rpc_state
     \<Rightarrow> (goerr + gval) \<times> 'w rpc_state" where
  "rpcExecute th t ctx cmd args st =
     (case ensureConnected th t st of
        (Inl e, st') \<Rightarrow> (Inl e, st')
      | (Inr c, (cl, w)) \<Rightarrow>
          (case callWire th c ctx cmd (map toWire args) w of
             (Inl err, w') \<Rightarrow> (Inl (newServerError err), (cl, w'))
           | (Inr result, w') \<Rightarrow> (Inr (fromWire result), (cl, w'))))"

definition rpcClose :: "'w thunder \<Rightarrow> 'w rpc_state \<Rightarrow> 'w rpc_state" where
  "rpcClose th st =
     (case st of (Some c, w) \<Rightarrow> (None, closeClient th c w) | (None, w) \<Rightarrow> (None, w))"

section \<open>Push connections\<close>

text \<open>The subscriber id of an acknowledgement: empty unless it is there and is text.\<close>

definition ackSubscriber :: "'w thunder \<Rightarrow> wvalue \<Rightarrow> string" where
  "ackSubscriber th ack =
     (case mapGet th ack ''subscriber_id'' of Some (WStr s) \<Rightarrow> s | _ \<Rightarrow> [])"

text \<open>Both open a connection of their own, register the hook, then send the command. On success the
  result is the subscriber id and the handle the returned \<^verbatim>\<open>cancel\<close> closes.\<close>

definition openPush ::
  "'w thunder \<Rightarrow> SynapRpcTransport \<Rightarrow> goctx \<Rightarrow> string \<Rightarrow> wvalue list \<Rightarrow> 'w \<Rightarrow> (goerr + string \<times> handle) \<times> 'w" where
  "openPush th t ctx cmd args w =
     (case rpcDial th t w of
        (Inl e, w1) \<Rightarrow> (Inl e, w1)
      | (Inr c, w1) \<Rightarrow>
          (case callWire th c ctx cmd args (onPush th c w1) of
             (Inl err, w2) \<Rightarrow> (Inl (newServerError err), closeClient th c w2)
           | (Inr ack, w2) \<Rightarrow> (Inr (ackSubscriber th ack, c), w2)))"

definition SubscribePush ::
  "'w thunder \<Rightarrow> SynapRpcTransport \<Rightarrow> goctx \<Rightarrow> string list \<Rightarrow> 'w \<Rightarrow> (goerr + string \<times> handle) \<times> 'w" where
  "SubscribePush th t ctx topics w = openPush th t ctx ''SUBSCRIBE'' (map WStr topics) w"

definition subscribeCancel :: "'w thunder \<Rightarrow> handle \<Rightarrow> 'w \<Rightarrow> 'w" where
  "subscribeCancel th c w = closeClient th c w"

definition WatchPush ::
  "'w thunder \<Rightarrow> SynapRpcTransport \<Rightarrow> goctx \<Rightarrow> string \<Rightarrow> string \<Rightarrow> 'w \<Rightarrow> (goerr + string \<times> handle) \<times> 'w" where
  "WatchPush th t ctx pattern mode w =
     openPush th t ctx ''KV.WATCH''
       ([WStr pattern] @ (if mode \<noteq> [] \<and> mode \<noteq> ''value'' then [WStr mode] else [])) w"

definition watchCancel :: "'w thunder \<Rightarrow> string \<Rightarrow> handle \<Rightarrow> 'w \<Rightarrow> 'w" where
  "watchCancel th sid c w =
     closeClient th c
       (if sid \<noteq> [] then snd (callWire th c (unwatchContext th w) ''KV.UNWATCH'' [WStr sid] w) else w)"

section \<open>Values survive the wire\<close>

text \<open>The Go value a value comes back as: integers as \<^verbatim>\<open>int64\<close> and byte slices as strings.\<close>

fun canon :: "gval \<Rightarrow> gval" where
  "canon (GInt i) = GInt64 i"
| "canon (GUint64 i) = GInt64 i"
| "canon (GBytes s) = GStr s"
| "canon (GList vs) = GList (map canon vs)"
| "canon (GMap kvs) = GMap (map (\<lambda>(k, v). (k, canon v)) kvs)"
| "canon v = v"

text \<open>The values the wire carries: of the integers \<^verbatim>\<open>int\<close>, \<^verbatim>\<open>int64\<close> and a \<^verbatim>\<open>uint64\<close> below \<open>2^63\<close>
  (the smaller types go out as decimal text, a larger \<^verbatim>\<open>uint64\<close> turns negative), with one entry per key in
  every map.\<close>

fun wfVal :: "gval \<Rightarrow> bool" where
  "wfVal (GList vs) = list_all wfVal vs"
| "wfVal (GMap kvs) = (distinct (map fst kvs) \<and> list_all (\<lambda>(k, v). wfVal v) kvs)"
| "wfVal (GUint64 i) = (unat i < 2 ^ 63)"
| "wfVal v = (case v of GInt8 _ \<Rightarrow> False | GInt16 _ \<Rightarrow> False | GInt32 _ \<Rightarrow> False
     | GUint8 _ \<Rightarrow> False | GUint16 _ \<Rightarrow> False | GUint32 _ \<Rightarrow> False | _ \<Rightarrow> True)"

lemma fromWire_toWire: "wfVal v \<Longrightarrow> fromWire (toWire v) = canon v"
proof (induction v rule: wfVal.induct)
  case (2 kvs)
  let ?new = "map (\<lambda>kv. (fst kv, canon (snd kv))) kvs"
  from 2 have eq: "map (\<lambda>kv. (fst kv, fromWire (toWire (snd kv)))) kvs = ?new"
    by (fastforce simp: list_all_iff)
  have "distinct (map fst ?new)" using 2(2) by (simp add: comp_def)
  then have "foldl (\<lambda>m (k, v). aput k v m) [] ?new = ?new"
    using foldl_aput_distinct [of "[]" ?new] by simp
  then show ?case by (simp add: comp_def case_prod_beta eq)
qed (auto simp: list_all_iff)

text \<open>Text kinds carry valid UTF-8 only; everything else travels as bytes.\<close>

fun textOK :: "wvalue \<Rightarrow> bool" where
  "textOK (WStr s) = validString s"
| "textOK (WArray vs) = list_all textOK vs"
| "textOK (WMap kvs) = list_all (\<lambda>(k, v). textOK k \<and> textOK v) kvs"
| "textOK _ = True"

fun keysOK :: "gval \<Rightarrow> bool" where
  "keysOK (GList vs) = list_all keysOK vs"
| "keysOK (GMap kvs) = list_all (\<lambda>(k, v). validString k \<and> keysOK v) kvs"
| "keysOK v = True"

lemma validString_formatInt [simp]: "validString (formatInt i)"
proof (rule validString_ascii, rule ballI)
  fix c assume "c \<in> set (formatInt i)"
  then have "c = CHR ''-'' \<or> isDigit c"
    by (auto simp: formatInt_def split: if_splits dest: formatNat_isDigit)
  then show "(of_char c :: nat) < 128" by (auto simp: isDigit_def)
qed

lemma textOK_toWire: "keysOK v \<Longrightarrow> textOK (toWire v)"
  by (induction v rule: keysOK.induct) (auto simp: list_all_iff)

section \<open>Traces\<close>

text \<open>Any Thunder, with a record of what is asked of it.\<close>

datatype rpc_event =
    Connected string
  | Closed handle
  | Called handle string "wvalue list"
  | Hooked handle

definition tracedThunder :: "'w thunder \<Rightarrow> ('w \<times> rpc_event list) thunder" where
  "tracedThunder th =
     \<lparr>standard = standard th,
      connect = (\<lambda>ep cfg cc (w, tr). let (r, w') = connect th ep cfg cc w in (r, (w', tr @ [Connected ep]))),
      isAlive = (\<lambda>c (w, tr). isAlive th c w),
      closeClient = (\<lambda>c (w, tr). (closeClient th c w, tr @ [Closed c])),
      callWire = (\<lambda>c ctx cmd args (w, tr).
        let (r, w') = callWire th c ctx cmd args w in (r, (w', tr @ [Called c cmd args]))),
      onPush = (\<lambda>c (w, tr). (onPush th c w, tr @ [Hooked c])),
      mapGet = mapGet th,
      unwatchContext = (\<lambda>(w, tr). unwatchContext th w)\<rparr>"

lemma tracedThunder_simps [simp]:
  "standard (tracedThunder th) = standard th"
  "connect (tracedThunder th) ep cfg cc (w, tr) = (fst (connect th ep cfg cc w), (snd (connect th ep cfg cc w), tr @ [Connected ep]))"
  "isAlive (tracedThunder th) c (w, tr) = isAlive th c w"
  "closeClient (tracedThunder th) c (w, tr) = (closeClient th c w, tr @ [Closed c])"
  "callWire (tracedThunder th) c ctx cmd args (w, tr) =
     (fst (callWire th c ctx cmd args w), (snd (callWire th c ctx cmd args w), tr @ [Called c cmd args]))"
  "onPush (tracedThunder th) c (w, tr) = (onPush th c w, tr @ [Hooked c])"
  "mapGet (tracedThunder th) = mapGet th"
  by (simp_all add: tracedThunder_def Let_def case_prod_beta)

definition traceOf :: "'r \<times> 'c \<times> 'w \<times> rpc_event list \<Rightarrow> rpc_event list" where
  "traceOf x = snd (snd (snd x))"

lemma traceOf_simps [simp]: "traceOf (r, (c, (w, tr))) = tr"
  by (simp add: traceOf_def)

section \<open>Properties\<close>

text \<open>C22. A value that crosses the wire comes back as the same value: strings of any bytes, booleans, floats, nil,
  and lists and maps of them nested to any depth unchanged, an \<^verbatim>\<open>int\<close>, an \<^verbatim>\<open>int64\<close> and a
  \<^verbatim>\<open>uint64\<close> below \<open>2^63\<close> as the \<^verbatim>\<open>int64\<close> of the same number, a byte slice as the string of its
  bytes. The statement leaves out the smaller integer types, which travel as text, and larger \<^verbatim>\<open>uint64\<close> values,
  which turn negative. If the keys of its maps are valid UTF-8, so is everything that travels as text.\<close>

theorem wire_value_roundtrip:
  assumes "wfVal v"
  shows "fromWire (toWire v) = canon v \<and> (keysOK v \<longrightarrow> textOK (toWire v))"
  using assms by (simp add: fromWire_toWire textOK_toWire)

theorem wire_value_roundtrip_witness:
  "wfVal (GList [GStr [CHR 0xDE, CHR 0xAD], GMap [(''n'', GInt 3)]]) \<and>
   fromWire (toWire (GList [GStr [CHR 0xDE, CHR 0xAD], GMap [(''n'', GInt 3)]])) =
     GList [GStr [CHR 0xDE, CHR 0xAD], GMap [(''n'', GInt64 3)]]"
  using wire_value_roundtrip [of "GList [GStr [CHR 0xDE, CHR 0xAD], GMap [(''n'', GInt 3)]]"] by simp

text \<open>C14. What a command costs on the connection: a live shared client is called and nothing else
  happens; a dead one is closed before its single replacement is dialled; the command is sent exactly once,
  on the client the transport now holds, and not at all when the dial fails.\<close>

theorem rpcExecute_trace:
  "traceOf (rpcExecute (tracedThunder th) t ctx cmd args (cl, (w, [])))
    = (let alive = (case cl of Some c \<Rightarrow> isAlive th c w | None \<Rightarrow> False);
           w1 = (case cl of Some c \<Rightarrow> closeClient th c w | None \<Rightarrow> w);
           dialled = fst (connect th (rpcEndpoint t) (synapConfig (standard th)) (clientConfig t) w1)
       in if alive then [Called (the cl) cmd (map toWire args)]
          else (case cl of Some c \<Rightarrow> [Closed c] | None \<Rightarrow> [])
               @ [Connected (rpcEndpoint t)]
               @ (case dialled of Inr c' \<Rightarrow> [Called c' cmd (map toWire args)] | Inl _ \<Rightarrow> []))"
  by (auto simp: rpcExecute_def ensureConnected_def rpcDial_def Let_def case_prod_beta
      split: option.splits sum.splits)

lemma openPush_trace:
  assumes "connect th (rpcEndpoint t) (synapConfig (standard th)) (clientConfig t) w = (Inr c, w1)"
  shows "openPush (tracedThunder th) t ctx cmd args (w, []) =
    (case callWire th c ctx cmd args (onPush th c w1) of
       (Inr ack, w2) \<Rightarrow> (Inr (ackSubscriber th ack, c), (w2, [Connected (rpcEndpoint t), Hooked c, Called c cmd args]))
     | (Inl err, w2) \<Rightarrow> (Inl (newServerError err),
          (closeClient th c w2, [Connected (rpcEndpoint t), Hooked c, Called c cmd args, Closed c])))"
  using assms by (auto simp: openPush_def rpcDial_def ackSubscriber_def split: prod.splits sum.splits)

text \<open>C28. A push subscription registers its hook on a connection of its own before the command that
  starts the pushes is sent, so no frame can arrive unseen. When the server refuses the command the
  connection is closed again and the error returned; otherwise the caller gets the subscriber id and the
  handle that closes it.\<close>

theorem push_hook_before_command:
  assumes "connect th (rpcEndpoint t) (synapConfig (standard th)) (clientConfig t) w = (Inr c, w1)"
    and "callWire th c ctx ''SUBSCRIBE'' (map WStr topics) (onPush th c w1) = (ack, w2)"
  shows "SubscribePush (tracedThunder th) t ctx topics (w, []) =
    (case ack of
       Inr a \<Rightarrow> (Inr (ackSubscriber th a, c),
         (w2, [Connected (rpcEndpoint t), Hooked c, Called c ''SUBSCRIBE'' (map WStr topics)]))
     | Inl err \<Rightarrow> (Inl (newServerError err),
         (closeClient th c w2,
          [Connected (rpcEndpoint t), Hooked c, Called c ''SUBSCRIBE'' (map WStr topics), Closed c])))"
  by (simp add: SubscribePush_def openPush_trace [OF assms(1)] assms(2))

text \<open>A Thunder whose calls all succeed, to instantiate the parameter.\<close>

definition obligingThunder :: "unit thunder" where
  "obligingThunder =
     \<lparr>standard = \<lparr>Scheme = ''thunder'', DefaultPort = 0, Handshake = [], HelloStyle = [], Push = [],
                  ErrorCodes = [], MaxFrame = 0\<rparr>,
      connect = (\<lambda>ep cfg cc w. (Inr 1, w)),
      isAlive = (\<lambda>c w. True),
      closeClient = (\<lambda>c w. w),
      callWire = (\<lambda>c ctx cmd args w. (Inr (WMap [(WStr ''subscriber_id'', WStr ''s1'')]), w)),
      onPush = (\<lambda>c w. w),
      mapGet = (\<lambda>v k. case v of WMap kvs \<Rightarrow> map_of kvs (WStr k) | _ \<Rightarrow> None),
      unwatchContext = (\<lambda>w. \<lparr>ctxDeadline = None\<rparr>)\<rparr>"

theorem push_hook_before_command_witness:
  "SubscribePush (tracedThunder obligingThunder) (newSynapRpcTransport ''h'' 1 2) \<lparr>ctxDeadline = None\<rparr> [''t''] ((), []) =
     (Inr (''s1'', 1),
      ((), [Connected (rpcEndpoint (newSynapRpcTransport ''h'' 1 2)), Hooked 1, Called 1 ''SUBSCRIBE'' [WStr ''t'']]))"
  using push_hook_before_command [of obligingThunder "newSynapRpcTransport ''h'' 1 2" "()" 1 "()"
      "\<lparr>ctxDeadline = None\<rparr>" "[''t'']" "Inr (WMap [(WStr ''subscriber_id'', WStr ''s1'')])" "()"]
  by (simp add: obligingThunder_def ackSubscriber_def)

end
