(* ===== verification/Resp3_Transport.thy ===== *)
theory Resp3_Transport
  imports Resp3_Codec Rpc_Transport
begin

text \<open>
  The connection of \<^verbatim>\<open>transport_resp3.go\<close>: \<^verbatim>\<open>doConnect\<close>, the two attempts of \<^verbatim>\<open>Execute\<close> and \<^verbatim>\<open>Close\<close>.
  The operating system's network is a record of operations over a world \<open>'w\<close>, a parameter: dialling,
  writing, the bytes the peer delivers before the deadline with the error a read then reports, closing, the
  clock. The state of the transport is the pair of fields \<^verbatim>\<open>t.conn\<close> and \<^verbatim>\<open>t.reader\<close> (the handle and the
  bytes received but not yet read), absent when \<^verbatim>\<open>t.conn\<close> is nil. The mutex makes \<^verbatim>\<open>Execute\<close> and
  \<^verbatim>\<open>Close\<close> atomic.
\<close>

record 'w net =
  dialTCP :: "string \<Rightarrow> int \<Rightarrow> 'w \<Rightarrow> (string + handle) \<times> 'w"
  writeConn :: "handle \<Rightarrow> int \<Rightarrow> string \<Rightarrow> 'w \<Rightarrow> string option \<times> 'w"
  receive :: "handle \<Rightarrow> int \<Rightarrow> 'w \<Rightarrow> (string \<times> string) \<times> 'w"
  closeConn :: "handle \<Rightarrow> 'w \<Rightarrow> 'w"
  timeNow :: "'w \<Rightarrow> int"

record Resp3Transport =
  r3Host :: string
  r3Port :: int
  r3Timeout :: int

definition newResp3Transport :: "string \<Rightarrow> int \<Rightarrow> int \<Rightarrow> Resp3Transport" where
  "newResp3Transport host port timeout = \<lparr>r3Host = host, r3Port = port, r3Timeout = timeout\<rparr>"

type_synonym 'w r3_state = "(handle \<times> string) option \<times> 'w"

text \<open>\<^verbatim>\<open>net.JoinHostPort\<close>: a host with a colon or a percent sign is bracketed.\<close>

definition joinHostPort :: "string \<Rightarrow> string \<Rightarrow> string" where
  "joinHostPort host port =
     (if CHR '':'' \<in> set host \<or> CHR ''%'' \<in> set host then ''['' @ host @ '']:'' @ port else host @ '':'' @ port)"

definition r3Addr :: "Resp3Transport \<Rightarrow> string" where
  "r3Addr t = joinHostPort (r3Host t) (formatInt (r3Port t))"

definition doConnect :: "'w net \<Rightarrow> Resp3Transport \<Rightarrow> 'w r3_state \<Rightarrow> goerr option \<times> 'w r3_state" where
  "doConnect n t st =
     (case dialTCP n (r3Addr t) (r3Timeout t) (snd st) of
        (Inl err, w) \<Rightarrow> (Some (Errorf (''RESP3 connect '' @ r3Addr t) (Some (Errorf err None))), (fst st, w))
      | (Inr h, w) \<Rightarrow> (None, (Some (h, []), w)))"

text \<open>\<^verbatim>\<open>t.conn.Close(); t.conn = nil; t.reader = nil\<close>, when there is a connection.\<close>

definition dropConn :: "'w net \<Rightarrow> 'w r3_state \<Rightarrow> 'w r3_state" where
  "dropConn n st = (case st of (Some (h, _), w) \<Rightarrow> (None, closeConn n h w) | (None, w) \<Rightarrow> (None, w))"

text \<open>The deadline of an attempt: the timeout from now, or the context's if that is earlier.\<close>

definition attemptDeadline :: "'w net \<Rightarrow> Resp3Transport \<Rightarrow> goctx \<Rightarrow> 'w \<Rightarrow> int" where
  "attemptDeadline n t ctx w =
     (let deadline = timeNow n w + r3Timeout t
      in case ctxDeadline ctx of
           Some dl \<Rightarrow> if dl < deadline then dl else deadline
         | None \<Rightarrow> deadline)"

text \<open>The outcome of one pass of the loop: \<^verbatim>\<open>continue\<close>, or a return.\<close>

datatype attempt_result = Continue | Return "goerr + gval"

text \<open>An I/O failure: the connection is dropped, and the first attempt goes on to the second.\<close>

definition failAttempt :: "'w net \<Rightarrow> bool \<Rightarrow> goerr \<Rightarrow> 'w r3_state \<Rightarrow> attempt_result \<times> 'w r3_state" where
  "failAttempt n first err st = (if first then Continue else Return (Inl err), dropConn n st)"

definition exchange ::
  "'w net \<Rightarrow> Resp3Transport \<Rightarrow> goctx \<Rightarrow> bool \<Rightarrow> string \<Rightarrow> gval list \<Rightarrow> 'w r3_state
     \<Rightarrow> attempt_result \<times> 'w r3_state" where
  "exchange n t ctx first cmd args st =
     (case st of
        (None, w) \<Rightarrow> (Return (Inl (Panic ''nil pointer dereference'')), st)
      | (Some (h, unread), w) \<Rightarrow>
          (let deadline = attemptDeadline n t ctx w in
           case writeConn n h deadline (buildMultibulk cmd args) w of
             (Some err, w1) \<Rightarrow>
               failAttempt n first (Errorf ''RESP3 write'' (Some (Errorf err None))) (Some (h, unread), w1)
           | (None, w1) \<Rightarrow>
               (case receive n h deadline w1 of
                  ((bytes, ioErr), w2) \<Rightarrow>
                    (case readResponse (Errorf ioErr None) (unread @ bytes) of
                       (Inr result, rest) \<Rightarrow> (Return (Inr result), (Some (h, rest), w2))
                     | (Inl err, rest) \<Rightarrow>
                         if isSynapError err \<or> isPanic err then (Return (Inl err), (Some (h, rest), w2))
                         else failAttempt n first (Errorf ''RESP3 read'' (Some err)) (Some (h, rest), w2)))))"

definition attempt ::
  "'w net \<Rightarrow> Resp3Transport \<Rightarrow> goctx \<Rightarrow> nat \<Rightarrow> string \<Rightarrow> gval list \<Rightarrow> 'w r3_state
     \<Rightarrow> attempt_result \<times> 'w r3_state" where
  "attempt n t ctx k cmd args st =
     (if fst st = None \<or> k = 1 then
        (case doConnect n t (dropConn n st) of
           (Some err, st') \<Rightarrow> (if k = 0 then Continue else Return (Inl err), st')
         | (None, st') \<Rightarrow> exchange n t ctx (k = 0) cmd args st')
      else exchange n t ctx (k = 0) cmd args st)"

fun attempts ::
  "'w net \<Rightarrow> Resp3Transport \<Rightarrow> goctx \<Rightarrow> nat list \<Rightarrow> string \<Rightarrow> gval list \<Rightarrow> 'w r3_state
     \<Rightarrow> (goerr + gval) \<times> 'w r3_state" where
  "attempts n t ctx [] cmd args st = (Inl (Errorf ''RESP3: exhausted reconnect attempts'' None), st)"
| "attempts n t ctx (k # ks) cmd args st =
     (case attempt n t ctx k cmd args st of
        (Continue, st') \<Rightarrow> attempts n t ctx ks cmd args st'
      | (Return r, st') \<Rightarrow> (r, st'))"

definition resp3Execute ::
  "'w net \<Rightarrow> Resp3Transport \<Rightarrow> goctx \<Rightarrow> string \<Rightarrow> gval list \<Rightarrow> 'w r3_state
     \<Rightarrow> (goerr + gval) \<times> 'w r3_state" where
  "resp3Execute n t ctx cmd args st = attempts n t ctx [0, 1] cmd args st"

definition resp3Close :: "'w net \<Rightarrow> 'w r3_state \<Rightarrow> 'w r3_state" where
  "resp3Close n st = dropConn n st"

section \<open>Traces\<close>

datatype net_event =
    Dial string "handle option"
  | Write handle string
  | CloseEv handle

definition tracedNet :: "'w net \<Rightarrow> ('w \<times> net_event list) net" where
  "tracedNet n =
     \<lparr>dialTCP = (\<lambda>addr timeout (w, tr).
        let (r, w') = dialTCP n addr timeout w
        in (r, (w', tr @ [Dial addr (case r of Inr h \<Rightarrow> Some h | Inl _ \<Rightarrow> None)]))),
      writeConn = (\<lambda>h dl bytes (w, tr). let (r, w') = writeConn n h dl bytes w in (r, (w', tr @ [Write h bytes]))),
      receive = (\<lambda>h dl (w, tr). let (r, w') = receive n h dl w in (r, (w', tr))),
      closeConn = (\<lambda>h (w, tr). (closeConn n h w, tr @ [CloseEv h])),
      timeNow = (\<lambda>(w, tr). timeNow n w)\<rparr>"

lemma tracedNet_simps [simp]:
  "dialTCP (tracedNet n) addr timeout (w, tr) =
     (fst (dialTCP n addr timeout w), (snd (dialTCP n addr timeout w),
        tr @ [Dial addr (case fst (dialTCP n addr timeout w) of Inr h \<Rightarrow> Some h | Inl _ \<Rightarrow> None)]))"
  "writeConn (tracedNet n) h dl bytes (w, tr) =
     (fst (writeConn n h dl bytes w), (snd (writeConn n h dl bytes w), tr @ [Write h bytes]))"
  "receive (tracedNet n) h dl (w, tr) = (fst (receive n h dl w), (snd (receive n h dl w), tr))"
  "closeConn (tracedNet n) h (w, tr) = (closeConn n h w, tr @ [CloseEv h])"
  "timeNow (tracedNet n) (w, tr) = timeNow n w"
  by (simp_all add: tracedNet_def Let_def case_prod_beta)

definition isDial :: "net_event \<Rightarrow> bool" where
  "isDial e = (case e of Dial _ _ \<Rightarrow> True | _ \<Rightarrow> False)"

definition isWrite :: "net_event \<Rightarrow> bool" where
  "isWrite e = (case e of Write _ _ \<Rightarrow> True | _ \<Rightarrow> False)"

text \<open>The handles a trace opens and closes, and the one the transport holds.\<close>

definition opened :: "net_event list \<Rightarrow> handle set" where
  "opened ev = {h. \<exists>addr. Dial addr (Some h) \<in> set ev}"

definition closed :: "net_event list \<Rightarrow> handle set" where
  "closed ev = {h. CloseEv h \<in> set ev}"

definition held :: "(handle \<times> string) option \<Rightarrow> handle set" where
  "held c = fst ` set_option c"

text \<open>What one pass of the loop may do: at most one dial and one write, the dial to the configured
  address, the write of the command's frame, and no connection forgotten.\<close>

definition orderly :: "nat \<Rightarrow> string \<Rightarrow> string \<Rightarrow> (handle \<times> string) option \<Rightarrow> net_event list
    \<Rightarrow> (handle \<times> string) option \<Rightarrow> bool" where
  "orderly k addr frame c ev c' \<longleftrightarrow>
     length (filter isDial ev) \<le> k \<and> length (filter isWrite ev) \<le> k
     \<and> (\<forall>a r. Dial a r \<in> set ev \<longrightarrow> a = addr) \<and> (\<forall>h b. Write h b \<in> set ev \<longrightarrow> b = frame)
     \<and> held c \<union> opened ev \<subseteq> closed ev \<union> held c'"

lemma orderly_append:
  "orderly k addr frame c ev c' \<Longrightarrow> orderly m addr frame c' ev' c'' \<Longrightarrow>
   orderly (k + m) addr frame c (ev @ ev') c''"
  unfolding orderly_def opened_def closed_def by auto

lemmas orderly_simps = orderly_def opened_def closed_def held_def isDial_def isWrite_def

text \<open>A reply, a server error and a panic leave a connection open; every other error leaves none.\<close>

definition settled :: "goerr + gval \<Rightarrow> (handle \<times> string) option \<Rightarrow> bool" where
  "settled r c = (case r of Inr _ \<Rightarrow> c \<noteq> None | Inl e \<Rightarrow> (c \<noteq> None) = (isSynapError e \<or> isPanic e))"

lemma exchange_trace:
  assumes "exchange (tracedNet n) t ctx first cmd args (Some (h, u), (w, tr)) = (res, (c', (w', tr')))"
  obtains ev where "tr' = tr @ ev" and "filter isDial ev = []" and "opened ev = {}"
    and "orderly 1 addr (buildMultibulk cmd args) (Some (h, u)) ev c'"
    and "case res of Continue \<Rightarrow> first \<and> c' = None | Return r \<Rightarrow> settled r c'"
proof -
  let ?dl = "attemptDeadline (tracedNet n) t ctx (w, tr)"
  let ?f = "buildMultibulk cmd args"
  obtain wr w1 where wr: "writeConn n h ?dl ?f w = (wr, w1)" by fastforce
  show ?thesis
  proof (cases wr)
    case (Some err)
    then show ?thesis using assms wr that [of "[Write h ?f, CloseEv h]"]
      by (auto simp: exchange_def failAttempt_def dropConn_def orderly_simps settled_def isPanic_def
          split: if_splits)
  next
    case None
    obtain bytes ioErr w2 where rc: "receive n h ?dl w1 = ((bytes, ioErr), w2)" by (metis prod.exhaust)
    obtain r rest where rd: "readResponse (Errorf ioErr None) (u @ bytes) = (r, rest)" by fastforce
    show ?thesis
    proof (cases "\<exists>e. r = Inl e \<and> \<not> isSynapError e \<and> \<not> isPanic e")
      case True
      then show ?thesis using assms None wr rc rd that [of "[Write h ?f, CloseEv h]"]
        by (auto simp: exchange_def failAttempt_def dropConn_def orderly_simps settled_def isPanic_def
            split: if_splits)
    next
      case False
      then show ?thesis using assms None wr rc rd that [of "[Write h ?f]"]
        by (auto simp: exchange_def orderly_simps settled_def split: sum.splits if_splits)
    qed
  qed
qed

lemma dropConn_trace:
  obtains ev where "dropConn (tracedNet n) (c, (w, tr)) = (None, (snd (dropConn n (c, w)), tr @ ev))"
    and "orderly 0 addr frame c ev None"
proof (cases c)
  case None
  then show ?thesis using that [of "[]"] by (simp add: dropConn_def orderly_simps)
next
  case (Some hu)
  then show ?thesis using that [of "[CloseEv (fst hu)]"]
    by (cases hu) (simp add: dropConn_def orderly_simps)
qed

lemma doConnect_trace:
  assumes "doConnect (tracedNet n) t (None, (w, tr)) = (res, (c', (w', tr')))"
  shows "\<exists>r. tr' = tr @ [Dial (r3Addr t) r] \<and> (case res of None \<Rightarrow> \<exists>h. c' = Some (h, []) \<and> r = Some h | Some e \<Rightarrow> c' = None \<and> r = None \<and> \<not> isSynapError e \<and> \<not> isPanic e)"
  using assms by (auto simp: doConnect_def isPanic_def split: sum.splits prod.splits)

lemma attempt_trace:
  assumes "attempt (tracedNet n) t ctx k cmd args (c, (w, tr)) = (res, (c', (w', tr')))"
  obtains ev where "tr' = tr @ ev"
    and "orderly 1 (r3Addr t) (buildMultibulk cmd args) c ev c'"
    and "case res of Continue \<Rightarrow> k = 0 \<and> c' = None | Return r \<Rightarrow> settled r c'"
proof (cases "c = None \<or> k = 1")
  case False
  then obtain h u where c: "c = Some (h, u)" by auto
  with False assms have "exchange (tracedNet n) t ctx (k = 0) cmd args (Some (h, u), (w, tr)) = (res, (c', (w', tr')))"
    by (simp add: attempt_def)
  from exchange_trace [OF this] that c show ?thesis by metis
next
  case True
  obtain ev where d: "dropConn (tracedNet n) (c, (w, tr)) = (None, (snd (dropConn n (c, w)), tr @ ev))"
    and o0: "orderly 0 (r3Addr t) (buildMultibulk cmd args) c ev None" by (rule dropConn_trace)
  obtain r c1 w1 tr1 where dc: "doConnect (tracedNet n) t (None, (snd (dropConn n (c, w)), tr @ ev)) = (r, (c1, (w1, tr1)))"
    by (metis prod.exhaust)
  from doConnect_trace [OF dc] obtain ho where tr1: "tr1 = (tr @ ev) @ [Dial (r3Addr t) ho]"
    and cases: "case r of None \<Rightarrow> \<exists>h. c1 = Some (h, []) \<and> ho = Some h
                | Some e \<Rightarrow> c1 = None \<and> ho = None \<and> \<not> isSynapError e \<and> \<not> isPanic e" by blast
  show ?thesis
  proof (cases r)
    case (Some e)
    then have "orderly (0 + 1) (r3Addr t) (buildMultibulk cmd args) c (ev @ [Dial (r3Addr t) ho]) c1"
      using cases by (intro orderly_append [OF o0]) (simp add: orderly_simps)
    with Some cases assms True d dc tr1 that [of "ev @ [Dial (r3Addr t) ho]"] show ?thesis
      by (auto simp: attempt_def settled_def split: if_splits)
  next
    case None
    with cases obtain h where h: "c1 = Some (h, [])" "ho = Some h" by auto
    from assms True d dc None h
    have "exchange (tracedNet n) t ctx (k = 0) cmd args (Some (h, []), (w1, tr1)) = (res, (c', (w', tr')))"
      by (simp add: attempt_def)
    from exchange_trace [OF this, of "r3Addr t"] obtain ev2 where ev2: "tr' = tr1 @ ev2" "filter isDial ev2 = []" "opened ev2 = {}"
      "orderly 1 (r3Addr t) (buildMultibulk cmd args) (Some (h, [])) ev2 c'"
      "case res of Continue \<Rightarrow> k = 0 \<and> c' = None | Return r \<Rightarrow> settled r c'" by metis
    have "orderly 1 (r3Addr t) (buildMultibulk cmd args) None ([Dial (r3Addr t) ho] @ ev2) c'"
      using ev2(2-4) h by (auto simp: orderly_simps)
    from orderly_append [OF o0 this] ev2(1,5) tr1 that [of "ev @ [Dial (r3Addr t) ho] @ ev2"] show ?thesis by simp
  qed
qed

section \<open>Execute\<close>

text \<open>An end of file before the end of the first line.\<close>

lemma readResponse_cut:
  "indexByte (CHR 0x0A) s = None \<Longrightarrow> readResponse eof s = (Inl (Errorf ''RESP3: read line'' (Some eof)), [])"
  by (rule readResponse_eq) (simp add: readOne_def readLine_def)

text \<open>An attempt on an open connection, by what the network does.\<close>

lemma attempt_reply:
  assumes "writeConn n h (attemptDeadline n t ctx w) (buildMultibulk cmd args) w = (None, w1)"
    and "receive n h (attemptDeadline n t ctx w) w1 = ((bytes, ioErr), w2)"
    and "readResponse (Errorf ioErr None) (u @ bytes) = (r, rest)"
    and "case r of Inr _ \<Rightarrow> True | Inl e \<Rightarrow> isSynapError e"
  shows "resp3Execute n t ctx cmd args (Some (h, u), w) = (r, (Some (h, rest), w2))"
  using assms by (auto simp: resp3Execute_def attempt_def exchange_def split: sum.splits)

lemma execute_after_drop:
  assumes "fst (attempt n t ctx 0 cmd args st) = Continue" and "snd (attempt n t ctx 0 cmd args st) = (None, w)"
    and "dialTCP n (r3Addr t) (r3Timeout t) w = (Inr h', w1)"
    and "writeConn n h' (attemptDeadline n t ctx w1) (buildMultibulk cmd args) w1 = (None, w2)"
    and "receive n h' (attemptDeadline n t ctx w1) w2 = ((bytes, ioErr), w3)"
    and "readResponse (Errorf ioErr None) bytes = (Inr v, rest)"
  shows "resp3Execute n t ctx cmd args st = (Inr v, (Some (h', rest), w3))"
proof -
  have "attempt n t ctx 0 cmd args st = (Continue, (None, w))" using assms(1,2) by (metis prod.collapse)
  with assms(3-6) show ?thesis
    by (simp add: resp3Execute_def attempt_def dropConn_def doConnect_def exchange_def)
qed

section \<open>Properties\<close>

text \<open>C10. Whatever the network does, one command dials at most twice and writes at most twice, dials only
  the configured address and writes only the command's own frame, and forgets no connection: each one is
  closed or is the one the transport still holds. Afterwards a connection is held exactly when the command
  was answered, the server reported an error, or the client panicked.\<close>

theorem resp3Execute_orderly:
  "case resp3Execute (tracedNet n) t ctx cmd args (c, (w, [])) of
     (r, (c', (w', tr))) \<Rightarrow> orderly 2 (r3Addr t) (buildMultibulk cmd args) c tr c' \<and> settled r c'"
proof -
  obtain r0 c0 w0 tr0 where a0: "attempt (tracedNet n) t ctx 0 cmd args (c, (w, [])) = (r0, (c0, (w0, tr0)))"
    by (metis prod.exhaust)
  from attempt_trace [OF a0] obtain ev0 where "tr0 = [] @ ev0"
    and o0': "orderly 1 (r3Addr t) (buildMultibulk cmd args) c ev0 c0"
    and s0: "case r0 of Continue \<Rightarrow> (0::nat) = 0 \<and> c0 = None | Return r \<Rightarrow> settled r c0" by metis
  then have o0: "orderly 1 (r3Addr t) (buildMultibulk cmd args) c tr0 c0" by simp
  show ?thesis
  proof (cases r0)
    case (Return r)
    with a0 o0 s0 show ?thesis by (simp add: resp3Execute_def orderly_def)
  next
    case Continue
    obtain r1 c1 w1 tr1 where a1: "attempt (tracedNet n) t ctx 1 cmd args (c0, (w0, tr0)) = (r1, (c1, (w1, tr1)))"
      by (metis prod.exhaust)
    from attempt_trace [OF a1] obtain ev where ev: "tr1 = tr0 @ ev"
      and o1: "orderly 1 (r3Addr t) (buildMultibulk cmd args) c0 ev c1"
      and s1: "case r1 of Continue \<Rightarrow> (1::nat) = 0 \<and> c1 = None | Return r \<Rightarrow> settled r c1" by metis
    then obtain r where "r1 = Return r" "settled r c1" by (cases r1) auto
    with ev a0 a1 Continue orderly_append [OF o0 o1] show ?thesis
      by (simp add: resp3Execute_def numeral_2_eq_2)
  qed
qed

text \<open>C26. On an open connection that delivers the reply, \<^verbatim>\<open>Execute\<close> returns the reply's value, or the
  server's error as a \<^verbatim>\<open>*SynapError\<close>, keeps the connection, and leaves the reader empty for the next
  command.\<close>

theorem resp3Execute_answers:
  assumes "writeConn n h (attemptDeadline n t ctx w) (buildMultibulk cmd args) w = (None, w1)"
    and "receive n h (attemptDeadline n t ctx w) w1 = ((printReply rep, ioErr), w2)"
    and "goodReply rep \<or> (\<exists>m. rep = Error m \<and> lineText m)"
  shows "resp3Execute n t ctx cmd args (Some (h, []), w) =
    (case rep of Error m \<Rightarrow> Inl (newServerError m) | _ \<Rightarrow> Inr (replyValue rep), (Some (h, []), w2))"
proof -
  have "readResponse (Errorf ioErr None) ([] @ printReply rep) =
          (case rep of Error m \<Rightarrow> Inl (newServerError m) | _ \<Rightarrow> Inr (replyValue rep), [])"
  proof (cases "goodReply rep")
    case True
    then show ?thesis
      using readResponse_printReply [OF True, of "Errorf ioErr None" "[]"] by (cases rep) simp_all
  next
    case False
    with assms(3) obtain m where "rep = Error m" "lineText m" by blast
    then show ?thesis using readResponse_error(1) [of m "Errorf ioErr None" "[]"] by simp
  qed
  from attempt_reply [OF assms(1,2) this] show ?thesis by (cases rep) simp_all
qed

text \<open>A network with one peer: connection 1 always works and answers \<^verbatim>\<open>:7\<close>, connection 0 is dead.\<close>

definition samplePeer :: "unit net" where
  "samplePeer =
     \<lparr>dialTCP = (\<lambda>addr timeout w. (Inr 1, w)),
      writeConn = (\<lambda>h dl bytes w. (if h = 0 then Some ''broken pipe'' else None, w)),
      receive = (\<lambda>h dl w. ((printReply (Integer 7), ''EOF''), w)),
      closeConn = (\<lambda>h w. w),
      timeNow = (\<lambda>w. 0)\<rparr>"

theorem resp3Execute_answers_witness:
  "resp3Execute samplePeer (newResp3Transport ''h'' 6379 5) \<lparr>ctxDeadline = None\<rparr> ''LLEN'' [GStr ''k''] (Some (1, []), ()) =
     (Inr (GInt64 7), (Some (1, []), ()))"
  using resp3Execute_answers [of samplePeer 1 "newResp3Transport ''h'' 6379 5" "\<lparr>ctxDeadline = None\<rparr>" "()"
      "''LLEN''" "[GStr ''k'']" "()" "Integer 7" "''EOF''" "()"]
  by (simp add: samplePeer_def)

text \<open>C25. A connection the peer has closed is replaced within the same call: when on the old connection the
  write fails, or the write succeeds and the read ends in an I/O error (an end of file before or inside the reply), the
  old connection is closed and the second attempt dials, sends the same command and returns its reply.\<close>

theorem resp3Execute_reconnects:
  assumes "(\<exists>err. writeConn n h (attemptDeadline n t ctx w) (buildMultibulk cmd args) w = (Some err, w1))
      \<or> (\<exists>w0 cut eof err rest. writeConn n h (attemptDeadline n t ctx w) (buildMultibulk cmd args) w = (None, w0)
           \<and> receive n h (attemptDeadline n t ctx w) w0 = ((cut, eof), w1)
           \<and> readResponse (Errorf eof None) (u @ cut) = (Inl err, rest) \<and> \<not> isSynapError err \<and> \<not> isPanic err)"
    and "dialTCP n (r3Addr t) (r3Timeout t) (closeConn n h w1) = (Inr h', w2)"
    and "writeConn n h' (attemptDeadline n t ctx w2) (buildMultibulk cmd args) w2 = (None, w3)"
    and "receive n h' (attemptDeadline n t ctx w2) w3 = ((printReply rep, ioErr), w4)"
    and "goodReply rep"
  shows "resp3Execute n t ctx cmd args (Some (h, u), w) = (Inr (replyValue rep), (Some (h', []), w4))"
proof -
  have "attempt n t ctx 0 cmd args (Some (h, u), w) = (Continue, (None, closeConn n h w1))"
    using assms(1) by (auto simp: attempt_def exchange_def failAttempt_def dropConn_def)
  then show ?thesis
    using assms(2-5) readResponse_printReply [OF assms(5), of _ "[]"]
    by (intro execute_after_drop) auto
qed

text \<open>A peer that has closed connection 0: the write still succeeds, the read finds the end of file inside a line.\<close>

definition closedPeer :: "unit net" where
  "closedPeer = samplePeer\<lparr>writeConn := (\<lambda>h dl bytes w. (None, w)),
     receive := (\<lambda>h dl w. ((if h = 0 then '':4'' else printReply (Integer 7), ''EOF''), w))\<rparr>"

theorem resp3Execute_reconnects_witness:
  "resp3Execute closedPeer (newResp3Transport ''h'' 6379 5) \<lparr>ctxDeadline = None\<rparr> ''LLEN'' [GStr ''k''] (Some (0, []), ()) =
     (Inr (GInt64 7), (Some (1, []), ()))"
proof -
  have "indexByte (CHR 0x0A) '':4'' = None" by simp
  from readResponse_cut [OF this, of "Errorf ''EOF'' None"] show ?thesis
    using resp3Execute_reconnects [of closedPeer 0 "newResp3Transport ''h'' 6379 5" "\<lparr>ctxDeadline = None\<rparr>" "()"
      "''LLEN''" "[GStr ''k'']" "()" "[]" 1 "()" "()" "Integer 7" "''EOF''" "()"]
    by (simp add: closedPeer_def samplePeer_def isPanic_def)
qed

text \<open>C35. An error inside an array reply is taken for a server error on a healthy connection, but the
  elements behind it stay unread: the next command on the connection is answered with the first of them,
  whatever the server replies to it.\<close>

theorem nested_error_misleads_next_command:
  assumes "writeConn n h (attemptDeadline n t ctx w) (buildMultibulk cmd args) w = (None, w1)"
    and "receive n h (attemptDeadline n t ctx w) w1 = ((printReply (Array (rs @ Error m # r # rs')), ioErr), w2)"
    and "list_all goodReply rs" and "lineText m" and "countOK (rs @ Error m # r # rs')" and "goodReply r"
    and "writeConn n h (attemptDeadline n t ctx w2) (buildMultibulk cmd' args') w2 = (None, w3)"
    and "receive n h (attemptDeadline n t ctx w2) w3 = ((reply', ioErr'), w4)"
  shows "\<exists>st1 rest. resp3Execute n t ctx cmd args (Some (h, []), w) = (Inl (newServerError m), st1)
           \<and> resp3Execute n t ctx cmd' args' st1 = (Inr (replyValue r), (Some (h, rest), w4))"
proof -
  let ?u = "concat (map printReply (r # rs'))"
  have "readResponse (Errorf ioErr None) ([] @ printReply (Array (rs @ Error m # r # rs'))) = (Inl (newServerError m), ?u)"
    using readResponse_nested_error [OF assms(3-5), of "Errorf ioErr None" "[]"] by simp
  from attempt_reply [OF assms(1,2) this]
  have "resp3Execute n t ctx cmd args (Some (h, []), w) = (Inl (newServerError m), (Some (h, ?u), w2))" by simp
  moreover have "readResponse (Errorf ioErr' None) (?u @ reply') = (Inr (replyValue r), concat (map printReply rs') @ reply')"
    using readResponse_printReply [OF assms(6)] by simp
  from attempt_reply [OF assms(7,8) this]
  have "resp3Execute n t ctx cmd' args' (Some (h, ?u), w2) =
          (Inr (replyValue r), (Some (h, concat (map printReply rs') @ reply'), w4))" by simp
  ultimately show ?thesis by blast
qed

definition mixedPeer :: "unit net" where
  "mixedPeer = samplePeer\<lparr>receive := (\<lambda>h dl w. ((printReply (Array [Error ''ERR'', Simple ''OK'']), ''EOF''), w))\<rparr>"

theorem nested_error_misleads_next_command_witness:
  "\<exists>st1 rest. resp3Execute mixedPeer (newResp3Transport ''h'' 6379 5) \<lparr>ctxDeadline = None\<rparr> ''EXEC'' [] (Some (1, []), ()) =
       (Inl (newServerError ''ERR''), st1)
     \<and> resp3Execute mixedPeer (newResp3Transport ''h'' 6379 5) \<lparr>ctxDeadline = None\<rparr> ''GET'' [GStr ''k''] st1 =
       (Inr (replyValue (Simple ''OK'')), (Some (1, rest), ()))"
  by (rule nested_error_misleads_next_command [where rs = "[]" and rs' = "[]" and ioErr = "''EOF''"])
     (simp_all add: mixedPeer_def samplePeer_def lineText_def countOK_def makesliceOK_def maxAlloc_def)

end
