(* ===== verification/Config.thy ===== *)
theory Config
  imports Command_Map Response Resp3_Transport
begin

text \<open>
  The configuration half of \<^verbatim>\<open>client.go\<close>: \<^verbatim>\<open>NewConfig\<close> and its URL parsing, the builder methods, the
  authentication header of an HTTP request and the random identifiers. Durations are nanoseconds.
\<close>

record Config =
  baseURL :: string
  host :: string
  port :: int
  transport :: TransportMode
  authToken :: string
  username :: string
  password :: string
  timeout :: int

section \<open>URLs\<close>

text \<open>\<^verbatim>\<open>fmt.Sscanf(s, "%d", &port)\<close> into a port that is 0: blanks, a sign, the longest run of digits; the
  port stays 0 when there is none or it does not fit. (Blanks outside ASCII are not skipped here.)\<close>

definition isBlank :: "char \<Rightarrow> bool" where
  "isBlank c = (c \<in> {CHR '' '', CHR 0x09, CHR 0x0B, CHR 0x0C, CHR 0x0D})"

definition sscanfInt :: "string \<Rightarrow> int" where
  "sscanfInt s =
     (let t = dropWhile isBlank s;
          sgn = (if t \<noteq> [] \<and> (hd t = CHR ''+'' \<or> hd t = CHR ''-'') then [hd t] else []);
          digits = takeWhile isDigit (drop (length sgn) t)
      in if digits = [] then 0
         else case atoi (sgn @ digits) of Inr n \<Rightarrow> n | Inl _ \<Rightarrow> 0)"

definition parseHostPort :: "string \<Rightarrow> int \<Rightarrow> string \<times> int" where
  "parseHostPort authority defaultPort =
     (let authority = (case indexByte CHR ''/'' authority of Some i \<Rightarrow> take i authority | None \<Rightarrow> authority)
      in case lastIndexByte CHR '':'' authority of
           Some i \<Rightarrow>
             (let p = sscanfInt (drop (Suc i) authority)
              in (take i authority, if p = 0 then defaultPort else p))
         | None \<Rightarrow> (authority, defaultPort))"

definition NewConfig :: "string \<Rightarrow> Config" where
  "NewConfig url =
     (let cfg = \<lparr>baseURL = url, host = [], port = 0, transport = TransportHTTP, authToken = [],
                 username = [], password = [], timeout = 30000000000\<rparr>
      in if hasPrefix url ''synap://'' then
           (let (h, p) = parseHostPort (trimPrefix url ''synap://'') 15501
            in cfg\<lparr>transport := TransportSynapRPC, host := h, port := p\<rparr>)
         else if hasPrefix url ''resp3://'' then
           (let (h, p) = parseHostPort (trimPrefix url ''resp3://'') 6379
            in cfg\<lparr>transport := TransportRESP3, host := h, port := p\<rparr>)
         else cfg)"

section \<open>Builders\<close>

definition WithAuth :: "string \<Rightarrow> Config \<Rightarrow> Config" where
  "WithAuth token c = c\<lparr>authToken := token, username := [], password := []\<rparr>"

definition WithBasicAuth :: "string \<Rightarrow> string \<Rightarrow> Config \<Rightarrow> Config" where
  "WithBasicAuth user pass c = c\<lparr>username := user, password := pass, authToken := []\<rparr>"

definition WithTimeout :: "int \<Rightarrow> Config \<Rightarrow> Config" where
  "WithTimeout d c = c\<lparr>timeout := d\<rparr>"

text \<open>The value \<^verbatim>\<open>applyAuth\<close> sets for the \<^verbatim>\<open>Authorization\<close> header, if any.\<close>

definition applyAuth :: "Config \<Rightarrow> string option" where
  "applyAuth cfg =
     (if authToken cfg \<noteq> [] then Some (''Bearer '' @ authToken cfg)
      else if username cfg \<noteq> [] then Some (''Basic '' @ base64Encode (username cfg @ '':'' @ password cfg))
      else None)"

section \<open>Identifiers\<close>

text \<open>\<^verbatim>\<open>newRequestID\<close> on the sixteen bytes of \<^verbatim>\<open>rand.Read\<close>, or its error.\<close>

definition stampVersion :: "8 word list \<Rightarrow> 8 word list" where
  "stampVersion b =
     b[6 := or (and (b ! 6) 0x0f) 0x40, 8 := or (and (b ! 8) 0x3f) 0x80]"

definition formatUUID :: "8 word list \<Rightarrow> string" where
  "formatUUID b =
     hexBytes (take 4 b) @ ''-'' @ hexBytes (take 2 (drop 4 b)) @ ''-'' @ hexBytes (take 2 (drop 6 b))
       @ ''-'' @ hexBytes (take 2 (drop 8 b)) @ ''-'' @ hexBytes (take 6 (drop 10 b))"

definition newRequestID :: "string + 8 word list \<Rightarrow> goerr + string" where
  "newRequestID random =
     (case random of
        Inl err \<Rightarrow> Inl (Errorf err None)
      | Inr b \<Rightarrow> Inr (formatUUID (stampVersion b)))"

section \<open>Lemmas\<close>

lemma takeWhile_isDigit_formatNat [simp]: "takeWhile isDigit (formatNat n) = formatNat n"
  by (simp add: takeWhile_eq_all_conv formatNat_isDigit)

lemma sscanfInt_formatInt:
  assumes "- (2 ^ 63) \<le> i" and "i < 2 ^ 63"
  shows "sscanfInt (formatInt i) = i"
proof -
  have "\<not> isBlank (hd (formatInt i))"
    using formatNat_isDigit [OF hd_in_set [OF formatNat_not_Nil], of "nat i"]
    by (auto simp: isBlank_def isDigit_def formatInt_def)
  then have blank: "dropWhile isBlank (formatInt i) = formatInt i"
    by (simp add: dropWhile_eq_self_iff)
  show ?thesis
  proof (cases "i < 0")
    case True
    with blank assms atoi_formatInt [of i] show ?thesis by (simp add: sscanfInt_def formatInt_def)
  next
    case False
    with blank assms atoi_formatInt [of i] show ?thesis by (simp add: sscanfInt_def formatInt_def)
  qed
qed

lemma and_low_bits:
  fixes x :: "8 word"
  shows "unat (and x 0x0f) = unat x mod 16" "unat (and x 0x3f) = unat x mod 64"
proof -
  have "and x 0x0f = take_bit 4 x" "and x 0x3f = take_bit 6 x"
    by (simp_all add: take_bit_eq_mask mask_eq_exp_minus_1)
  moreover have "unat (take_bit 4 x) = unat x mod 2 ^ 4" "unat (take_bit 6 x) = unat x mod 2 ^ 6"
    by (simp_all only: unsigned_take_bit_eq take_bit_nat_eq_self_iff) (simp_all only: take_bit_eq_mod)
  ultimately show "unat (and x 0x0f) = unat x mod 16" "unat (and x 0x3f) = unat x mod 64" by simp_all
qed

lemma stamped_bytes:
  fixes x :: "8 word"
  shows "unat (or (and x 0x0f) 0x40) = 64 + unat x mod 16"
    "unat (or (and x 0x3f) 0x80) = 128 + unat x mod 64"
proof -
  have "and (and x 0x0f) 0x40 = 0" by (simp add: and.assoc)
  from disjunctive_add_eq_or [OF this] have "or (and x 0x0f) 0x40 = and x 0x0f + 0x40" by simp
  moreover have "unat x mod 16 < 16" by simp
  ultimately show "unat (or (and x 0x0f) 0x40) = 64 + unat x mod 16"
    by (simp add: unat_word_ariths and_low_bits)
  have "and (and x 0x3f) 0x80 = 0" by (simp add: and.assoc)
  from disjunctive_add_eq_or [OF this] have "or (and x 0x3f) 0x80 = and x 0x3f + 0x80" by simp
  moreover have "unat x mod 64 < 64" by simp
  ultimately show "unat (or (and x 0x3f) 0x80) = 128 + unat x mod 64"
    by (simp add: unat_word_ariths and_low_bits)
qed

lemma isHexDigit_hexBytes: "c \<in> set (hexBytes bs) \<Longrightarrow> isHexDigit c"
proof -
  assume "c \<in> set (hexBytes bs)"
  then obtain b where "c \<in> set (hexByte b)" by (auto simp: hexBytes_def)
  moreover have "unat b div 16 < 16" using unsigned_less [of b, where ?'a = nat] by (simp add: less_mult_imp_div_less)
  ultimately show ?thesis by (auto simp: hexByte_def isHexDigit_hexChar)
qed

lemma hexChar_variant: "hexChar ((128 + n mod 64) div 16) \<in> {CHR ''8'', CHR ''9'', CHR ''a'', CHR ''b''}"
proof -
  have "n mod 64 div 16 < 4" by (simp add: less_mult_imp_div_less)
  moreover have "(128 + n mod 64) div 16 = 8 + n mod 64 div 16" by simp
  ultimately consider "(128 + n mod 64) div 16 = 8" | "(128 + n mod 64) div 16 = 9"
    | "(128 + n mod 64) div 16 = 10" | "(128 + n mod 64) div 16 = 11" by linarith
  then show ?thesis by cases (simp_all add: hexChar_def char_of_def bit_0)
qed

lemma lastIndexByte_port: "lastIndexByte CHR '':'' (h @ '':'' @ formatInt p) = Some (length h)"
proof -
  have "CHR '':'' \<notin> set (formatInt p)"
    by (auto simp: formatInt_def isDigit_def dest: formatNat_isDigit)
  then show ?thesis using lastIndexByte_append by simp
qed

text \<open>An authority ends at its first slash.\<close>

definition pathOK :: "string \<Rightarrow> bool" where
  "pathOK path = (path = [] \<or> hd path = CHR ''/'')"

lemma authority_path:
  assumes "CHR ''/'' \<notin> set a" and "pathOK path"
  shows "(case indexByte CHR ''/'' (a @ path) of Some i \<Rightarrow> take i (a @ path) | None \<Rightarrow> a @ path) = a"
proof (cases path)
  case Nil
  with assms have "indexByte CHR ''/'' (a @ path) = None" by (simp add: indexByte_None_iff)
  with Nil show ?thesis by simp
next
  case (Cons c p)
  with assms have "indexByte CHR ''/'' (a @ path) = Some (length a)"
    using indexByte_append [OF assms(1), of p] by (simp add: pathOK_def)
  then show ?thesis by simp
qed

lemma parseHostPort_authority:
  assumes "CHR ''/'' \<notin> set a" and "pathOK path"
  shows "parseHostPort (a @ path) d =
    (case lastIndexByte CHR '':'' a of
       Some i \<Rightarrow> (take i a, if sscanfInt (drop (Suc i) a) = 0 then d else sscanfInt (drop (Suc i) a))
     | None \<Rightarrow> (a, d))"
  unfolding parseHostPort_def authority_path [OF assms] by (auto simp: Let_def split: option.split)

lemma parseHostPort_port:
  assumes "CHR ''/'' \<notin> set h" and "pathOK path" and "- (2 ^ 63) \<le> p" and "p < 2 ^ 63" and "p \<noteq> 0"
  shows "parseHostPort (h @ '':'' @ formatInt p @ path) d = (h, p)"
proof -
  have "CHR ''/'' \<notin> set (h @ '':'' @ formatInt p)"
    using assms(1) by (auto simp: formatInt_def isDigit_def split: if_splits dest: formatNat_isDigit)
  from parseHostPort_authority [OF this assms(2), of d] show ?thesis
    using lastIndexByte_port [of h p] assms(3-5) by (simp add: sscanfInt_formatInt)
qed

lemma parseHostPort_default:
  assumes "CHR ''/'' \<notin> set h" and "CHR '':'' \<notin> set h" and "pathOK path"
  shows "parseHostPort (h @ path) d = (h, d)"
  using assms authority_path [of h path] lastIndexByte_None_iff [of "CHR '':''" h]
  by (simp add: parseHostPort_def)

lemma NewConfig_synap:
  "host (NewConfig (''synap://'' @ u)) = fst (parseHostPort u 15501)"
  "port (NewConfig (''synap://'' @ u)) = snd (parseHostPort u 15501)"
  "transport (NewConfig (''synap://'' @ u)) = TransportSynapRPC"
  by (simp_all add: NewConfig_def hasPrefix_def trimPrefix_def case_prod_beta Let_def)

lemma NewConfig_resp3:
  "host (NewConfig (''resp3://'' @ u)) = fst (parseHostPort u 6379)"
  "port (NewConfig (''resp3://'' @ u)) = snd (parseHostPort u 6379)"
  "transport (NewConfig (''resp3://'' @ u)) = TransportRESP3"
  by (simp_all add: NewConfig_def hasPrefix_def trimPrefix_def case_prod_beta Let_def)

section \<open>Configurations a caller can build\<close>

inductive configured :: "Config \<Rightarrow> bool" where
  new: "configured (NewConfig url)"
| auth: "configured c \<Longrightarrow> configured (WithAuth token c)"
| basic: "configured c \<Longrightarrow> configured (WithBasicAuth user pass c)"
| time: "configured c \<Longrightarrow> configured (WithTimeout d c)"

lemmas builder_defs = WithAuth_def WithBasicAuth_def WithTimeout_def

lemma NewConfig_credentials [simp]:
  "authToken (NewConfig url) = []" "username (NewConfig url) = []" "password (NewConfig url) = []"
  by (simp_all add: NewConfig_def Let_def case_prod_beta)

lemma configured_one_scheme:
  "configured c \<Longrightarrow> authToken c = [] \<or> (username c = [] \<and> password c = [])"
  by (induction rule: configured.induct) (auto simp: builder_defs)

section \<open>Properties\<close>

text \<open>C29. A URL printed from a scheme, a host, a port and a path is read back: host and port are found
  whatever the host is, as long as it has no slash, and a missing port gets the scheme's default.\<close>

theorem config_reads_url:
  assumes "CHR ''/'' \<notin> set h" and "pathOK path" and "- (2 ^ 63) \<le> p" and "p < 2 ^ 63" and "p \<noteq> 0"
  shows "host (NewConfig (''synap://'' @ h @ '':'' @ formatInt p @ path)) = h
       \<and> port (NewConfig (''synap://'' @ h @ '':'' @ formatInt p @ path)) = p
       \<and> transport (NewConfig (''synap://'' @ h @ '':'' @ formatInt p @ path)) = TransportSynapRPC
       \<and> host (NewConfig (''resp3://'' @ h @ '':'' @ formatInt p @ path)) = h
       \<and> port (NewConfig (''resp3://'' @ h @ '':'' @ formatInt p @ path)) = p
       \<and> transport (NewConfig (''resp3://'' @ h @ '':'' @ formatInt p @ path)) = TransportRESP3
       \<and> (CHR '':'' \<notin> set h \<longrightarrow> port (NewConfig (''synap://'' @ h @ path)) = 15501
            \<and> port (NewConfig (''resp3://'' @ h @ path)) = 6379)"
proof -
  note parsed = parseHostPort_port [OF assms] and default = parseHostPort_default [OF assms(1) _ assms(2)]
  show ?thesis
    unfolding NewConfig_synap NewConfig_resp3 parsed using default by simp
qed

theorem config_reads_url_witness:
  "host (NewConfig (''synap://'' @ ''db.local'' @ '':'' @ formatInt 9000 @ ''/x'')) = ''db.local''
   \<and> port (NewConfig (''synap://'' @ ''db.local'' @ '':'' @ formatInt 9000 @ ''/x'')) = 9000"
  using config_reads_url [of "''db.local''" "''/x''" 9000] by (simp add: pathOK_def)

text \<open>C30. However the builders are combined, a configuration never carries a token together with user
  credentials. A token is presented as a bearer token over HTTP and as the same API key over SynapRPC. A user name and
  a non-empty password are presented as the same pair on both; a user name with an empty password is presented over
  HTTP only, the SynapRPC connection is then opened without credentials. Without token and user name neither carries any.\<close>

theorem one_authentication:
  assumes "configured c"
  shows "(authToken c = [] \<or> username c = [] \<and> password c = [])
    \<and> (let creds = Credentials (clientConfig
          (withCredentials (newSynapRpcTransport h p d) (authToken c) (username c) (password c)))
       in (authToken c \<noteq> [] \<longrightarrow> applyAuth c = Some (''Bearer '' @ authToken c) \<and> creds = Some (APIKey (authToken c)))
        \<and> (username c \<noteq> [] \<longrightarrow>
             (\<exists>enc. applyAuth c = Some (''Basic '' @ enc) \<and> base64Decode enc = Some (username c @ '':'' @ password c))
             \<and> creds = (if password c \<noteq> [] then Some (UserPass (username c) (password c)) else None))
        \<and> (authToken c = [] \<and> username c = [] \<longrightarrow> applyAuth c = None \<and> creds = None))"
  using configured_one_scheme [OF assms]
  by (auto simp: applyAuth_def withCredentials_def newSynapRpcTransport_def base64Decode_base64Encode)

theorem one_authentication_witness:
  "authToken (WithBasicAuth ''root'' [] (WithAuth ''tok'' (NewConfig ''synap://h''))) = []
   \<and> Credentials (clientConfig (withCredentials (newSynapRpcTransport ''h'' 15501 5) [] ''root'' [])) = None"
proof -
  let ?c = "WithBasicAuth ''root'' [] (WithAuth ''tok'' (NewConfig ''synap://h''))"
  have "configured ?c" by (intro configured.intros)
  moreover have "authToken ?c = []" "username ?c = ''root''" "password ?c = []" by (simp_all add: WithBasicAuth_def)
  ultimately show ?thesis using one_authentication [of ?c "''h''" 15501 5] by (simp add: Let_def)
qed

text \<open>C31. Request and transaction identifiers are version 4 UUIDs: groups of 8, 4, 4, 4 and 12 hexadecimal
  digits with dashes between them, the version digit 4 first in the third group and a variant digit of 8, 9,
  a or b first in the fourth.\<close>

theorem request_id_is_uuid_v4:
  assumes "length b = 16"
  shows "\<exists>g1 g2 g3 v g4 g5.
      newRequestID (Inr b) = Inr (g1 @ ''-'' @ g2 @ ''-4'' @ g3 @ ''-'' @ [v] @ g4 @ ''-'' @ g5)
      \<and> map length [g1, g2, g3, g4, g5] = [8, 4, 3, 3, 12]
      \<and> v \<in> {CHR ''8'', CHR ''9'', CHR ''a'', CHR ''b''}
      \<and> list_all isHexDigit (g1 @ g2 @ g3 @ g4 @ g5)"
proof -
  let ?b = "stampVersion b"
  let ?lo = "\<lambda>x :: 8 word. hexChar (unat x mod 16)"
  let ?v = "hexChar ((128 + unat (b ! 8) mod 64) div 16)"
  let ?g3 = "?lo (?b ! 6) # hexByte (?b ! 7)" and ?g4 = "?lo (?b ! 8) # hexByte (?b ! 9)"
  have len: "length ?b = 16" using assms by (simp add: stampVersion_def)
  have two: "take 2 (drop i ?b) = [?b ! i, ?b ! Suc i]" if "Suc i < 16" for i
    using that len by (simp add: take_Suc_conv_app_nth numeral_2_eq_2 flip: Cons_nth_drop_Suc)
  have "hexChar 4 = CHR ''4''" by (simp add: hexChar_def char_of_def bit_0)
  moreover have "unat (?b ! 6) div 16 = 4" using assms by (simp add: stampVersion_def stamped_bytes)
  ultimately have third: "hexBytes (take 2 (drop 6 ?b)) = CHR ''4'' # ?g3"
    by (simp add: two hexBytes_def hexByte_def)
  have "unat (?b ! 8) = 128 + unat (b ! 8) mod 64" using assms by (simp add: stampVersion_def stamped_bytes)
  then have fourth: "hexBytes (take 2 (drop 8 ?b)) = ?v # ?g4"
    by (simp add: two hexBytes_def hexByte_def)
  have "newRequestID (Inr b) = Inr (hexBytes (take 4 ?b) @ ''-'' @ hexBytes (take 2 (drop 4 ?b)) @ ''-4'' @ ?g3
      @ ''-'' @ [?v] @ ?g4 @ ''-'' @ hexBytes (take 6 (drop 10 ?b)))"
    by (simp add: newRequestID_def formatUUID_def third fourth)
  moreover have "list_all isHexDigit (hexBytes (take 4 ?b) @ hexBytes (take 2 (drop 4 ?b)) @ ?g3 @ ?g4 @ hexBytes (take 6 (drop 10 ?b)))"
    using isHexDigit_hexBytes [of _ "[x]" for x] isHexDigit_hexBytes
    by (auto simp: list_all_iff hexBytes_def)
  moreover have "length (hexByte x) = 2" for x by (simp add: hexByte_def)
  ultimately show ?thesis using hexChar_variant [of "unat (b ! 8)"] len
    by (intro exI [of _ "hexBytes (take 4 ?b)"] exI [of _ "hexBytes (take 2 (drop 4 ?b))"] exI [of _ "?g3"]
        exI [of _ "?v"] exI [of _ "?g4"] exI [of _ "hexBytes (take 6 (drop 10 ?b))"]) simp
qed

theorem request_id_is_uuid_v4_witness:
  "\<exists>s. newRequestID (Inr (replicate 16 0xff)) = Inr s \<and> length s = 36"
proof -
  have "length (replicate 16 (0xff :: 8 word)) = 16" by simp
  from request_id_is_uuid_v4 [OF this] show ?thesis by fastforce
qed

end
