(* ===== verification/Json_Raw.thy ===== *)
theory Json_Raw
  imports Response
begin

text \<open>
  \<^verbatim>\<open>json.RawMessage\<close>: members of an object kept as the text they had, the compaction
  \<^verbatim>\<open>json.Marshal\<close> applies to such text, and the three places of \<^verbatim>\<open>client.go\<close> that use it: the
  splicing of a transaction's client id, the request envelope and the response envelope.
\<close>

section \<open>Raw members\<close>

text \<open>The text of a value that \<open>parseValue\<close> consumed: what is in front of the rest, white space dropped.\<close>

definition rawText :: "string \<Rightarrow> string \<Rightarrow> string" where
  "rawText s rest = (let v = skipSpace s in take (length v - length rest) v)"

fun rawMembers :: "nat \<Rightarrow> string \<Rightarrow> (string \<times> string) list option" where
  "rawMembers 0 s = None"
| "rawMembers (Suc n) s =
     (case skipSpace s of
        [] \<Rightarrow> None
      | q # cs \<Rightarrow>
          if q \<noteq> CHR 0x22 then None
          else (case parseString cs of
             None \<Rightarrow> None
           | Some (k, r) \<Rightarrow>
               (case skipSpace r of
                  [] \<Rightarrow> None
                | colon # r' \<Rightarrow>
                    if colon \<noteq> CHR '':'' then None
                    else (case parseValue n r' of
                       None \<Rightarrow> None
                     | Some (_, r'') \<Rightarrow>
                         (case skipSpace r'' of
                            [] \<Rightarrow> None
                          | d # ds \<Rightarrow>
                              if d = CHR '','' then map_option ((#) (k, rawText r' r'')) (rawMembers n ds)
                              else if d = CHR ''}'' then Some [(k, rawText r' r'')] else None)))))"

text \<open>The members of a text that is an object.\<close>

definition rawObject :: "string \<Rightarrow> (string \<times> string) list" where
  "rawObject s =
     (let cs = skipSpace (drop 1 (skipSpace s))
      in if take 1 cs = [CHR ''}''] then [] else (case rawMembers (2 * length s + 2) cs of Some m \<Rightarrow> m | None \<Rightarrow> []))"

text \<open>\<^verbatim>\<open>json.Unmarshal\<close> into a \<^verbatim>\<open>map[string]json.RawMessage\<close>; a null makes the map nil.\<close>

definition unmarshalRaw :: "string \<Rightarrow> goerr + (string \<times> string) list option" where
  "unmarshalRaw s =
     (case parseJson s of
        None \<Rightarrow> Inl (Errorf ''json: invalid JSON'' None)
      | Some JNull \<Rightarrow> Inr None
      | Some (JObj _) \<Rightarrow> Inr (Some (makeMap (rawObject s)))
      | Some j \<Rightarrow> Inl (typeError (jsonKind j) (TMap TIface)))"

text \<open>\<^verbatim>\<open>json.Marshal\<close> compacts raw text and escapes it for HTML; \<open>inStr\<close>: inside a string.\<close>

fun compact :: "bool \<Rightarrow> string \<Rightarrow> string" where
  "compact inStr [] = []"
| "compact inStr (c # cs) =
     (if c = CHR ''<'' \<or> c = CHR ''>'' \<or> c = CHR 0x26 then u4 (of_char c) @ compact inStr cs
      else if c = CHR 0xE2 \<and> (take 2 cs = [CHR 0x80, CHR 0xA8] \<or> take 2 cs = [CHR 0x80, CHR 0xA9])
      then u4 (0x2028 + (of_char (cs ! 1) - 0xA8)) @ compact inStr (drop 2 cs)
      else if inStr \<and> c = CHR 0x5C then (case cs of [] \<Rightarrow> [c] | d # ds \<Rightarrow> c # d # compact inStr ds)
      else if c = CHR 0x22 then c # compact (\<not> inStr) cs
      else if \<not> inStr \<and> isSpaceChar c then compact inStr cs
      else c # compact inStr cs)"

definition marshalRaw :: "(string \<times> string) list \<Rightarrow> string" where
  "marshalRaw m =
     [CHR ''{''] @ joinWith '','' (map (\<lambda>(k, t). quoteString k @ '':'' @ compact False t) (sort_key fst m)) @ [CHR ''}'']"

section \<open>The client id\<close>

text \<open>\<^verbatim>\<open>withClientID\<close>.\<close>

definition withClientID :: "string \<Rightarrow> string \<Rightarrow> goerr + string" where
  "withClientID payloadJSON clientID =
     rbind (if payloadJSON = [] then Inr (Some [])
            else map_sum (\<lambda>e. Errorf ''synap: splice client_id'' (Some e)) id (unmarshalRaw payloadJSON))
       (\<lambda>fields. case fields of
          None \<Rightarrow> Inl (Panic ''assignment to entry in nil map'')
        | Some m \<Rightarrow> Inr (marshalRaw (aput ''client_id'' (quoteString clientID) m)))"

section \<open>Envelopes\<close>

definition commandEnvelope :: "string \<Rightarrow> string \<Rightarrow> string \<Rightarrow> string" where
  "commandEnvelope command requestID payload =
     [CHR ''{''] @ quoteString ''command'' @ '':'' @ quoteString command @ '',''
       @ quoteString ''request_id'' @ '':'' @ quoteString requestID @ '',''
       @ quoteString ''payload'' @ '':'' @ compact False payload @ [CHR ''}'']"

record responseEnvelope =
  envSuccess :: bool
  envRequestID :: string
  envPayload :: string
  envError :: "string option"

text \<open>The fields of \<^verbatim>\<open>responseEnvelope\<close>; the raw payload stands last and is not decoded.\<close>

definition envelopeFields :: "(sfield \<times> gtype) list" where
  "envelopeFields =
     [fld ''Success'' ''success'' TBool, fld ''RequestID'' ''request_id'' TString,
      fld ''Error'' ''error'' (TPtr TString)]"

definition payloadField :: "sfield \<times> gtype" where
  "payloadField = fld ''Payload'' ''payload'' TOther"

definition rawPayload :: "string \<Rightarrow> string" where
  "rawPayload s =
     (case filter (\<lambda>(k, t). findField (envelopeFields @ [payloadField]) k = Some (fst payloadField)) (rawObject s) of
        [] \<Rightarrow> []
      | ms \<Rightarrow> snd (last ms))"

definition unmarshalEnvelope :: "string \<Rightarrow> goerr + responseEnvelope" where
  "unmarshalEnvelope s =
     (case parseJson s of
        None \<Rightarrow> Inl (Errorf ''json: invalid JSON'' None)
      | Some j \<Rightarrow>
          (case decodeJson (TStruct envelopeFields) j (zeroOf (TStruct envelopeFields)) of
             Inr (RStruct [(_, RBool ok), (_, RString rid), (_, RPtr err)]) \<Rightarrow>
               Inr \<lparr>envSuccess = ok, envRequestID = rid,
                    envPayload = (case j of JObj _ \<Rightarrow> rawPayload s | _ \<Rightarrow> []),
                    envError = (case err of Some (RString m) \<Rightarrow> Some m | _ \<Rightarrow> None)\<rparr>
           | Inl e \<Rightarrow> Inl e
           | _ \<Rightarrow> Inl (Panic ''unreachable'')))"

end
