(* ===== verification/Response_Map.thy ===== *)
theory Response_Map
  imports Go_Value
begin

text \<open>
  \<^verbatim>\<open>normalizeInts\<close> and \<^verbatim>\<open>mapResponseFromWire\<close> of \<^verbatim>\<open>client.go\<close>: the native reply of a command becomes
  the object the module methods decode. As for the commands, the \<^verbatim>\<open>switch\<close> is one definition per
  family in the order of its cases.
\<close>

fun normalizeInts :: "gval \<Rightarrow> gval" where
  "normalizeInts (GInt8 v) = GInt64 (scast v)"
| "normalizeInts (GInt16 v) = GInt64 (scast v)"
| "normalizeInts (GInt32 v) = GInt64 (scast v)"
| "normalizeInts (GUint8 v) = GInt64 (ucast v)"
| "normalizeInts (GUint16 v) = GInt64 (ucast v)"
| "normalizeInts (GUint32 v) = GInt64 (ucast v)"
| "normalizeInts (GUint64 v) = GInt64 v"
| "normalizeInts v = v"

text \<open>\<^verbatim>\<open>switch v := result.(type) { case bool: b = v; case int64: b = v > 0 }\<close>.\<close>

definition flag :: "gval \<Rightarrow> bool" where
  "flag result = (case result of GBool b \<Rightarrow> b | GInt64 v \<Rightarrow> 0 <s v | _ \<Rightarrow> False)"

text \<open>An array reply, or the empty array for any other.\<close>

definition arrayOrEmpty :: "gval \<Rightarrow> gval" where
  "arrayOrEmpty result = (case result of GList arr \<Rightarrow> GList arr | _ \<Rightarrow> GList [])"

definition respKV :: "string \<Rightarrow> gval \<Rightarrow> gval option" where
  "respKV command result =
     (if command = ''kv.set'' then Some (GMap [(''success'', GBool True)])
      else if command = ''kv.get'' then Some result
      else if command = ''kv.del'' then
        Some (GMap [(''deleted'', GBool (case result of GUint64 v \<Rightarrow> 0 < v | _ \<Rightarrow> flag result))])
      else if command = ''kv.exists'' then Some (GMap [(''exists'', GBool (flag result))])
      else if command = ''kv.incr'' \<or> command = ''kv.decr'' then Some (GMap [(''value'', result)])
      else None)"

text \<open>A flat array of keys and values becomes a map; a last element without a partner is dropped.\<close>

fun pairUp :: "gval list \<Rightarrow> (string \<times> gval) list \<Rightarrow> (string \<times> gval) list" where
  "pairUp (k # v # arr) fields = pairUp arr (aput (fmtV k) v fields)"
| "pairUp _ fields = fields"

definition respHash :: "string \<Rightarrow> gval \<Rightarrow> gval option" where
  "respHash command result =
     (if command = ''hash.set'' then Some (GMap [(''created'', GBool (flag result))])
      else if command = ''hash.get'' then
        Some (if result = GNil then GMap [(''found'', GBool False)]
              else GMap [(''found'', GBool True), (''value'', result)])
      else if command = ''hash.exists'' then Some (GMap [(''exists'', GBool (flag result))])
      else if command = ''hash.del'' then Some (GMap [(''removed'', result)])
      else if command = ''hash.getall'' then
        Some (case result of
                GList arr \<Rightarrow> GMap [(''fields'', GMap (pairUp arr []))]
              | _ \<Rightarrow> GMap [(''fields'', result)])
      else None)"

definition respList :: "string \<Rightarrow> gval \<Rightarrow> gval option" where
  "respList command result =
     (if command = ''list.lpush'' \<or> command = ''list.rpush'' then Some (GMap [(''length'', result)])
      else if command = ''list.lpop'' \<or> command = ''list.rpop'' then
        Some (GMap [(''values'', case result of GList arr \<Rightarrow> GList arr | GNil \<Rightarrow> GList [] | _ \<Rightarrow> GList [result])])
      else if command = ''list.range'' then Some (GMap [(''values'', arrayOrEmpty result)])
      else if command = ''list.len'' then Some (GMap [(''length'', result)])
      else None)"

definition respSet :: "string \<Rightarrow> gval \<Rightarrow> gval option" where
  "respSet command result =
     (if command = ''set.add'' then Some (GMap [(''added'', result)])
      else if command = ''set.members'' then Some (GMap [(''members'', arrayOrEmpty result)])
      else if command = ''set.ismember'' then Some (GMap [(''is_member'', GBool (flag result))])
      else if command = ''set.rem'' then Some (GMap [(''removed'', result)])
      else if command = ''set.card'' then Some (GMap [(''size'', result)])
      else None)"

definition respQueue :: "string \<Rightarrow> gval \<Rightarrow> gval option" where
  "respQueue command result =
     (if command = ''queue.create'' \<or> command = ''queue.delete'' \<or> command = ''queue.ack'' \<or> command = ''queue.nack''
      then Some (GMap [])
      else if command = ''queue.publish'' then Some (GMap [(''message_id'', result)])
      else if command = ''queue.consume'' then Some (GMap [(''message'', result)])
      else if command = ''queue.list'' then Some (GMap [(''queues'', arrayOrEmpty result)])
      else if command = ''queue.stats'' then Some result
      else None)"

definition respStream :: "string \<Rightarrow> gval \<Rightarrow> gval option" where
  "respStream command result =
     (if command = ''stream.create'' \<or> command = ''stream.delete'' then Some (GMap [])
      else if command = ''stream.get_or_create'' then
        Some (GMap [(''created'', GBool (case result of GStr s \<Rightarrow> s = ''CREATED'' | _ \<Rightarrow> False))])
      else if command = ''stream.publish'' then Some (GMap [(''offset'', result)])
      else if command = ''stream.consume'' then Some (GMap [(''events'', arrayOrEmpty result)])
      else if command = ''stream.list'' then Some (GMap [(''rooms'', arrayOrEmpty result)])
      else if command = ''stream.stats'' then Some result
      else None)"

definition respPubSub :: "string \<Rightarrow> gval \<Rightarrow> gval option" where
  "respPubSub command result =
     (if command = ''pubsub.publish'' then
        Some (case result of GMap m \<Rightarrow> GMap m | _ \<Rightarrow> GMap [(''subscribers_matched'', result)])
      else if command = ''pubsub.subscribe'' then Some result
      else if command = ''pubsub.unsubscribe'' then Some (GMap [])
      else if command = ''pubsub.topics'' then Some (GMap [(''topics'', arrayOrEmpty result)])
      else None)"

definition respTransaction :: "string \<Rightarrow> gval \<Rightarrow> gval option" where
  "respTransaction command result =
     (if command = ''transaction.multi'' \<or> command = ''transaction.discard''
         \<or> command = ''transaction.watch'' \<or> command = ''transaction.unwatch''
      then Some (GMap [(''success'', GBool (result = GStr ''OK'' \<or> result = GBool True))])
      else if command = ''transaction.exec'' then
        Some (case result of
                GList arr \<Rightarrow> GMap [(''success'', GBool True), (''results'', GList arr)]
              | _ \<Rightarrow> GMap [(''success'', GBool False), (''aborted'', GBool True)])
      else None)"

definition mapResponseFromWire :: "string \<Rightarrow> gval \<Rightarrow> gval" where
  "mapResponseFromWire command result =
     (case List.find (\<lambda>r. r \<noteq> None)
             [respKV command result, respHash command result, respList command result,
              respSet command result, respQueue command result, respStream command result,
              respPubSub command result, respTransaction command result] of
        Some (Some v) \<Rightarrow> v
      | _ \<Rightarrow> result)"

lemmas resp_defs = respKV_def respHash_def respList_def respSet_def respQueue_def respStream_def
  respPubSub_def respTransaction_def

end
