(* ===== verification/Client.thy ===== *)
theory Client
  imports Config Json_Raw Response_Map
begin

text \<open>
  \<^verbatim>\<open>SynapClient\<close> of \<^verbatim>\<open>client.go\<close>: its construction and \<^verbatim>\<open>sendCommand\<close> over the three transports. The
  record holds the fields that never change; what the transports change (\<^verbatim>\<open>rpc.client\<close>, \<^verbatim>\<open>resp3.conn\<close>)
  and the world stand in \<open>'w env\<close>, because a transaction scope is a copy of the client that shares its
  transports. Thunder, the network, the HTTP client and the random source are the parameter
  \<open>'w platform\<close>.
\<close>

record http_request =
  reqMethod :: string
  reqURL :: string
  reqHeaders :: "(string \<times> string) list"
  reqBody :: string

text \<open>The body is what \<^verbatim>\<open>io.ReadAll\<close> returns: the error, or the bytes.\<close>

record http_response =
  statusCode :: int
  respBody :: "string + string"

text \<open>\<open>checkURL\<close> is the error \<^verbatim>\<open>http.NewRequestWithContext\<close> reports for a URL it cannot use.\<close>

record 'w platform =
  thunder :: "'w thunder"
  net :: "'w net"
  checkURL :: "string \<Rightarrow> string option"
  doRequest :: "int \<Rightarrow> goctx \<Rightarrow> http_request \<Rightarrow> 'w \<Rightarrow> (string + http_response) \<times> 'w"
  randomBytes :: "'w \<Rightarrow> (string + 8 word list) \<times> 'w"

record 'w env =
  rpcClient :: "handle option"
  r3Conn :: "(handle \<times> string) option"
  world :: 'w

record SynapClient =
  config :: Config
  endpoint :: string
  rpc :: "SynapRpcTransport option"
  resp3 :: "Resp3Transport option"
  txClientID :: string

definition NewClient :: "Config \<Rightarrow> SynapClient" where
  "NewClient cfg =
     (case transport cfg of
        TransportSynapRPC \<Rightarrow>
          \<lparr>config = cfg, endpoint = ''http://'' @ host cfg @ '':15500/api/v1/command'',
           rpc = Some (withCredentials (newSynapRpcTransport (host cfg) (port cfg) (timeout cfg))
                         (authToken cfg) (username cfg) (password cfg)),
           resp3 = None, txClientID = []\<rparr>
      | TransportRESP3 \<Rightarrow>
          \<lparr>config = cfg, endpoint = ''http://'' @ host cfg @ '':15500/api/v1/command'',
           rpc = None, resp3 = Some (newResp3Transport (host cfg) (port cfg) (timeout cfg)), txClientID = []\<rparr>
      | TransportHTTP \<Rightarrow>
          \<lparr>config = cfg, endpoint = baseURL cfg @ ''/api/v1/command'', rpc = None, resp3 = None, txClientID = []\<rparr>)"

type_synonym 'w sender = "string \<Rightarrow> rval \<Rightarrow> 'w env \<Rightarrow> (goerr + response) \<times> 'w env"

section \<open>SynapRPC\<close>

text \<open>The payload map of a command inside a transaction carries the client id.\<close>

definition scopePayload :: "SynapClient \<Rightarrow> payload \<Rightarrow> payload" where
  "scopePayload c p = (if txClientID c \<noteq> [] then aput ''client_id'' (GStr (txClientID c)) p else p)"

definition sendRPC :: "'w platform \<Rightarrow> SynapClient \<Rightarrow> SynapRpcTransport \<Rightarrow> goctx \<Rightarrow> 'w sender" where
  "sendRPC pf c t ctx command payload env =
     (case mapCommandToWire command (scopePayload c (payloadToMap payload)) TransportSynapRPC of
        Inl e \<Rightarrow> (Inl e, env)
      | Inr (wireCmd, wireArgs) \<Rightarrow>
          (case rpcExecute (thunder pf) t ctx wireCmd wireArgs (rpcClient env, world env) of
             (Inl e, (cl, w)) \<Rightarrow> (Inl e, env\<lparr>rpcClient := cl, world := w\<rparr>)
           | (Inr result, (cl, w)) \<Rightarrow>
               (Inr (valueResponse (mapResponseFromWire command (normalizeInts result))),
                env\<lparr>rpcClient := cl, world := w\<rparr>)))"

section \<open>RESP3\<close>

text \<open>\<^verbatim>\<open>_ = json.Unmarshal(payloadBytes, &payloadMap)\<close>: a text that is no object leaves the map nil. (The
  text comes from \<^verbatim>\<open>json.Marshal\<close>, so its numbers always fit.)\<close>

definition payloadMapOf :: "string \<Rightarrow> payload" where
  "payloadMapOf payloadBytes = (case unmarshalMap payloadBytes of Some m \<Rightarrow> m | None \<Rightarrow> [])"

definition sendRESP3 :: "'w platform \<Rightarrow> SynapClient \<Rightarrow> Resp3Transport \<Rightarrow> goctx \<Rightarrow> 'w sender" where
  "sendRESP3 pf c t ctx command payload env =
     (case marshalReflect payload of
        None \<Rightarrow> (Inl (Errorf ''synap: marshal payload'' (Some (Errorf ''json: unsupported value'' None))), env)
      | Some payloadBytes \<Rightarrow>
          (case mapCommandToWire command (scopePayload c (payloadMapOf payloadBytes)) TransportRESP3 of
             Inl e \<Rightarrow> (Inl e, env)
           | Inr (wireCmd, wireArgs) \<Rightarrow>
               (case resp3Execute (net pf) t ctx wireCmd wireArgs (r3Conn env, world env) of
                  (Inl e, (cn, w)) \<Rightarrow> (Inl e, env\<lparr>r3Conn := cn, world := w\<rparr>)
                | (Inr result, (cn, w)) \<Rightarrow>
                    ((case marshalValue (mapResponseFromWire command result) of
                        Some respBytes \<Rightarrow> Inr (jsonResponse respBytes)
                      | None \<Rightarrow> Inl (Errorf ''synap: marshal resp3 response''
                                     (Some (Errorf ''json: unsupported value'' None)))),
                     env\<lparr>r3Conn := cn, world := w\<rparr>))))"

section \<open>HTTP\<close>

definition httpRequest :: "SynapClient \<Rightarrow> string \<Rightarrow> http_request" where
  "httpRequest c body =
     \<lparr>reqMethod = ''POST'', reqURL = endpoint c,
      reqHeaders = [(''Content-Type'', ''application/json''), (''Accept'', ''application/json'')]
        @ (case applyAuth (config c) of Some v \<Rightarrow> [(''Authorization'', v)] | None \<Rightarrow> []),
      reqBody = body\<rparr>"

text \<open>From the HTTP reply to the response: the body is read, the status checked, the envelope opened.\<close>

definition httpReply :: "http_response \<Rightarrow> goerr + response" where
  "httpReply resp =
     (case respBody resp of
        Inl err \<Rightarrow> Inl (Errorf ''synap: read response body'' (Some (Errorf err None)))
      | Inr respBytes \<Rightarrow>
          if statusCode resp < 200 \<or> 300 \<le> statusCode resp
          then Inl (newServerError (''HTTP '' @ formatInt (statusCode resp) @ '': '' @ respBytes))
          else (case unmarshalEnvelope respBytes of
             Inl e \<Rightarrow> Inl (Errorf ''synap: unmarshal response'' (Some e))
           | Inr e \<Rightarrow>
               if \<not> envSuccess e
               then Inl (newServerError (case envError e of Some m \<Rightarrow> m | None \<Rightarrow> ''unknown error''))
               else Inr (jsonResponse (envPayload e))))"

definition sendHTTP :: "'w platform \<Rightarrow> SynapClient \<Rightarrow> goctx \<Rightarrow> 'w sender" where
  "sendHTTP pf c ctx command payload env =
     (case marshalReflect payload of
        None \<Rightarrow> (Inl (Errorf ''synap: marshal payload'' (Some (Errorf ''json: unsupported value'' None))), env)
      | Some payloadBytes \<Rightarrow>
          (case (if txClientID c \<noteq> [] then withClientID payloadBytes (txClientID c) else Inr payloadBytes) of
             Inl e \<Rightarrow> (Inl e, env)
           | Inr payloadBytes' \<Rightarrow>
               (case randomBytes pf (world env) of
                  (random, w1) \<Rightarrow>
                    (case newRequestID random of
                       Inl e \<Rightarrow> (Inl (Errorf ''synap: generate request_id'' (Some e)), env\<lparr>world := w1\<rparr>)
                     | Inr reqID \<Rightarrow>
                         (case checkURL pf (endpoint c) of
                            Some err \<Rightarrow> (Inl (Errorf ''synap: build request'' (Some (Errorf err None))), env\<lparr>world := w1\<rparr>)
                          | None \<Rightarrow>
                              (case doRequest pf (timeout (config c)) ctx
                                      (httpRequest c (commandEnvelope command reqID payloadBytes')) w1 of
                                 (Inl err, w2) \<Rightarrow> (Inl (Errorf ''synap: http'' (Some (Errorf err None))), env\<lparr>world := w2\<rparr>)
                               | (Inr resp, w2) \<Rightarrow> (httpReply resp, env\<lparr>world := w2\<rparr>)))))))"

section \<open>Dispatch\<close>

definition sendCommand :: "'w platform \<Rightarrow> SynapClient \<Rightarrow> goctx \<Rightarrow> 'w sender" where
  "sendCommand pf c ctx =
     (case rpc c of
        Some t \<Rightarrow> sendRPC pf c t ctx
      | None \<Rightarrow> (case resp3 c of
          Some t \<Rightarrow> sendRESP3 pf c t ctx
        | None \<Rightarrow> sendHTTP pf c ctx))"

end
