(* ===== verification/Json_Envelope.thy ===== *)
theory Json_Envelope
  imports Client
begin

text \<open>
  The HTTP side: raw members and compaction on text that \<^verbatim>\<open>json.Marshal\<close> has printed. Compaction leaves
  such text alone, the raw members of a printed object are its printed members, and so the envelope of a
  request, the client id spliced into a payload and the envelope of a reply are objects that read back as
  what was put in.
\<close>

section \<open>Compaction\<close>

text \<open>A byte that compaction copies, inside a string and outside.\<close>

definition plainByte :: "char \<Rightarrow> bool" where
  "plainByte c = (c \<notin> {CHR ''<'', CHR ''>'', CHR 0x26, CHR 0xE2, CHR 0x5C, CHR 0x22})"

lemma compact_plain:
  "\<forall>c \<in> set s. plainByte c \<and> (inStr \<or> \<not> isSpaceChar c) \<Longrightarrow> compact inStr (s @ t) = s @ compact inStr t"
  by (induction s) (auto simp: plainByte_def)

lemma plainByte_hex: "plainByte (hexChar (n mod 16))"
proof -
  have "isHexDigit (hexChar (n mod 16))" by simp
  then show ?thesis by (auto simp: plainByte_def isHexDigit_def isDigit_def isHexLetter_def lowerChar_def)
qed

lemma compact_escape: "compact True (CHR 0x5C # d # t) = CHR 0x5C # d # compact True t"
  by simp

lemma compact_u4: "compact True (u4 n @ t) = u4 n @ compact True t"
  using compact_plain [of "drop 2 (u4 n)" True t] plainByte_hex by (simp add: u4_def)

lemma compact_escapeByte:
  assumes "(of_char c :: nat) < 128"
  shows "compact True (escapeByte c @ t) = escapeByte c @ compact True t"
proof -
  have "c \<noteq> CHR 0xE2" using assms by auto
  then show ?thesis
    using compact_u4 [of "of_char c" t] by (auto simp: escapeByte_def Let_def)
qed

lemma two_elements: "length xs = 2 \<Longrightarrow> \<exists>x y. xs = [x, y]"
  by (auto simp: length_Suc_conv numeral_2_eq_2)

text \<open>A whole rune above ASCII that is not a line separator.\<close>

lemma compact_rune:
  assumes "(of_char c :: nat) \<ge> 128" and "runeLen (c # cs) = n" and "n > 0" and "\<not> isLineSep (take n (c # cs))"
  shows "compact True (take n (c # cs) @ t) = take n (c # cs) @ compact True t"
proof -
  obtain m where m: "n = Suc m" using assms(3) by (cases n) auto
  let ?r = "take m cs"
  have wf: "wellFormed (c # ?r)" and len: "n = leadLen c" "length ?r = m"
    using assms(2,3) m by (auto simp: runeLen_def Let_def split: if_splits)
  have "\<forall>b \<in> set ?r. byteIn 128 191 b"
  proof (cases ?r)
    case (Cons b bs)
    with wf have "secondOK c b" "list_all (byteIn 128 191) bs" by simp_all
    with Cons show ?thesis by (auto simp: secondOK_def byteIn_def list_all_iff Let_def split: if_splits)
  qed auto
  then have "\<forall>b \<in> set ?r. plainByte b" by (auto simp: plainByte_def byteIn_def)
  then have rest: "compact True (?r @ t) = ?r @ compact True t" by (intro compact_plain) simp
  show ?thesis
  proof (cases "c = CHR 0xE2")
    case True
    with len m have "m = 2" by (simp add: leadLen_def)
    with len(2) obtain x y where r: "?r = [x, y]" using two_elements [of ?r] by auto
    with assms(4) m True have "[x, y] \<noteq> [CHR 0x80, CHR 0xA8]" "[x, y] \<noteq> [CHR 0x80, CHR 0xA9]"
      by (auto simp: isLineSep_def)
    with rest r m True show ?thesis by auto
  next
    case False
    with assms(1) have "plainByte c" by (auto simp: plainByte_def)
    then have "compact True ([c] @ (?r @ t)) = [c] @ compact True (?r @ t)" by (intro compact_plain) simp
    with rest m show ?thesis by simp
  qed
qed

lemma compact_escapeString: "compact True (escapeString s @ t) = escapeString s @ compact True t"
proof (induction s rule: escapeString.induct)
  case (1 s)
  show ?case
  proof (cases s)
    case (Cons c cs)
    let ?n = "runeLen s"
    consider "(of_char c :: nat) < 128" | "\<not> (of_char c :: nat) < 128" "?n = 0"
      | "\<not> (of_char c :: nat) < 128" "?n > 0" by blast
    then show ?thesis
    proof cases
      case 1
      with Cons "1.IH"(1) show ?thesis by (subst (1 2) escapeString.simps) (simp add: compact_escapeByte)
    next
      case 2
      with Cons "1.IH"(2) show ?thesis by (subst (1 2) escapeString.simps) (simp add: compact_u4)
    next
      case 3
      with Cons "1.IH"(3,4) compact_rune [of c cs ?n "escapeString (drop ?n s) @ t"] show ?thesis
        by (subst (1 2) escapeString.simps) (auto simp: compact_u4 Let_def)
    qed
  qed (simp add: escapeString.simps)
qed

lemma compact_quoteString: "compact False (quoteString s @ t) = quoteString s @ compact False t"
  using compact_escapeString [of s "CHR 0x22 # t"] by (simp add: quoteString_def)

text \<open>The bytes of a number literal.\<close>

definition numberByte :: "char \<Rightarrow> bool" where
  "numberByte c = (isDigit c \<or> c \<in> {CHR ''-'', CHR ''+'', CHR ''.'', CHR ''e'', CHR ''E''})"

lemma numberByte_simps [simp]:
  "isDigit c \<Longrightarrow> numberByte c" "numberByte (CHR ''-'')" "numberByte (CHR ''+'')" "numberByte (CHR ''.'')"
  "numberByte (CHR ''0'')"
  by (simp_all add: numberByte_def isDigit_def)

lemma numberByte_exponent: "lowerChar c = CHR ''e'' \<Longrightarrow> numberByte c"
proof -
  assume "lowerChar c = CHR ''e''"
  then have "c = CHR ''e'' \<or> c = CHR ''E''"
    by (auto simp: lowerChar_def Let_def split: if_splits intro!: char_eqI
        dest!: arg_cong [where f = "of_char :: char \<Rightarrow> nat"])
  then show ?thesis by (auto simp: numberByte_def)
qed

lemma numberByte_digits: "c \<in> set (takeWhile isDigit s) \<Longrightarrow> numberByte c"
  by (auto dest: set_takeWhileD)

lemma scan_bytes:
  "scanInt s = Some (l, r) \<Longrightarrow> c \<in> set l \<Longrightarrow> numberByte c"
  "scanFrac s = Some (l, r) \<Longrightarrow> c \<in> set l \<Longrightarrow> numberByte c"
  "scanExpo s = Some (l, r) \<Longrightarrow> c \<in> set l \<Longrightarrow> numberByte c"
  by (auto simp: scanInt_def scanFrac_def scanExpo_def spanDigits_def numberByte_exponent Let_def
      dest: numberByte_digits split: list.splits if_splits)

lemma goodLiteral_bytes: "goodLiteral s \<Longrightarrow> c \<in> set s \<Longrightarrow> plainByte c \<and> \<not> isSpaceChar c"
proof -
  assume "goodLiteral s" "c \<in> set s"
  then have "numberByte c"
    by (auto simp: goodLiteral_def scanNumber_def Let_def split: option.splits if_splits)
      (metis scan_bytes)+
  then show ?thesis by (auto simp: numberByte_def plainByte_def isSpaceChar_def isDigit_def)
qed

lemma compact_joinWith:
  assumes "\<And>x t. x \<in> set xs \<Longrightarrow> compact False (f x @ t) = f x @ compact False t"
  shows "compact False (joinWith '','' (map f xs) @ t) = joinWith '','' (map f xs) @ compact False t"
  using assms
proof (induction xs arbitrary: t rule: induct_list012)
  case (3 x y xs)
  then have "compact False (joinWith '','' (map f (y # xs)) @ t) = joinWith '','' (map f (y # xs)) @ compact False t"
    by (intro "3.IH"(2)) auto
  with 3(3) [of x] show ?case by (simp add: isSpaceChar_def)
qed simp_all

lemma compact_printJson: "goodJson j \<Longrightarrow> compact False (printJson j @ t) = printJson j @ compact False t"
proof (induction j arbitrary: t)
  case (JNum s)
  then show ?case using goodLiteral_bytes by (simp add: compact_plain)
next
  case (JArr js)
  then have "compact False (joinWith '','' (map printJson js) @ u) = joinWith '','' (map printJson js) @ compact False u" for u
    by (intro compact_joinWith) (auto simp: list_all_iff)
  then show ?case by (simp add: isSpaceChar_def)
next
  case (JObj kvs)
  let ?pr = "\<lambda>(k, j). quoteString k @ '':'' @ printJson j"
  have "compact False (?pr x @ u) = ?pr x @ compact False u" if "x \<in> set kvs" for x u
  proof -
    obtain k j where x: "x = (k, j)" by fastforce
    with that JObj.prems have "goodJson j" by (auto simp: list_all_iff)
    then have "compact False (printJson j @ u) = printJson j @ compact False u"
      using JObj.IH [OF that, of j] x by simp
    then show ?thesis by (simp add: x compact_quoteString isSpaceChar_def)
  qed
  then have "compact False (joinWith '','' (map ?pr kvs) @ u) = joinWith '','' (map ?pr kvs) @ compact False u" for u
    by (rule compact_joinWith)
  then show ?case by (simp add: isSpaceChar_def)
qed (auto simp: compact_quoteString formatBool_def isSpaceChar_def)

section \<open>Raw members\<close>

lemma rawText_printJson: "goodJson j \<Longrightarrow> rawText (printJson j @ t) t = printJson j"
  by (simp add: rawText_def skipSpace_printJson)

lemma rawMembers_print:
  assumes "kvs \<noteq> []" and "list_all (\<lambda>(k, j). goodJson j) kvs"
    and "sum_list (map (\<lambda>(k, j). Suc (need j)) kvs) \<le> n"
  shows "rawMembers n (joinWith '','' (map (\<lambda>(k, j). quoteString k @ '':'' @ printJson j) kvs) @ CHR ''}'' # t)
           = Some (map (\<lambda>(k, j). (sanitize k, printJson j)) kvs)"
  using assms
proof (induction kvs arbitrary: n rule: induct_list012)
  case (2 kj)
  obtain k j where kj: "kj = (k, j)" by fastforce
  with 2 obtain m where m: "n = Suc m" "need j \<le> m" by (cases n) auto
  with 2 kj show ?case
    by (simp add: parsesBackD printJson_parsesBack rawText_printJson skipSpace_nonspace quoteString_def parseString_escapeString)
next
  case (3 kj kj' kvs)
  obtain k j where kj: "kj = (k, j)" by fastforce
  with 3 obtain m where m: "n = Suc m" "need j \<le> m" "sum_list (map (\<lambda>(k, j). Suc (need j)) (kj' # kvs)) \<le> m"
    by (cases n) auto
  with 3 have "rawMembers m (joinWith '','' (map (\<lambda>(k, j). quoteString k @ '':'' @ printJson j) (kj' # kvs)) @ CHR ''}'' # t)
      = Some (map (\<lambda>(k, j). (sanitize k, printJson j)) (kj' # kvs))"
    by (intro "3.IH"(2)) auto
  with 3 m kj show ?case
    by (simp add: parsesBackD printJson_parsesBack rawText_printJson skipSpace_nonspace quoteString_def parseString_escapeString)
qed simp

lemma rawObject_printJson:
  assumes "goodJson (JObj kvs)"
  shows "rawObject (printJson (JObj kvs)) = map (\<lambda>(k, j). (sanitize k, printJson j)) kvs"
proof (cases kvs)
  case (Cons kj kvs')
  let ?pr = "\<lambda>(k, j). quoteString k @ '':'' @ printJson j"
  let ?body = "joinWith '','' (map ?pr kvs) @ [CHR ''}'']"
  have "need (JObj kvs) < 2 * length (printJson (JObj kvs))" using assms by (rule need_less)
  then have raw: "rawMembers (2 * length (printJson (JObj kvs)) + 2) ?body = Some (map (\<lambda>(k, j). (sanitize k, printJson j)) kvs)"
    using assms Cons by (intro rawMembers_print) auto
  obtain k j where "kj = (k, j)" by fastforce
  then obtain cs where "?body = CHR 0x22 # cs"
    using hd_joinWith [of "?pr kj" "'',''" "map ?pr kvs'"] Cons
    by (cases "joinWith '','' (map ?pr kvs)") (auto simp: quoteString_def)
  then have "skipSpace ?body = ?body" and first: "take 1 ?body \<noteq> [CHR ''}'']"
    by (simp_all add: skipSpace_nonspace)
  moreover have "drop 1 (skipSpace (printJson (JObj kvs))) = ?body" by (simp add: skipSpace_nonspace)
  ultimately have "skipSpace (drop 1 (skipSpace (printJson (JObj kvs)))) = ?body" by (simp only:)
  with raw first show ?thesis by (simp only: rawObject_def Let_def if_False option.case)
qed (simp add: rawObject_def skipSpace_nonspace)

section \<open>Envelopes\<close>

lemma commandEnvelope_print:
  "goodJson j \<Longrightarrow> commandEnvelope command rid (printJson j)
     = printJson (JObj [(''command'', JStr command), (''request_id'', JStr rid), (''payload'', j)])"
  using compact_printJson [of j "[]"] by (simp add: commandEnvelope_def)

lemma insort_map_snd:
  "insort_key fst (k, f v) (map (\<lambda>(k, v). (k, f v)) m) = map (\<lambda>(k, v). (k, f v)) (insort_key fst (k, v) m)"
  by (induction m) auto

lemma marshalRaw_print:
  assumes "goodJson (JObj kvs)"
  shows "marshalRaw (map (\<lambda>(k, j). (k, printJson j)) kvs) = printJson (JObj (sort_key fst kvs))"
proof -
  have sort: "sort_key fst (map (\<lambda>(k, j). (k, printJson j)) kvs) = map (\<lambda>(k, j). (k, printJson j)) (sort_key fst kvs)"
    by (induction kvs) (auto simp: insort_map_snd)
  have "compact False (printJson j) = printJson j" if "(k, j) \<in> set (sort_key fst kvs)" for k j
    using that assms compact_printJson [of j "[]"] by (auto simp: list_all_iff)
  then have "map (\<lambda>(k, t). quoteString k @ '':'' @ compact False t) (map (\<lambda>(k, j). (k, printJson j)) (sort_key fst kvs))
      = map (\<lambda>(k, j). quoteString k @ '':'' @ printJson j) (sort_key fst kvs)"
    by auto
  then show ?thesis by (simp add: marshalRaw_def sort del: map_map)
qed

lemma aput_map_snd: "aput k (f v) (map (\<lambda>(k, v). (k, f v)) m) = map (\<lambda>(k, v). (k, f v)) (aput k v m)"
  by (induction k v m rule: aput.induct) auto

lemma list_all_sort: "list_all P (sort_key f xs) = list_all P xs"
  by (simp add: list_all_iff)

lemma list_all_aput: "list_all P m \<Longrightarrow> P (k, v) \<Longrightarrow> list_all P (aput k v m)"
  by (induction k v m rule: aput.induct) auto

text \<open>\<^verbatim>\<open>withClientID\<close> on a marshalled object adds or replaces one member and keeps the others.\<close>

lemma withClientID_print:
  assumes "goodJson (JObj kvs)" and "validJson (JObj kvs)" and "distinct (map fst kvs)"
  shows "withClientID (printJson (JObj kvs)) cid = Inr (printJson (JObj (sort_key fst (aput ''client_id'' (JStr cid) kvs))))"
proof -
  have "rawObject (printJson (JObj kvs)) = map (\<lambda>(k, j). (k, printJson j)) kvs"
    using assms(2) unfolding rawObject_printJson [OF assms(1)] by (auto simp: list_all_iff sanitize_valid)
  moreover have "makeMap (map (\<lambda>(k, j). (k, printJson j)) kvs) = map (\<lambda>(k, j). (k, printJson j)) kvs"
    using assms(3) by (intro makeMap_distinct) (simp add: comp_def case_prod_beta)
  moreover have "parseJson (printJson (JObj kvs)) = Some (JObj kvs)"
    using assms(1,2) by (simp only: parseJson_printJson sanitizeJson_valid)
  ultimately have "unmarshalRaw (printJson (JObj kvs)) = Inr (Some (map (\<lambda>(k, j). (k, printJson j)) kvs))"
    by (simp add: unmarshalRaw_def del: printJson.simps)
  moreover have "aput ''client_id'' (quoteString cid) (map (\<lambda>(k, j). (k, printJson j)) kvs)
      = map (\<lambda>(k, j). (k, printJson j)) (aput ''client_id'' (JStr cid) kvs)"
    using aput_map_snd [of "''client_id''" printJson "JStr cid" kvs] by simp
  moreover have "goodJson (JObj (aput ''client_id'' (JStr cid) kvs))"
    using assms(1) by (simp add: list_all_aput)
  ultimately show ?thesis
    using marshalRaw_print [of "aput ''client_id'' (JStr cid) kvs"] by (simp add: withClientID_def del: printJson.simps(6)) (simp)
qed

lemma isHexDigit_ascii: "isHexDigit c \<Longrightarrow> (of_char c :: nat) < 128"
  by (auto simp: isHexDigit_def isDigit_def isHexLetter_def lowerChar_def Let_def split: if_splits)

lemma validString_newRequestID: "newRequestID (Inr b) = Inr rid \<Longrightarrow> validString rid"
  by (rule validString_ascii)
    (auto simp: newRequestID_def formatUUID_def dest!: isHexDigit_hexBytes isHexDigit_ascii)

section \<open>Properties\<close>

text \<open>C17. Over HTTP a command is one request: a POST to the endpoint whose body is JSON that reads back as the
  command, the request id and the payload object of the method, inside a transaction with the client id as
  one more member of the payload and every other member unchanged. Its reply is the result.\<close>

theorem http_request_envelope:
  assumes "jsonOfReflect payload = Some (JObj kvs)"
    and "goodJson (JObj kvs)" and "validJson (JObj kvs)" and "distinct (map fst kvs)"
    and "validString command" and "validString (txClientID c)"
    and "randomBytes pf (world env) = (Inr b, w1)" and "checkURL pf (endpoint c) = None"
    and "doRequest pf (timeout (config c)) ctx req w1 = (Inr resp, w2)"
    and "req = httpRequest c (printJson envelope)"
    and "envelope = JObj [(''command'', JStr command), (''request_id'', JStr (formatUUID (stampVersion b))),
      (''payload'', JObj (if txClientID c = [] then kvs else sort_key fst (aput ''client_id'' (JStr (txClientID c)) kvs)))]"
  shows "sendHTTP pf c ctx command payload env = (httpReply resp, env\<lparr>world := w2\<rparr>)
    \<and> reqMethod req = ''POST'' \<and> reqURL req = endpoint c \<and> parseJson (reqBody req) = Some envelope"
proof -
  let ?p = "JObj (if txClientID c = [] then kvs else sort_key fst (aput ''client_id'' (JStr (txClientID c)) kvs))"
  have good: "goodJson ?p" using assms(2) by (simp add: list_all_sort list_all_aput)
  have valid: "validJson ?p" using assms(3,6) by (simp add: list_all_sort list_all_aput validString_ascii_Cons)
  have payload: "(if txClientID c \<noteq> [] then withClientID (printJson (JObj kvs)) (txClientID c) else Inr (printJson (JObj kvs)))
      = Inr (printJson ?p)"
    using withClientID_print [OF assms(2-4), of "txClientID c"] by (simp del: printJson.simps)
  have rid: "newRequestID (Inr b) = Inr (formatUUID (stampVersion b))" by (simp add: newRequestID_def)
  have "goodJson envelope" using good assms(11) by simp
  moreover have "validJson envelope" using valid assms(5,11) validString_newRequestID [OF rid] by (simp add: validString_ascii_Cons)
  ultimately have "parseJson (printJson envelope) = Some envelope" by (simp only: parseJson_printJson sanitizeJson_valid)
  moreover have "sendHTTP pf c ctx command payload env = (httpReply resp, env\<lparr>world := w2\<rparr>)"
    using assms(1,7-11) payload rid commandEnvelope_print [OF good]
    by (simp add: sendHTTP_def marshalReflect_def del: printJson.simps)
  ultimately show ?thesis using assms(10) by (simp add: httpRequest_def del: printJson.simps)
qed

text \<open>The envelope of a reply.\<close>

definition replyEnvelope :: "bool \<Rightarrow> string \<Rightarrow> json \<Rightarrow> string option \<Rightarrow> json" where
  "replyEnvelope ok rid j err =
     JObj [(''success'', JBool ok), (''request_id'', JStr rid), (''payload'', j),
           (''error'', case err of None \<Rightarrow> JNull | Some m \<Rightarrow> JStr m)]"

text \<open>C18. From the HTTP reply to the result: a status outside 200--299 is a server error with the status and
  the body; otherwise the envelope decides: on success the response is the payload's own text, byte for
  byte, on failure the server's message, or \<^verbatim>\<open>unknown error\<close> when it sent none.\<close>

theorem http_reply_envelope:
  assumes "goodJson j" and "validJson j" and "validString rid" and "\<forall>m. err = Some m \<longrightarrow> validString m"
  shows "httpReply \<lparr>statusCode = st, respBody = Inr (printJson (replyEnvelope ok rid j err))\<rparr> =
    (if st < 200 \<or> 300 \<le> st
     then Inl (newServerError (''HTTP '' @ formatInt st @ '': '' @ printJson (replyEnvelope ok rid j err)))
     else if ok then Inr (jsonResponse (printJson j))
     else Inl (newServerError (case err of Some m \<Rightarrow> m | None \<Rightarrow> ''unknown error'')))"
proof -
  let ?env = "replyEnvelope ok rid j err"
  have good: "goodJson ?env" using assms(1) by (simp add: replyEnvelope_def split: option.splits)
  have "validJson ?env" using assms(2-4) by (auto simp: replyEnvelope_def validString_ascii_Cons split: option.splits)
  with good have parse: "parseJson (printJson ?env) = Some ?env" by (simp only: parseJson_printJson sanitizeJson_valid)
  have raw: "rawObject (printJson ?env) = [(''success'', formatBool ok), (''request_id'', quoteString rid), (''payload'', printJson j),
      (''error'', printJson (case err of None \<Rightarrow> JNull | Some m \<Rightarrow> JStr m))]"
    using good unfolding replyEnvelope_def by (simp add: rawObject_printJson sanitize_valid validString_ascii_Cons del: printJson.simps(6))
  have payload: "rawPayload (printJson ?env) = printJson j"
    by (simp add: rawPayload_def raw findField_def envelopeFields_def payloadField_def fld_def wireName_def jsonFieldName_def
        lowerChar_def)
  have "unmarshalEnvelope (printJson ?env) = Inr \<lparr>envSuccess = ok, envRequestID = rid, envPayload = printJson j, envError = err\<rparr>"
    using parse payload by (cases err) (simp_all add: unmarshalEnvelope_def replyEnvelope_def decodeJson.simps envelopeFields_def
        fld_def wireName_def jsonFieldName_def membersFor_def findField_def lowerChar_def del: printJson.simps)
  then show ?thesis by (simp add: httpReply_def)
qed

theorem http_reply_envelope_witness:
  "httpReply \<lparr>statusCode = 200, respBody = Inr (printJson (replyEnvelope True ''r'' (JStr ''v'') None))\<rparr>
     = Inr (jsonResponse (printJson (JStr ''v'')))
   \<and> httpReply \<lparr>statusCode = 200, respBody = Inr (printJson (replyEnvelope False ''r'' JNull (Some ''no'')))\<rparr>
     = Inl (newServerError ''no'')"
  using http_reply_envelope [of "JStr ''v''" "''r''" None 200 True] http_reply_envelope [of JNull "''r''" "Some ''no''" 200 False]
  by (simp add: validString_ascii_Cons)

text \<open>A server that answers every request with the same envelope, and a client in a transaction.\<close>

definition sampleReply :: http_response where
  "sampleReply = \<lparr>statusCode = 200, respBody = Inr (printJson (replyEnvelope True ''r'' (JStr ''v'') None))\<rparr>"

definition samplePlatform :: "unit platform" where
  "samplePlatform =
     \<lparr>thunder = obligingThunder, net = samplePeer, checkURL = (\<lambda>u. None), doRequest = (\<lambda>d ctx r w. (Inr sampleReply, w)),
      randomBytes = (\<lambda>w. (Inr (replicate 16 0), w))\<rparr>"

definition sampleClient :: SynapClient where
  "sampleClient = (NewClient (NewConfig ''http://h''))\<lparr>txClientID := ''t''\<rparr>"

definition sampleEnvelope :: json where
  "sampleEnvelope = JObj [(''command'', JStr ''kv.del''), (''request_id'', JStr (formatUUID (stampVersion (replicate 16 0)))),
     (''payload'', JObj (sort_key fst (aput ''client_id'' (JStr ''t'') [(''key'', JStr ''k'')])))]"

theorem http_request_envelope_witness:
  "sendHTTP samplePlatform sampleClient \<lparr>ctxDeadline = None\<rparr> ''kv.del'' (RStruct [fld ''Key'' ''key'' (RString ''k'')])
       \<lparr>rpcClient = None, r3Conn = None, world = ()\<rparr>
     = (httpReply sampleReply, \<lparr>rpcClient = None, r3Conn = None, world = ()\<rparr>)
   \<and> reqMethod (httpRequest sampleClient (printJson sampleEnvelope)) = ''POST''
   \<and> reqURL (httpRequest sampleClient (printJson sampleEnvelope)) = endpoint sampleClient
   \<and> parseJson (reqBody (httpRequest sampleClient (printJson sampleEnvelope))) = Some sampleEnvelope"
proof -
  have "jsonOfReflect (RStruct [fld ''Key'' ''key'' (RString ''k'')]) = Some (JObj [(''key'', JStr ''k'')])"
    by (simp add: fld_def jsonKeepField_def wireName_def jsonFieldName_def optAll_def)
  from http_request_envelope [OF this, of "''kv.del''" sampleClient samplePlatform
      "\<lparr>rpcClient = None, r3Conn = None, world = ()\<rparr>" "replicate 16 0" "()" "\<lparr>ctxDeadline = None\<rparr>"
      "httpRequest sampleClient (printJson sampleEnvelope)" sampleReply "()" sampleEnvelope]
  show ?thesis
    by (simp add: validString_ascii_Cons samplePlatform_def sampleClient_def sampleEnvelope_def del: printJson.simps)
qed

end
