(* ===== verification/Module_Base.thy ===== *)
theory Module_Base
  imports Client
begin

text \<open>
  What the module methods share: a command is sent, a failure is returned as it is, the reply is decoded
  into a struct declared on the spot, and a reply that does not decode becomes an \<^verbatim>\<open>invalid_response\<close>
  error naming the command. A method is a definition over the \<open>sender\<close> of its client
  (\<open>sendCommand pf c ctx\<close>), so the same definition runs on every transport. A nil and an empty slice
  are both \<open>[]\<close> in the results.
\<close>

section \<open>Calls\<close>

definition call :: "'w sender \<Rightarrow> string \<Rightarrow> rval \<Rightarrow> gtype \<Rightarrow> 'w env \<Rightarrow> (goerr + rval) \<times> 'w env" where
  "call send command payload t env =
     (case send command payload env of
        (Inl e, env') \<Rightarrow> (Inl e, env')
      | (Inr raw, env') \<Rightarrow>
          ((case decode raw t of
              Inl e \<Rightarrow> Inl (newInvalidResponseError (command @ '': '' @ errorText e))
            | Inr v \<Rightarrow> Inr v), env'))"

text \<open>\<^verbatim>\<open>_, err := sendCommand(...); return err\<close>.\<close>

definition tell :: "'w sender \<Rightarrow> string \<Rightarrow> rval \<Rightarrow> 'w env \<Rightarrow> (goerr + unit) \<times> 'w env" where
  "tell send command payload env = apfst (map_sum id (\<lambda>_. ())) (send command payload env)"

text \<open>The value a method computes from the decoded struct.\<close>

definition yielding :: "('a \<Rightarrow> 'b) \<Rightarrow> (goerr + 'a) \<times> 'w env \<Rightarrow> (goerr + 'b) \<times> 'w env" where
  "yielding f x = apfst (map_sum id f) x"

lemma yielding_simps [simp]: "yielding f (Inr v, env) = (Inr (f v), env)" "yielding f (Inl e, env) = (Inl e, env)"
  by (simp_all add: yielding_def)

section \<open>Reading Go values\<close>

text \<open>Selection of a struct field and the contents of a value of a known type.\<close>

definition fieldOf :: "string \<Rightarrow> rval \<Rightarrow> rval" where
  "fieldOf name v =
     (case v of
        RStruct fs \<Rightarrow> (case List.find (\<lambda>(f, x). fieldName f = name) fs of Some (f, x) \<Rightarrow> x | None \<Rightarrow> ROther)
      | _ \<Rightarrow> ROther)"

fun strOf :: "rval \<Rightarrow> string" where
  "strOf (RString s) = s"
| "strOf _ = []"

fun boolOf :: "rval \<Rightarrow> bool" where
  "boolOf (RBool b) = b"
| "boolOf _ = False"

fun intOf :: "rval \<Rightarrow> int" where
  "intOf (RInt w i) = i"
| "intOf _ = 0"

fun natOf :: "rval \<Rightarrow> nat" where
  "natOf (RUint w n) = n"
| "natOf _ = 0"

fun floatOf :: "rval \<Rightarrow> float64" where
  "floatOf (RFloat f) = f"
| "floatOf _ = FNum False 0"

fun bytesOf :: "rval \<Rightarrow> string" where
  "bytesOf (RBytes (Some b)) = b"
| "bytesOf _ = []"

fun sliceOf :: "rval \<Rightarrow> rval list" where
  "sliceOf (RSlice (Some vs)) = vs"
| "sliceOf _ = []"

fun ptrOf :: "rval \<Rightarrow> rval option" where
  "ptrOf (RPtr p) = p"
| "ptrOf _ = None"

fun entriesOf :: "rval \<Rightarrow> (string \<times> rval) list" where
  "entriesOf (RMap (Some kvs)) = map (\<lambda>(k, v). (toString k, v)) kvs"
| "entriesOf _ = []"

definition strsOf :: "rval \<Rightarrow> string list" where
  "strsOf v = map strOf (sliceOf v)"

text \<open>A struct with one field, the usual decode target.\<close>

definition one :: "string \<Rightarrow> string \<Rightarrow> gtype \<Rightarrow> gtype" where
  "one name tag t = TStruct [fld name tag t]"

text \<open>A \<^verbatim>\<open>[]string\<close> argument; a nil one is taken as empty.\<close>

definition strSlice :: "string list \<Rightarrow> rval" where
  "strSlice ss = RSlice (Some (map RString ss))"

section \<open>Durations\<close>

text \<open>\<^verbatim>\<open>d.Seconds()\<close> of a positive duration in nanoseconds: \<^verbatim>\<open>float64(sec) + float64(nsec)/1e9\<close>.\<close>

definition durationSeconds :: "int \<Rightarrow> float64" where
  "durationSeconds d =
     (let sec = d div 1000000000; nsec = d mod 1000000000
      in case roundRat False (nat nsec) 1000000000 of
           FNum _ q \<Rightarrow> (let (num, den) = quotient_of (of_int sec + q) in roundRat False (nat num) (nat den))
         | f \<Rightarrow> f)"

lemma durationSeconds_whole:
  assumes "0 \<le> n"
  shows "durationSeconds (n * 1000000000) = floatOfInt n"
proof -
  have "roundRat False 0 1000000000 = FNum False 0" by (simp add: roundRat_def)
  then show ?thesis using assms by (simp add: durationSeconds_def floatOfInt_def quotient_of_int)
qed

end
