(* ===== verification/Transaction.thy ===== *)
theory Transaction
  imports Module_Base
begin

text \<open>
  \<^verbatim>\<open>transaction.go\<close>. A \<^verbatim>\<open>Tx\<close> is a copy of the client that carries the transaction's id; the modules
  reached through it are those of the other theories over the scoped client's sender.
\<close>

record Tx =
  scoped :: SynapClient
  clientID :: string

record ExecResult =
  exSuccess :: bool
  exAborted :: bool
  exResults :: "rval list"

definition execResultT :: gtype where
  "execResultT = TStruct [fld ''Success'' ''success'' TBool, fld ''Aborted'' ''aborted'' TBool,
     fld ''Results'' ''results'' (TSlice TIface)]"

definition toExecResult :: "rval \<Rightarrow> ExecResult" where
  "toExecResult v = \<lparr>exSuccess = boolOf (fieldOf ''Success'' v), exAborted = boolOf (fieldOf ''Aborted'' v),
     exResults = sliceOf (fieldOf ''Results'' v)\<rparr>"

definition scope :: "SynapClient \<Rightarrow> string \<Rightarrow> Tx" where
  "scope c cid = \<lparr>scoped = c\<lparr>txClientID := cid\<rparr>, clientID = cid\<rparr>"

definition txBegin :: "'w platform \<Rightarrow> SynapClient \<Rightarrow> 'w env \<Rightarrow> (goerr + Tx) \<times> 'w env" where
  "txBegin pf c env =
     (case randomBytes pf (world env) of
        (random, w) \<Rightarrow>
          ((case newRequestID random of
              Inl e \<Rightarrow> Inl (Errorf ''synap: generate transaction client_id'' (Some e))
            | Inr cid \<Rightarrow> Inr (scope c cid)), env\<lparr>world := w\<rparr>))"

definition txResume :: "SynapClient \<Rightarrow> string \<Rightarrow> Tx" where
  "txResume c cid = scope c cid"

text \<open>\<^verbatim>\<open>control\<close>: the payload is the client id with the extra entries assigned over it.\<close>

definition controlPayload :: "string \<Rightarrow> (string \<times> rval) list \<Rightarrow> rval" where
  "controlPayload cid extra =
     RMap (Some (map (\<lambda>(k, v). (RString k, RIface (Some v)))
       (foldl (\<lambda>m (k, v). aput k v m) [(''client_id'', RString cid)] extra)))"

definition control ::
  "'w platform \<Rightarrow> Tx \<Rightarrow> goctx \<Rightarrow> string \<Rightarrow> (string \<times> rval) list \<Rightarrow> 'w env \<Rightarrow> (goerr + response) \<times> 'w env" where
  "control pf tx ctx command extra env =
     sendCommand pf (scoped tx) ctx command (controlPayload (clientID tx) extra) env"

definition forget :: "(goerr + 'a) \<times> 'w env \<Rightarrow> (goerr + unit) \<times> 'w env" where
  "forget x = yielding (\<lambda>_. ()) x"

definition txMulti :: "'w platform \<Rightarrow> Tx \<Rightarrow> goctx \<Rightarrow> 'w env \<Rightarrow> (goerr + unit) \<times> 'w env" where
  "txMulti pf tx ctx env = forget (control pf tx ctx ''transaction.multi'' [] env)"

definition txDiscard :: "'w platform \<Rightarrow> Tx \<Rightarrow> goctx \<Rightarrow> 'w env \<Rightarrow> (goerr + unit) \<times> 'w env" where
  "txDiscard pf tx ctx env = forget (control pf tx ctx ''transaction.discard'' [] env)"

definition txWatch :: "'w platform \<Rightarrow> Tx \<Rightarrow> goctx \<Rightarrow> string list \<Rightarrow> 'w env \<Rightarrow> (goerr + unit) \<times> 'w env" where
  "txWatch pf tx ctx keys env =
     (if keys = [] then (Inl (SynapError ''InvalidArgument'' ''synap: Watch requires at least one key''), env)
      else forget (control pf tx ctx ''transaction.watch'' [(''keys'', strSlice keys)] env))"

definition txUnwatch :: "'w platform \<Rightarrow> Tx \<Rightarrow> goctx \<Rightarrow> 'w env \<Rightarrow> (goerr + unit) \<times> 'w env" where
  "txUnwatch pf tx ctx env = forget (control pf tx ctx ''transaction.unwatch'' [] env)"

definition txExec :: "'w platform \<Rightarrow> Tx \<Rightarrow> goctx \<Rightarrow> 'w env \<Rightarrow> (goerr + ExecResult) \<times> 'w env" where
  "txExec pf tx ctx env =
     (case control pf tx ctx ''transaction.exec'' [] env of
        (Inl e, env') \<Rightarrow> (Inl e, env')
      | (Inr raw, env') \<Rightarrow>
          ((case decode raw execResultT of
              Inl e \<Rightarrow> Inl (newInvalidResponseError (''transaction.exec: '' @ errorText e))
            | Inr v \<Rightarrow> Inr (toExecResult v)), env'))"

text \<open>\<^verbatim>\<open>TransactionManager.Multi\<close>: a new scope with MULTI already issued.\<close>

definition managerMulti :: "'w platform \<Rightarrow> SynapClient \<Rightarrow> goctx \<Rightarrow> 'w env \<Rightarrow> (goerr + Tx) \<times> 'w env" where
  "managerMulti pf c ctx env =
     (case txBegin pf c env of
        (Inl e, env') \<Rightarrow> (Inl e, env')
      | (Inr tx, env') \<Rightarrow> yielding (\<lambda>_. tx) (txMulti pf tx ctx env'))"

end
