(* ===== verification/KV.thy ===== *)
theory KV
  imports Module_Base
begin

text \<open>\<^verbatim>\<open>kv.go\<close> (the push subscription \<^verbatim>\<open>Watch\<close> is in \<open>Push\<close>) and \<^verbatim>\<open>KVStats\<close> of \<^verbatim>\<open>types.go\<close>.\<close>

record KVStats =
  TotalKeys :: int
  TotalMemoryBytes :: int
  HitRate :: float64

definition kvStatsT :: gtype where
  "kvStatsT = TStruct [fld ''TotalKeys'' ''total_keys'' (TInt 64),
     fld ''TotalMemoryBytes'' ''total_memory_bytes'' (TInt 64), fld ''HitRate'' ''hit_rate'' TFloat]"

definition toKVStats :: "rval \<Rightarrow> KVStats" where
  "toKVStats v = \<lparr>TotalKeys = intOf (fieldOf ''TotalKeys'' v),
     TotalMemoryBytes = intOf (fieldOf ''TotalMemoryBytes'' v), HitRate = floatOf (fieldOf ''HitRate'' v)\<rparr>"

definition keyPayload :: "string \<Rightarrow> rval" where
  "keyPayload key = RStruct [fld ''Key'' ''key'' (RString key)]"

definition kvSetPayload :: "string \<Rightarrow> string \<Rightarrow> int \<Rightarrow> rval" where
  "kvSetPayload key val ttl =
     RStruct [fld ''Key'' ''key'' (RString key), fld ''Value'' ''value'' (RString val),
       fld ''TTL'' ''ttl''
         (RPtr (if ttl > 0 then Some (RUint 64 (unat (uint64OfFloat (durationSeconds ttl)))) else None))]"

definition kvSet :: "'w sender \<Rightarrow> string \<Rightarrow> string \<Rightarrow> int \<Rightarrow> 'w env \<Rightarrow> (goerr + unit) \<times> 'w env" where
  "kvSet send key val ttl env = tell send ''kv.set'' (kvSetPayload key val ttl) env"

definition kvGet :: "'w sender \<Rightarrow> string \<Rightarrow> 'w env \<Rightarrow> (goerr + string) \<times> 'w env" where
  "kvGet send key env =
     (case send ''kv.get'' (keyPayload key) env of
        (Inl e, env') \<Rightarrow> (Inl e, env')
      | (Inr raw, env') \<Rightarrow>
          if isNull raw then (Inr [], env')
          else (case decode raw TString of
             Inl e \<Rightarrow> (Inl (newInvalidResponseError (''kv.get: '' @ errorText e)), env')
           | Inr v \<Rightarrow> (Inr (strOf v), env')))"

definition kvDelete :: "'w sender \<Rightarrow> string \<Rightarrow> 'w env \<Rightarrow> (goerr + bool) \<times> 'w env" where
  "kvDelete send key env =
     yielding (\<lambda>v. boolOf (fieldOf ''Deleted'' v))
       (call send ''kv.del'' (keyPayload key) (one ''Deleted'' ''deleted'' TBool) env)"

definition kvExists :: "'w sender \<Rightarrow> string \<Rightarrow> 'w env \<Rightarrow> (goerr + bool) \<times> 'w env" where
  "kvExists send key env =
     yielding (\<lambda>v. boolOf (fieldOf ''Exists'' v))
       (call send ''kv.exists'' (keyPayload key) (one ''Exists'' ''exists'' TBool) env)"

definition kvIncr :: "'w sender \<Rightarrow> string \<Rightarrow> 'w env \<Rightarrow> (goerr + int) \<times> 'w env" where
  "kvIncr send key env =
     yielding (\<lambda>v. intOf (fieldOf ''Value'' v))
       (call send ''kv.incr'' (keyPayload key) (one ''Value'' ''value'' (TInt 64)) env)"

definition kvDecr :: "'w sender \<Rightarrow> string \<Rightarrow> 'w env \<Rightarrow> (goerr + int) \<times> 'w env" where
  "kvDecr send key env =
     yielding (\<lambda>v. intOf (fieldOf ''Value'' v))
       (call send ''kv.decr'' (keyPayload key) (one ''Value'' ''value'' (TInt 64)) env)"

definition kvStats :: "'w sender \<Rightarrow> 'w env \<Rightarrow> (goerr + KVStats) \<times> 'w env" where
  "kvStats send env = yielding toKVStats (call send ''kv.stats'' (RStruct []) kvStatsT env)"

end
