(* ===== verification/Collections.thy ===== *)
theory Collections
  imports Module_Base
begin

text \<open>\<^verbatim>\<open>hash.go\<close>, \<^verbatim>\<open>list.go\<close> and \<^verbatim>\<open>set.go\<close>.\<close>

section \<open>Hashes\<close>

definition hashSet :: "'w sender \<Rightarrow> string \<Rightarrow> string \<Rightarrow> string \<Rightarrow> 'w env \<Rightarrow> (goerr + bool) \<times> 'w env" where
  "hashSet send key field val env =
     yielding (\<lambda>v. boolOf (fieldOf ''Success'' v))
       (call send ''hash.set''
          (RStruct [fld ''Key'' ''key'' (RString key), fld ''Field'' ''field'' (RString field),
                    fld ''Value'' ''value'' (RString val)])
          (one ''Success'' ''success'' TBool) env)"

definition fieldPayload :: "string \<Rightarrow> string \<Rightarrow> rval" where
  "fieldPayload key field = RStruct [fld ''Key'' ''key'' (RString key), fld ''Field'' ''field'' (RString field)]"

definition hashGet :: "'w sender \<Rightarrow> string \<Rightarrow> string \<Rightarrow> 'w env \<Rightarrow> (goerr + string) \<times> 'w env" where
  "hashGet send key field env =
     yielding (\<lambda>v. case ptrOf (fieldOf ''Value'' v) of None \<Rightarrow> [] | Some s \<Rightarrow> strOf s)
       (call send ''hash.get'' (fieldPayload key field) (one ''Value'' ''value'' (TPtr TString)) env)"

definition hashGetAll :: "'w sender \<Rightarrow> string \<Rightarrow> 'w env \<Rightarrow> (goerr + (string \<times> string) list) \<times> 'w env" where
  "hashGetAll send key env =
     yielding (\<lambda>v. map (\<lambda>(k, s). (k, strOf s)) (entriesOf (fieldOf ''Fields'' v)))
       (call send ''hash.getall'' (RStruct [fld ''Key'' ''key'' (RString key)])
          (one ''Fields'' ''fields'' (TMap TString)) env)"

definition hashDel :: "'w sender \<Rightarrow> string \<Rightarrow> string \<Rightarrow> 'w env \<Rightarrow> (goerr + int) \<times> 'w env" where
  "hashDel send key field env =
     yielding (\<lambda>v. intOf (fieldOf ''Deleted'' v))
       (call send ''hash.del''
          (RStruct [fld ''Key'' ''key'' (RString key), fld ''Field'' ''field'' (RString field),
                    fld ''Fields'' ''fields'' (strSlice [field])])
          (one ''Deleted'' ''deleted'' (TInt 64)) env)"

definition hashExists :: "'w sender \<Rightarrow> string \<Rightarrow> string \<Rightarrow> 'w env \<Rightarrow> (goerr + bool) \<times> 'w env" where
  "hashExists send key field env =
     yielding (\<lambda>v. boolOf (fieldOf ''Exists'' v))
       (call send ''hash.exists'' (fieldPayload key field) (one ''Exists'' ''exists'' TBool) env)"

section \<open>Lists\<close>

definition pushPayload :: "string \<Rightarrow> string list \<Rightarrow> rval" where
  "pushPayload key vals = RStruct [fld ''Key'' ''key'' (RString key), fld ''Values'' ''values'' (strSlice vals)]"

definition lengthT :: gtype where
  "lengthT = one ''Length'' ''length'' (TInt 64)"

definition listLPush :: "'w sender \<Rightarrow> string \<Rightarrow> string list \<Rightarrow> 'w env \<Rightarrow> (goerr + int) \<times> 'w env" where
  "listLPush send key vals env =
     yielding (\<lambda>v. intOf (fieldOf ''Length'' v)) (call send ''list.lpush'' (pushPayload key vals) lengthT env)"

definition listRPush :: "'w sender \<Rightarrow> string \<Rightarrow> string list \<Rightarrow> 'w env \<Rightarrow> (goerr + int) \<times> 'w env" where
  "listRPush send key vals env =
     yielding (\<lambda>v. intOf (fieldOf ''Length'' v)) (call send ''list.rpush'' (pushPayload key vals) lengthT env)"

definition popPayload :: "string \<Rightarrow> int \<Rightarrow> rval" where
  "popPayload key count =
     RStruct [fld ''Key'' ''key'' (RString key),
       fld ''Count'' ''count,omitempty'' (RPtr (if count > 0 then Some (RInt 64 count) else None))]"

definition valuesT :: gtype where
  "valuesT = one ''Values'' ''values'' (TSlice TString)"

definition listLPop :: "'w sender \<Rightarrow> string \<Rightarrow> int \<Rightarrow> 'w env \<Rightarrow> (goerr + string list) \<times> 'w env" where
  "listLPop send key count env =
     yielding (\<lambda>v. strsOf (fieldOf ''Values'' v)) (call send ''list.lpop'' (popPayload key count) valuesT env)"

definition listRPop :: "'w sender \<Rightarrow> string \<Rightarrow> int \<Rightarrow> 'w env \<Rightarrow> (goerr + string list) \<times> 'w env" where
  "listRPop send key count env =
     yielding (\<lambda>v. strsOf (fieldOf ''Values'' v)) (call send ''list.rpop'' (popPayload key count) valuesT env)"

definition rangePayload :: "string \<Rightarrow> int \<Rightarrow> int \<Rightarrow> rval" where
  "rangePayload key start stop =
     RStruct [fld ''Key'' ''key'' (RString key), fld ''Start'' ''start'' (RInt 64 start),
              fld ''Stop'' ''stop'' (RInt 64 stop)]"

definition listRange :: "'w sender \<Rightarrow> string \<Rightarrow> int \<Rightarrow> int \<Rightarrow> 'w env \<Rightarrow> (goerr + string list) \<times> 'w env" where
  "listRange send key start stop env =
     yielding (\<lambda>v. strsOf (fieldOf ''Values'' v)) (call send ''list.range'' (rangePayload key start stop) valuesT env)"

definition listLen :: "'w sender \<Rightarrow> string \<Rightarrow> 'w env \<Rightarrow> (goerr + int) \<times> 'w env" where
  "listLen send key env =
     yielding (\<lambda>v. intOf (fieldOf ''Length'' v))
       (call send ''list.len'' (RStruct [fld ''Key'' ''key'' (RString key)]) lengthT env)"

section \<open>Sets\<close>

definition membersPayload :: "string \<Rightarrow> string list \<Rightarrow> rval" where
  "membersPayload key members =
     RStruct [fld ''Key'' ''key'' (RString key), fld ''Members'' ''members'' (strSlice members)]"

definition setAdd :: "'w sender \<Rightarrow> string \<Rightarrow> string list \<Rightarrow> 'w env \<Rightarrow> (goerr + int) \<times> 'w env" where
  "setAdd send key members env =
     yielding (\<lambda>v. intOf (fieldOf ''Added'' v))
       (call send ''set.add'' (membersPayload key members) (one ''Added'' ''added'' (TInt 64)) env)"

definition setMembers :: "'w sender \<Rightarrow> string \<Rightarrow> 'w env \<Rightarrow> (goerr + string list) \<times> 'w env" where
  "setMembers send key env =
     yielding (\<lambda>v. strsOf (fieldOf ''Members'' v))
       (call send ''set.members'' (RStruct [fld ''Key'' ''key'' (RString key)])
          (one ''Members'' ''members'' (TSlice TString)) env)"

definition setIsMember :: "'w sender \<Rightarrow> string \<Rightarrow> string \<Rightarrow> 'w env \<Rightarrow> (goerr + bool) \<times> 'w env" where
  "setIsMember send key member env =
     yielding (\<lambda>v. boolOf (fieldOf ''IsMember'' v))
       (call send ''set.ismember''
          (RStruct [fld ''Key'' ''key'' (RString key), fld ''Member'' ''member'' (RString member)])
          (one ''IsMember'' ''is_member'' TBool) env)"

definition setRemove :: "'w sender \<Rightarrow> string \<Rightarrow> string list \<Rightarrow> 'w env \<Rightarrow> (goerr + int) \<times> 'w env" where
  "setRemove send key members env =
     yielding (\<lambda>v. intOf (fieldOf ''Removed'' v))
       (call send ''set.rem'' (membersPayload key members) (one ''Removed'' ''removed'' (TInt 64)) env)"

definition setCard :: "'w sender \<Rightarrow> string \<Rightarrow> 'w env \<Rightarrow> (goerr + int) \<times> 'w env" where
  "setCard send key env =
     yielding (\<lambda>v. intOf (fieldOf ''Cardinality'' v))
       (call send ''set.card'' (RStruct [fld ''Key'' ''key'' (RString key)])
          (one ''Cardinality'' ''size'' (TInt 64)) env)"

end
