(* ===== verification/Messaging.thy ===== *)
theory Messaging
  imports Module_Base
begin

text \<open>
  \<^verbatim>\<open>queue.go\<close>, \<^verbatim>\<open>stream.go\<close>, the request methods of \<^verbatim>\<open>pubsub.go\<close>, and the structs of \<^verbatim>\<open>types.go\<close>
  they return.
\<close>

section \<open>Structs\<close>

record Message =
  msgID :: string
  msgPayload :: string
  msgPriority :: nat
  msgRetryCount :: nat
  msgMaxRetries :: nat
  msgDeadline :: "nat option"

definition messageT :: gtype where
  "messageT = TStruct [fld ''ID'' ''id'' TString, fld ''Payload'' ''payload'' TBytes,
     fld ''Priority'' ''priority'' (TUint 8), fld ''RetryCount'' ''retry_count'' (TUint 32),
     fld ''MaxRetries'' ''max_retries'' (TUint 32), fld ''Deadline'' ''deadline,omitempty'' (TPtr (TUint 64))]"

definition toMessage :: "rval \<Rightarrow> Message" where
  "toMessage v = \<lparr>msgID = strOf (fieldOf ''ID'' v), msgPayload = bytesOf (fieldOf ''Payload'' v),
     msgPriority = natOf (fieldOf ''Priority'' v), msgRetryCount = natOf (fieldOf ''RetryCount'' v),
     msgMaxRetries = natOf (fieldOf ''MaxRetries'' v),
     msgDeadline = map_option natOf (ptrOf (fieldOf ''Deadline'' v))\<rparr>"

record QueueStats =
  Depth :: int
  Consumers :: int
  Published :: nat
  Consumed :: nat
  Acked :: nat
  Nacked :: nat
  DeadLettered :: int

definition queueStatsT :: gtype where
  "queueStatsT = TStruct [fld ''Depth'' ''depth'' (TInt 64), fld ''Consumers'' ''consumers'' (TInt 64),
     fld ''Published'' ''published'' (TUint 64), fld ''Consumed'' ''consumed'' (TUint 64),
     fld ''Acked'' ''acked'' (TUint 64), fld ''Nacked'' ''nacked'' (TUint 64),
     fld ''DeadLettered'' ''dead_lettered'' (TInt 64)]"

definition toQueueStats :: "rval \<Rightarrow> QueueStats" where
  "toQueueStats v = \<lparr>Depth = intOf (fieldOf ''Depth'' v), Consumers = intOf (fieldOf ''Consumers'' v),
     Published = natOf (fieldOf ''Published'' v), Consumed = natOf (fieldOf ''Consumed'' v),
     Acked = natOf (fieldOf ''Acked'' v), Nacked = natOf (fieldOf ''Nacked'' v),
     DeadLettered = intOf (fieldOf ''DeadLettered'' v)\<rparr>"

record Event =
  evOffset :: nat
  evEvent :: string
  evData :: rval
  evTimestamp :: "nat option"

definition eventT :: gtype where
  "eventT = TStruct [fld ''Offset'' ''offset'' (TUint 64), fld ''Event'' ''event'' TString,
     fld ''Data'' ''data'' TIface, fld ''Timestamp'' ''timestamp,omitempty'' (TPtr (TUint 64))]"

definition toEvent :: "rval \<Rightarrow> Event" where
  "toEvent v = \<lparr>evOffset = natOf (fieldOf ''Offset'' v), evEvent = strOf (fieldOf ''Event'' v),
     evData = fieldOf ''Data'' v, evTimestamp = map_option natOf (ptrOf (fieldOf ''Timestamp'' v))\<rparr>"

record StreamStats =
  ssName :: string
  MessageCount :: int
  MinOffset :: nat
  MaxOffset :: nat
  TotalPublished :: nat
  TotalConsumed :: nat
  SubscriberCount :: int
  CreatedAt :: nat
  Generation :: nat

definition streamStatsT :: gtype where
  "streamStatsT = TStruct [fld ''Name'' ''name'' TString, fld ''MessageCount'' ''message_count'' (TInt 64),
     fld ''MinOffset'' ''min_offset'' (TUint 64), fld ''MaxOffset'' ''max_offset'' (TUint 64),
     fld ''TotalPublished'' ''total_published'' (TUint 64), fld ''TotalConsumed'' ''total_consumed'' (TUint 64),
     fld ''SubscriberCount'' ''subscriber_count'' (TInt 64), fld ''CreatedAt'' ''created_at'' (TUint 64),
     fld ''Generation'' ''generation'' (TUint 64)]"

definition toStreamStats :: "rval \<Rightarrow> StreamStats" where
  "toStreamStats v = \<lparr>ssName = strOf (fieldOf ''Name'' v), MessageCount = intOf (fieldOf ''MessageCount'' v),
     MinOffset = natOf (fieldOf ''MinOffset'' v), MaxOffset = natOf (fieldOf ''MaxOffset'' v),
     TotalPublished = natOf (fieldOf ''TotalPublished'' v), TotalConsumed = natOf (fieldOf ''TotalConsumed'' v),
     SubscriberCount = intOf (fieldOf ''SubscriberCount'' v), CreatedAt = natOf (fieldOf ''CreatedAt'' v),
     Generation = natOf (fieldOf ''Generation'' v)\<rparr>"

section \<open>Queues\<close>

text \<open>An optional integer that is sent only when positive.\<close>

definition positive :: "int \<Rightarrow> rval" where
  "positive n = RPtr (if n > 0 then Some (RInt 64 n) else None)"

definition queueCreate :: "'w sender \<Rightarrow> string \<Rightarrow> int \<Rightarrow> int \<Rightarrow> 'w env \<Rightarrow> (goerr + unit) \<times> 'w env" where
  "queueCreate send name maxDepth ackDeadline env =
     tell send ''queue.create''
       (RStruct [fld ''Name'' ''name'' (RString name),
          fld ''Config'' ''config,omitempty''
            (RPtr (if maxDepth > 0 \<or> ackDeadline > 0
                   then Some (RStruct [fld ''MaxDepth'' ''max_depth,omitempty'' (positive maxDepth),
                                       fld ''AckDeadlineSecs'' ''ack_deadline_secs,omitempty'' (positive ackDeadline)])
                   else None))]) env"

text \<open>The bytes of the message travel as a list of numbers.\<close>

definition queuePublishPayload :: "string \<Rightarrow> string \<Rightarrow> nat \<Rightarrow> nat \<Rightarrow> rval" where
  "queuePublishPayload name body priority maxRetries =
     RStruct [fld ''Queue'' ''queue'' (RString name),
       fld ''Payload'' ''payload'' (RSlice (Some (map (\<lambda>b. RInt 64 (int (of_char b))) body))),
       fld ''Priority'' ''priority'' (RUint 8 priority),
       fld ''MaxRetries'' ''max_retries,omitempty'' (RPtr (if maxRetries > 0 then Some (RUint 32 maxRetries) else None))]"

definition queuePublish ::
  "'w sender \<Rightarrow> string \<Rightarrow> string \<Rightarrow> nat \<Rightarrow> nat \<Rightarrow> 'w env \<Rightarrow> (goerr + string) \<times> 'w env" where
  "queuePublish send name body priority maxRetries env =
     yielding (\<lambda>v. strOf (fieldOf ''MessageID'' v))
       (call send ''queue.publish'' (queuePublishPayload name body priority maxRetries)
          (one ''MessageID'' ''message_id'' TString) env)"

text \<open>\<^verbatim>\<open>Consume\<close>: the reply is an object with the message or null under \<^verbatim>\<open>message\<close>; when that does not
  decode it is tried as a message itself.\<close>

definition queueConsume ::
  "'w sender \<Rightarrow> string \<Rightarrow> string \<Rightarrow> 'w env \<Rightarrow> (goerr + Message option) \<times> 'w env" where
  "queueConsume send name consumerID env =
     (case send ''queue.consume''
             (RStruct [fld ''Queue'' ''queue'' (RString name), fld ''ConsumerID'' ''consumer_id'' (RString consumerID)]) env of
        (Inl e, env') \<Rightarrow> (Inl e, env')
      | (Inr raw, env') \<Rightarrow>
          (case decode raw (one ''Message'' ''message'' (TPtr messageT)) of
             Inr wrapper \<Rightarrow> (Inr (map_option toMessage (ptrOf (fieldOf ''Message'' wrapper))), env')
           | Inl e \<Rightarrow>
               (case decode raw messageT of
                  Inl _ \<Rightarrow> (Inl (newInvalidResponseError (''queue.consume: '' @ errorText e)), env')
                | Inr m \<Rightarrow> (Inr (if msgID (toMessage m) = [] then None else Some (toMessage m)), env'))))"

definition ackPayload :: "string \<Rightarrow> string \<Rightarrow> rval" where
  "ackPayload name messageID =
     RStruct [fld ''Queue'' ''queue'' (RString name), fld ''MessageID'' ''message_id'' (RString messageID)]"

definition queueAck :: "'w sender \<Rightarrow> string \<Rightarrow> string \<Rightarrow> 'w env \<Rightarrow> (goerr + unit) \<times> 'w env" where
  "queueAck send name messageID env = tell send ''queue.ack'' (ackPayload name messageID) env"

definition queueNack :: "'w sender \<Rightarrow> string \<Rightarrow> string \<Rightarrow> 'w env \<Rightarrow> (goerr + unit) \<times> 'w env" where
  "queueNack send name messageID env = tell send ''queue.nack'' (ackPayload name messageID) env"

definition queueStats :: "'w sender \<Rightarrow> string \<Rightarrow> 'w env \<Rightarrow> (goerr + QueueStats) \<times> 'w env" where
  "queueStats send name env =
     yielding toQueueStats
       (call send ''queue.stats'' (RStruct [fld ''Queue'' ''queue'' (RString name)]) queueStatsT env)"

definition queueList :: "'w sender \<Rightarrow> 'w env \<Rightarrow> (goerr + string list) \<times> 'w env" where
  "queueList send env =
     yielding (\<lambda>v. strsOf (fieldOf ''Queues'' v))
       (call send ''queue.list'' (RStruct []) (one ''Queues'' ''queues'' (TSlice TString)) env)"

definition queueDelete :: "'w sender \<Rightarrow> string \<Rightarrow> 'w env \<Rightarrow> (goerr + unit) \<times> 'w env" where
  "queueDelete send name env = tell send ''queue.delete'' (RStruct [fld ''Queue'' ''queue'' (RString name)]) env"

section \<open>Streams\<close>

definition roomPayload :: "string \<Rightarrow> int \<Rightarrow> rval" where
  "roomPayload room maxEvents =
     RStruct [fld ''Room'' ''room'' (RString room), fld ''MaxEvents'' ''max_events,omitempty'' (positive maxEvents)]"

definition streamCreate :: "'w sender \<Rightarrow> string \<Rightarrow> int \<Rightarrow> 'w env \<Rightarrow> (goerr + unit) \<times> 'w env" where
  "streamCreate send room maxEvents env = tell send ''stream.create'' (roomPayload room maxEvents) env"

definition streamGetOrCreate :: "'w sender \<Rightarrow> string \<Rightarrow> int \<Rightarrow> 'w env \<Rightarrow> (goerr + bool) \<times> 'w env" where
  "streamGetOrCreate send room maxEvents env =
     yielding (\<lambda>v. boolOf (fieldOf ''Created'' v))
       (call send ''stream.get_or_create'' (roomPayload room maxEvents) (one ''Created'' ''created'' TBool) env)"

text \<open>\<open>data\<close> is an \<^verbatim>\<open>interface{}\<close>.\<close>

definition streamPublishPayload :: "string \<Rightarrow> string \<Rightarrow> rval option \<Rightarrow> rval" where
  "streamPublishPayload room eventType data =
     RStruct [fld ''Room'' ''room'' (RString room), fld ''Event'' ''event'' (RString eventType),
              fld ''Data'' ''data'' (RIface data)]"

definition streamPublish ::
  "'w sender \<Rightarrow> string \<Rightarrow> string \<Rightarrow> rval option \<Rightarrow> 'w env \<Rightarrow> (goerr + nat) \<times> 'w env" where
  "streamPublish send room eventType data env =
     yielding (\<lambda>v. natOf (fieldOf ''Offset'' v))
       (call send ''stream.publish'' (streamPublishPayload room eventType data) (one ''Offset'' ''offset'' (TUint 64)) env)"

definition streamConsumePayload :: "string \<Rightarrow> uint64 \<Rightarrow> int64 \<Rightarrow> rval" where
  "streamConsumePayload room offset limit =
     RStruct [fld ''Room'' ''room'' (RString room), fld ''SubscriberID'' ''subscriber_id'' (RString ''sdk-default''),
              fld ''FromOffset'' ''from_offset'' (RUint 64 (unat offset)), fld ''Limit'' ''limit'' (RInt 64 (sint limit))]"

definition streamConsume ::
  "'w sender \<Rightarrow> string \<Rightarrow> uint64 \<Rightarrow> int64 \<Rightarrow> 'w env \<Rightarrow> (goerr + Event list) \<times> 'w env" where
  "streamConsume send room offset limit env =
     yielding (\<lambda>v. map toEvent (sliceOf (fieldOf ''Events'' v)))
       (call send ''stream.consume'' (streamConsumePayload room offset limit)
          (one ''Events'' ''events'' (TSlice eventT)) env)"

definition streamStats :: "'w sender \<Rightarrow> string \<Rightarrow> 'w env \<Rightarrow> (goerr + StreamStats) \<times> 'w env" where
  "streamStats send room env =
     yielding toStreamStats
       (call send ''stream.stats'' (RStruct [fld ''Room'' ''room'' (RString room)]) streamStatsT env)"

definition streamList :: "'w sender \<Rightarrow> 'w env \<Rightarrow> (goerr + string list) \<times> 'w env" where
  "streamList send env =
     yielding (\<lambda>v. strsOf (fieldOf ''Rooms'' v))
       (call send ''stream.list'' (RStruct []) (one ''Rooms'' ''rooms'' (TSlice TString)) env)"

definition streamDelete :: "'w sender \<Rightarrow> string \<Rightarrow> 'w env \<Rightarrow> (goerr + unit) \<times> 'w env" where
  "streamDelete send room env = tell send ''stream.delete'' (RStruct [fld ''Room'' ''room'' (RString room)]) env"

section \<open>Publish and subscribe\<close>

definition pubsubPublish ::
  "'w sender \<Rightarrow> string \<Rightarrow> rval option \<Rightarrow> nat \<Rightarrow> 'w env \<Rightarrow> (goerr + int) \<times> 'w env" where
  "pubsubPublish send topic data priority env =
     yielding (\<lambda>v. intOf (fieldOf ''SubscribersMatched'' v))
       (call send ''pubsub.publish''
          (RStruct [fld ''Topic'' ''topic'' (RString topic), fld ''Payload'' ''payload'' (RIface data),
                    fld ''Priority'' ''priority'' (RUint 8 priority)])
          (one ''SubscribersMatched'' ''subscribers_matched'' (TInt 64)) env)"

definition subscriptionPayload :: "string \<Rightarrow> string list \<Rightarrow> rval" where
  "subscriptionPayload subscriberID topics =
     RStruct [fld ''SubscriberID'' ''subscriber_id'' (RString subscriberID), fld ''Topics'' ''topics'' (strSlice topics)]"

definition pubsubSubscribe ::
  "'w sender \<Rightarrow> string \<Rightarrow> string list \<Rightarrow> 'w env \<Rightarrow> (goerr + string) \<times> 'w env" where
  "pubsubSubscribe send subscriberID topics env =
     yielding (\<lambda>v. if strOf (fieldOf ''SubscriberID'' v) \<noteq> [] then strOf (fieldOf ''SubscriberID'' v)
                    else strOf (fieldOf ''SubscriptionID'' v))
       (call send ''pubsub.subscribe'' (subscriptionPayload subscriberID topics)
          (TStruct [fld ''SubscriberID'' ''subscriber_id'' TString, fld ''SubscriptionID'' ''subscription_id'' TString]) env)"

definition pubsubUnsubscribe ::
  "'w sender \<Rightarrow> string \<Rightarrow> string list \<Rightarrow> 'w env \<Rightarrow> (goerr + unit) \<times> 'w env" where
  "pubsubUnsubscribe send subscriberID topics env =
     tell send ''pubsub.unsubscribe'' (subscriptionPayload subscriberID topics) env"

definition pubsubListTopics :: "'w sender \<Rightarrow> 'w env \<Rightarrow> (goerr + string list) \<times> 'w env" where
  "pubsubListTopics send env =
     yielding (\<lambda>v. strsOf (fieldOf ''Topics'' v))
       (call send ''pubsub.topics'' (RStruct []) (one ''Topics'' ''topics'' (TSlice TString)) env)"

end
