(* ===== verification/Requests.thy ===== *)
theory Requests
  imports KV Collections Messaging
begin

text \<open>
  What the module methods put on the SynapRPC wire outside a transaction: the payload struct of a method, converted by
  \<open>payloadToMap\<close> and mapped by \<open>mapCommandToWire\<close>, as the raw command and its arguments.
\<close>

definition wireRequest :: "string \<Rightarrow> rval \<Rightarrow> goerr + wire_command" where
  "wireRequest command payload = mapCommandToWire command (payloadToMap payload) TransportSynapRPC"

lemmas request_simps = wireRequest_def payloadToMap.simps fld_def keepField_def wireName_def jsonFieldName_def
  makeMap_def mapCommandToWire.simps txClient_def wireCommand_def wire_defs getStr_def getStrSlice_def hasPrefix_def

lemma queueBytes_of_body:
  "queueBytes (map (\<lambda>b. payloadValue (RInt 64 (int (of_char b)))) body) = body"
proof -
  have "char_of (unat (byteOfFloat (floatOfInt (int (of_char b))))) = b" for b :: char
  proof -
    have "uint (of_nat (of_char b) :: 8 word) = int (of_char b)"
      using nat_of_char_less_256 [of b] by (simp add: uint_nat unat_of_nat)
    then have "byteOfFloat (floatOfInt (int (of_char b))) = (of_nat (of_char b) :: 8 word)"
      using byteOfFloat_floatOfInt [of "of_nat (of_char b)"] by simp
    then show ?thesis using nat_of_char_less_256 [of b] by (simp add: unat_of_nat)
  qed
  then show ?thesis by (simp add: queueBytes_def map_idI)
qed

section \<open>Durations below a second and offsets beyond the exact range\<close>

lemma roundHalfEven_le: "roundHalfEven a b \<le> Suc (a div b)"
  by (simp add: roundHalfEven_def Let_def)

lemma lastPlace_fraction:
  assumes "num < den"
  shows "lastPlace num den \<le> - 53"
proof -
  have "ndigits 2 num \<le> ndigits 2 den"
    using assms ndigits_upper [of 2 den] by (intro ndigits_le) auto
  with assms show ?thesis by (cases "ndigits 2 num = ndigits 2 den") (auto simp: lastPlace_def Let_def)
qed

text \<open>Rounding a fraction moves it by at most \<open>2^-53\<close>.\<close>

lemma roundRat_fraction:
  assumes "num < den"
  obtains q where "roundRat False num den = FNum False q" "0 \<le> q" "q \<le> of_nat num / of_nat den + 1 / 2 ^ 53"
proof (cases "num = 0")
  case True
  then show thesis using that [of 0] by (simp add: roundRat_def)
next
  case False
  define k where "k = nat (- lastPlace num den)"
  define m where "m = roundHalfEven (num * 2 ^ k) den"
  have e: "lastPlace num den \<le> - 53" using assms by (rule lastPlace_fraction)
  then have k: "53 \<le> k" by (simp add: k_def)
  have "m \<le> Suc (num * 2 ^ k div den)" unfolding m_def by (rule roundHalfEven_le)
  then have "(of_nat m :: rat) \<le> of_nat (num * 2 ^ k div den) + 1" by (metis of_nat_Suc of_nat_le_iff add.commute)
  also have "(of_nat (num * 2 ^ k div den) :: rat) \<le> of_nat (num * 2 ^ k) / of_nat den" by (rule of_nat_div_le_of_nat)
  finally have "(of_nat m :: rat) / 2 ^ k \<le> (of_nat num * 2 ^ k / of_nat den + 1) / 2 ^ k" by (simp add: divide_right_mono)
  also have "\<dots> = of_nat num / of_nat den + 1 / 2 ^ k" by (simp add: add_divide_distrib)
  also have "\<dots> \<le> of_nat num / of_nat den + 1 / 2 ^ 53"
    using k by (intro add_left_mono divide_left_mono power_increasing) simp_all
  finally have "(of_nat m :: rat) / 2 ^ k \<le> of_nat num / of_nat den + 1 / 2 ^ 53" .
  moreover from False e have "roundRat False num den = FNum False (of_nat m / 2 ^ k)"
    by (simp add: roundRat_def Let_def m_def k_def)
  ultimately show thesis using that [of "of_nat m / 2 ^ k"] by simp
qed

lemma duration_below_second:
  assumes "0 < d" and "d < 1000000000"
  shows "uint64OfFloat (durationSeconds d) = 0"
proof -
  obtain q where q: "roundRat False (nat d) 1000000000 = FNum False q" "0 \<le> q" "q \<le> of_nat (nat d) / of_nat 1000000000 + 1 / 2 ^ 53"
    by (rule roundRat_fraction [of "nat d" 1000000000]) (use assms in auto)
  have "nat d \<le> 999999999" using assms by simp
  then have "(of_nat (nat d) :: rat) \<le> of_nat 999999999" by (simp only: of_nat_le_iff)
  with q(3) have small: "q \<le> 999999999 / 1000000000 + 1 / 2 ^ 53" by simp
  obtain a b where ab: "quotient_of q = (a, b)" by fastforce
  then have "0 < b" and div: "q = of_int a / of_int b" using quotient_of_denom_pos quotient_of_div by blast+
  with q(2) small have "0 \<le> a" "a < b" by (auto simp: divide_simps split: if_splits)
  then have "nat a < nat b" by simp
  then obtain q' where q': "roundRat False (nat a) (nat b) = FNum False q'" "0 \<le> q'" "q' \<le> of_nat (nat a) / of_nat (nat b) + 1 / 2 ^ 53"
    by (rule roundRat_fraction)
  have "of_nat (nat a) / of_nat (nat b) = q" using div \<open>0 \<le> a\<close> \<open>0 < b\<close> by simp
  with q'(3) small have "q' < 1" by simp
  with q'(2) have "\<lfloor>q'\<rfloor> = 0" by (simp add: floor_eq_iff)
  moreover have "durationSeconds d = FNum False q'" using assms q(1) ab q'(1) by (simp add: durationSeconds_def)
  ultimately show ?thesis by (simp add: uint64OfFloat_def int64OfFloat_def truncFloat_def)
qed

text \<open>The even integers are the \<^verbatim>\<open>float64\<close> values between \<open>2^53\<close> and \<open>2^54\<close>.\<close>

definition toEven :: "int \<Rightarrow> int" where
  "toEven n = (if n mod 4 = 1 then n - 1 else if n mod 4 = 3 then n + 1 else n)"

lemma roundHalfEven_two: "int (roundHalfEven k 2 * 2) = toEven (int k)"
proof -
  obtain q r where k: "k = 4 * q + r" "r < 4" by (metis mult.commute mod_less_divisor zero_less_numeral div_mult_mod_eq)
  then consider "k = 4 * q" | "k = 4 * q + 1" | "k = 4 * q + 2" | "k = 4 * q + 3" by linarith
  then show ?thesis
  proof cases
    case 1
    then have "k div 2 = 2 * q" "k mod 2 = 0" "int k mod 4 = 0" by presburger+
    with 1 show ?thesis by (simp add: roundHalfEven_def toEven_def)
  next
    case 2
    then have "k div 2 = 2 * q" "k mod 2 = 1" "int k mod 4 = 1" by presburger+
    with 2 show ?thesis by (simp add: roundHalfEven_def toEven_def)
  next
    case 3
    then have "k div 2 = 2 * q + 1" "k mod 2 = 0" "int k mod 4 = 2" by presburger+
    with 3 show ?thesis by (simp add: roundHalfEven_def toEven_def)
  next
    case 4
    then have "k div 2 = 2 * q + 1" "k mod 2 = 1" "int k mod 4 = 3" by presburger+
    with 4 show ?thesis by (simp add: roundHalfEven_def toEven_def)
  qed
qed

lemma floatOfInt_even:
  assumes "2 ^ 53 \<le> n" and "n < 2 ^ 54"
  shows "floatOfInt n = FNum False (of_int (toEven n))"
proof -
  define k where "k = nat n"
  have k: "2 ^ 53 \<le> k" "k < 2 ^ 54" "n = int k" using assms by (simp_all add: k_def nat_less_iff le_nat_iff)
  have "ndigits 2 k \<le> 54" using k by (intro ndigits_le) auto
  moreover have "\<not> ndigits 2 k \<le> 53"
    using k ndigits_upper [of 2 k] power_increasing [of "ndigits 2 k" 53 "2 :: nat"] by auto
  ultimately have "ndigits 2 k = 54" by simp
  then have "lastPlace k 1 = 1" using k by (simp add: lastPlace_def)
  moreover have "int (roundHalfEven k 2 * 2) = toEven (int k)" by (rule roundHalfEven_two)
  then have "(of_nat (roundHalfEven k 2 * 2) :: rat) = of_int (toEven (int k))" by (metis of_int_of_nat_eq)
  ultimately show ?thesis using k by (simp add: floatOfInt_def roundRat_def)
qed

lemma int64_of_large_offset:
  assumes "2 ^ 53 \<le> n" and "n < 2 ^ 54"
  shows "int64OfFloat (floatOfInt n) = word_of_int (toEven n)"
proof -
  have "2 ^ 53 - 1 \<le> toEven n" "toEven n \<le> 2 ^ 54" using assms by (auto simp: toEven_def)
  then show ?thesis by (simp add: floatOfInt_even [OF assms] int64OfFloat_def truncFloat_def)
qed

section \<open>Properties\<close>

text \<open>C12. Binary safety of the requests over SynapRPC: keys, fields, values, list elements, set members and message
  bodies reach the wire as the bytes the caller gave, in the caller's order, whatever they hold. (The RESP3 path goes
  through JSON, which replaces ill-formed UTF-8; the statement is not about it.)\<close>

theorem request_bytes_exact:
  "wireRequest ''kv.set'' (kvSetPayload k v 0) = Inr (''SET'', [GStr k, GStr v])
   \<and> wireRequest ''kv.get'' (keyPayload k) = Inr (''GET'', [GStr k])
   \<and> wireRequest ''hash.get'' (fieldPayload k f) = Inr (''HGET'', [GStr k, GStr f])
   \<and> wireRequest ''list.lpush'' (pushPayload k vs) = Inr (''LPUSH'', GStr k # map GStr vs)
   \<and> wireRequest ''list.rpush'' (pushPayload k vs) = Inr (''RPUSH'', GStr k # map GStr vs)
   \<and> wireRequest ''set.add'' (membersPayload k vs) = Inr (''SADD'', GStr k # map GStr vs)
   \<and> wireRequest ''set.rem'' (membersPayload k vs) = Inr (''SREM'', GStr k # map GStr vs)
   \<and> wireRequest ''queue.publish'' (queuePublishPayload q body prio retries) = Inr (''QPUBLISH'', [GStr q, GStr body])
   \<and> wireRequest ''queue.ack'' (ackPayload q m) = Inr (''QACK'', [GStr q, GStr m])"
proof (intro conjI)
  show "wireRequest ''queue.publish'' (queuePublishPayload q body prio retries) = Inr (''QPUBLISH'', [GStr q, GStr body])"
    using queueBytes_of_body [of body]
    by (simp add: request_simps queuePublishPayload_def comp_def del: payloadValue.simps(7))
qed (simp_all add: request_simps kvSetPayload_def keyPayload_def fieldPayload_def pushPayload_def membersPayload_def
       ackPayload_def strSlice_def comp_def getFloat_def floatPos_def)

text \<open>C33. A time to live of whole seconds is sent over SynapRPC as exactly that many seconds over the whole range of a
  \<^verbatim>\<open>time.Duration\<close>. Any positive one below a second is rounded down to zero and not sent, so the key never expires.\<close>

theorem ttl_in_seconds:
  assumes "0 < n" and "n * 1000000000 < 2 ^ 63" and "0 < d" and "d < 1000000000"
  shows "wireRequest ''kv.set'' (kvSetPayload k v (n * 1000000000))
      = Inr (''SET'', [GStr k, GStr v, GStr ''EX'', GInt (word_of_int n)])
    \<and> wireRequest ''kv.set'' (kvSetPayload k v d) = Inr (''SET'', [GStr k, GStr v])"
proof
  have n: "\<bar>n\<bar> < 2 ^ 53" using assms by simp
  have "int (unat (uint64OfFloat (floatOfInt n))) = n"
    using assms n by (simp add: uint64OfFloat_def codec_simps uint_word_of_int_eq take_bit_int_eq_self flip: uint_nat)
  moreover have "floatPos (floatOfInt n)" using assms(1) n by (simp add: floatOfInt_exact floatPos_def)
  moreover have "int64OfFloat (floatOfInt n) = word_of_int n" using n by (rule int64OfFloat_floatOfInt)
  ultimately show "wireRequest ''kv.set'' (kvSetPayload k v (n * 1000000000))
      = Inr (''SET'', [GStr k, GStr v, GStr ''EX'', GInt (word_of_int n)])"
    using assms by (simp add: request_simps kvSetPayload_def durationSeconds_whole getFloat_def)
next
  show "wireRequest ''kv.set'' (kvSetPayload k v d) = Inr (''SET'', [GStr k, GStr v])"
    using duration_below_second [OF assms(3,4)]
    by (simp add: request_simps kvSetPayload_def getFloat_def floatOfInt_exact floatPos_def)
qed

theorem ttl_in_seconds_witness:
  "wireRequest ''kv.set'' (kvSetPayload ''k'' ''v'' (60 * 1000000000))
      = Inr (''SET'', [GStr ''k'', GStr ''v'', GStr ''EX'', GInt (word_of_int 60)])
    \<and> wireRequest ''kv.set'' (kvSetPayload ''k'' ''v'' 999999999) = Inr (''SET'', [GStr ''k'', GStr ''v''])"
  by (rule ttl_in_seconds) simp_all

text \<open>C34. The cursor of a stream reader over SynapRPC is exact below \<open>2^53\<close>: the server is asked for the very offset
  and limit of the caller. From there on offsets pass through a \<^verbatim>\<open>float64\<close>: between \<open>2^53\<close> and \<open>2^54\<close> every odd
  offset is replaced by a neighbouring even one, so that the reader starts one event early or one late.\<close>

theorem stream_offset_exact:
  assumes "\<bar>sint limit\<bar> < 2 ^ 53"
  shows "(uint off < 2 ^ 53 \<longrightarrow> wireRequest ''stream.consume'' (streamConsumePayload room off limit)
      = Inr (''SREAD'', [GStr room, GStr ''sdk-default'', GInt off, GInt limit]))
    \<and> (2 ^ 53 \<le> uint off \<and> uint off < 2 ^ 54 \<longrightarrow> wireRequest ''stream.consume'' (streamConsumePayload room off limit)
      = Inr (''SREAD'', [GStr room, GStr ''sdk-default'',
          GInt (if uint off mod 4 = 1 then off - 1 else if uint off mod 4 = 3 then off + 1 else off), GInt limit]))"
proof -
  have limit: "int64OfFloat (floatOfInt (sint limit)) = limit"
    using int64OfFloat_floatOfInt [OF assms] by simp
  have sent: "wireRequest ''stream.consume'' (streamConsumePayload room off limit)
      = Inr (''SREAD'', [GStr room, GStr ''sdk-default'', GInt (int64OfFloat (floatOfInt (uint off))), GInt limit])"
    using limit by (simp add: request_simps streamConsumePayload_def getInt_def getFloat_def)
  have "uint off < 2 ^ 53 \<longrightarrow> int64OfFloat (floatOfInt (uint off)) = off"
    using int64OfFloat_floatOfInt [of "uint off"] by simp
  moreover have "2 ^ 53 \<le> uint off \<and> uint off < 2 ^ 54 \<longrightarrow> int64OfFloat (floatOfInt (uint off))
      = (if uint off mod 4 = 1 then off - 1 else if uint off mod 4 = 3 then off + 1 else off)"
    using int64_of_large_offset [of "uint off"] by (simp add: toEven_def)
  ultimately show ?thesis unfolding sent by simp
qed

theorem stream_offset_exact_witness:
  "wireRequest ''stream.consume'' (streamConsumePayload ''r'' 7 (- 1))
      = Inr (''SREAD'', [GStr ''r'', GStr ''sdk-default'', GInt 7, GInt (- 1)])
    \<and> wireRequest ''stream.consume'' (streamConsumePayload ''r'' (2 ^ 53 + 3) (- 1))
      = Inr (''SREAD'', [GStr ''r'', GStr ''sdk-default'', GInt (2 ^ 53 + 4), GInt (- 1)])"
  using stream_offset_exact [of "- 1" 7 "''r''"] stream_offset_exact [of "- 1" "2 ^ 53 + 3" "''r''"] by simp

end
