(* ===== verification/KV_Refinement.thy ===== *)
theory KV_Refinement
  imports KV Requests
begin

text \<open>
  The key-value module as an implementation of a finite map. \<open>kv_backend\<close> is the contract between the
  module and a transport with a server behind it: a relation between the state of the environment and the
  map the server holds, kept by every command, and the replies the module reads. Under it any sequence of
  operations returns what the map returns. \<open>portable\<close> says which byte strings the transport carries
  unchanged.
\<close>

section \<open>The abstract map\<close>

datatype kv_op = OpSet string string | OpGet string | OpDelete string | OpExists string

datatype kv_result = Done | Value string | Flag bool

type_synonym store = "string \<rightharpoonup> string"

fun mapOp :: "kv_op \<Rightarrow> store \<Rightarrow> kv_result \<times> store" where
  "mapOp (OpSet k v) m = (Done, m(k \<mapsto> v))"
| "mapOp (OpGet k) m = (Value (case m k of Some v \<Rightarrow> v | None \<Rightarrow> []), m)"
| "mapOp (OpDelete k) m = (Flag (m k \<noteq> None), m(k := None))"
| "mapOp (OpExists k) m = (Flag (m k \<noteq> None), m)"

fun clientOp :: "'w sender \<Rightarrow> kv_op \<Rightarrow> 'w env \<Rightarrow> (goerr + kv_result) \<times> 'w env" where
  "clientOp send (OpSet k v) env = yielding (\<lambda>_. Done) (kvSet send k v 0 env)"
| "clientOp send (OpGet k) env = yielding Value (kvGet send k env)"
| "clientOp send (OpDelete k) env = yielding Flag (kvDelete send k env)"
| "clientOp send (OpExists k) env = yielding Flag (kvExists send k env)"

fun mapRun :: "kv_op list \<Rightarrow> store \<Rightarrow> kv_result list \<times> store" where
  "mapRun [] m = ([], m)"
| "mapRun (op # ops) m = (let (r, m1) = mapOp op m; (rs, m2) = mapRun ops m1 in (r # rs, m2))"

fun clientRun :: "'w sender \<Rightarrow> kv_op list \<Rightarrow> 'w env \<Rightarrow> (goerr + kv_result) list \<times> 'w env" where
  "clientRun send [] env = ([], env)"
| "clientRun send (op # ops) env = (let (r, e1) = clientOp send op env; (rs, e2) = clientRun send ops e1 in (r # rs, e2))"

fun opStrings :: "kv_op \<Rightarrow> string list" where
  "opStrings (OpSet k v) = [k, v]"
| "opStrings (OpGet k) = [k]"
| "opStrings (OpDelete k) = [k]"
| "opStrings (OpExists k) = [k]"

section \<open>The contract\<close>

locale kv_backend =
  fixes send :: "'w sender" and holds :: "'w env \<Rightarrow> store \<Rightarrow> bool" and portable :: "string \<Rightarrow> bool"
  assumes set_law: "holds env m \<Longrightarrow> portable k \<Longrightarrow> portable v \<Longrightarrow>
      \<exists>raw env'. send ''kv.set'' (kvSetPayload k v 0) env = (Inr raw, env') \<and> holds env' (m(k \<mapsto> v))"
    and get_law: "holds env m \<Longrightarrow> portable k \<Longrightarrow>
      \<exists>raw env'. send ''kv.get'' (keyPayload k) env = (Inr raw, env') \<and> holds env' m
        \<and> (case m k of None \<Rightarrow> isNull raw | Some v \<Rightarrow> \<not> isNull raw \<and> decode raw TString = Inr (RString v))"
    and del_law: "holds env m \<Longrightarrow> portable k \<Longrightarrow>
      \<exists>raw env'. send ''kv.del'' (keyPayload k) env = (Inr raw, env') \<and> holds env' (m(k := None))
        \<and> decode raw (one ''Deleted'' ''deleted'' TBool) = Inr (RStruct [fld ''Deleted'' ''deleted'' (RBool (m k \<noteq> None))])"
    and exists_law: "holds env m \<Longrightarrow> portable k \<Longrightarrow>
      \<exists>raw env'. send ''kv.exists'' (keyPayload k) env = (Inr raw, env') \<and> holds env' m
        \<and> decode raw (one ''Exists'' ''exists'' TBool) = Inr (RStruct [fld ''Exists'' ''exists'' (RBool (m k \<noteq> None))])"
begin

lemma op_refines:
  assumes "holds env m" and "list_all portable (opStrings op)"
  shows "\<exists>env'. clientOp send op env = (Inr (fst (mapOp op m)), env') \<and> holds env' (snd (mapOp op m))"
proof (cases op)
  case (OpSet k v)
  with assms set_law [of env m k v] show ?thesis by (auto simp: kvSet_def tell_def)
next
  case (OpGet k)
  with assms get_law [of env m k] show ?thesis by (auto simp: kvGet_def split: option.splits)
next
  case (OpDelete k)
  with assms del_law [of env m k] show ?thesis by (auto simp: kvDelete_def call_def fieldOf_def fld_def)
next
  case (OpExists k)
  with assms exists_law [of env m k] show ?thesis by (auto simp: kvExists_def call_def fieldOf_def fld_def)
qed

lemma run_refines:
  assumes "holds env m" and "list_all (list_all portable \<circ> opStrings) ops"
  shows "\<exists>env'. clientRun send ops env = (map Inr (fst (mapRun ops m)), env') \<and> holds env' (snd (mapRun ops m))"
  using assms
proof (induction ops arbitrary: env m)
  case (Cons op ops)
  from op_refines [OF Cons.prems(1)] Cons.prems(2) obtain env1
    where op: "clientOp send op env = (Inr (fst (mapOp op m)), env1)" and "holds env1 (snd (mapOp op m))" by auto
  with Cons.IH [of env1 "snd (mapOp op m)"] Cons.prems(2) show ?case by (auto simp: case_prod_beta)
qed simp

end

section \<open>SynapRPC\<close>

text \<open>Text as a server reads it from the wire, in either representation.\<close>

fun wireText :: "wvalue \<Rightarrow> string option" where
  "wireText (WStr s) = Some s"
| "wireText (WBytes s) = Some s"
| "wireText _ = None"

lemma wireText_toWire [simp]: "wireText (toWire (GStr s)) = Some s"
  by simp

text \<open>
  What the module relies on of the server behind a live Thunder connection: the four commands answer and act
  as documented on the map \<open>look\<close> of the world, and the connection stays alive.
\<close>

definition servesKV :: "'w thunder \<Rightarrow> ('w \<Rightarrow> store) \<Rightarrow> bool" where
  "servesKV th look =
     (\<forall>h ctx ka k w. isAlive th h w \<and> wireText ka = Some k \<longrightarrow>
        (\<forall>va v. wireText va = Some v \<longrightarrow>
           (\<exists>r w'. callWire th h ctx ''SET'' [ka, va] w = (Inr r, w') \<and> isAlive th h w' \<and> look w' = (look w)(k \<mapsto> v)))
        \<and> (\<exists>r w'. callWire th h ctx ''GET'' [ka] w = (Inr r, w') \<and> isAlive th h w' \<and> look w' = look w
             \<and> (case look w k of None \<Rightarrow> r = WNull | Some v \<Rightarrow> wireText r = Some v))
        \<and> (\<exists>w'. callWire th h ctx ''DEL'' [ka] w = (Inr (WInt (if look w k = None then 0 else 1)), w')
             \<and> isAlive th h w' \<and> look w' = (look w)(k := None))
        \<and> (\<exists>w'. callWire th h ctx ''EXISTS'' [ka] w = (Inr (WInt (if look w k = None then 0 else 1)), w')
             \<and> isAlive th h w' \<and> look w' = look w))"

lemma servesKV_set:
  "servesKV th look \<Longrightarrow> isAlive th h w \<Longrightarrow> \<exists>r w'. callWire th h ctx ''SET'' [toWire (GStr k), toWire (GStr v)] w = (Inr r, w')
     \<and> isAlive th h w' \<and> look w' = (look w)(k \<mapsto> v)"
  unfolding servesKV_def using wireText_toWire by blast

lemma servesKV_get:
  "servesKV th look \<Longrightarrow> isAlive th h w \<Longrightarrow> \<exists>r w'. callWire th h ctx ''GET'' [toWire (GStr k)] w = (Inr r, w')
     \<and> isAlive th h w' \<and> look w' = look w \<and> (case look w k of None \<Rightarrow> r = WNull | Some v \<Rightarrow> wireText r = Some v)"
  unfolding servesKV_def using wireText_toWire by blast

lemma servesKV_del:
  "servesKV th look \<Longrightarrow> isAlive th h w \<Longrightarrow> \<exists>w'. callWire th h ctx ''DEL'' [toWire (GStr k)] w
       = (Inr (WInt (if look w k = None then 0 else 1)), w') \<and> isAlive th h w' \<and> look w' = (look w)(k := None)"
  unfolding servesKV_def using wireText_toWire by blast

lemma servesKV_exists:
  "servesKV th look \<Longrightarrow> isAlive th h w \<Longrightarrow> \<exists>w'. callWire th h ctx ''EXISTS'' [toWire (GStr k)] w
       = (Inr (WInt (if look w k = None then 0 else 1)), w') \<and> isAlive th h w' \<and> look w' = look w"
  unfolding servesKV_def using wireText_toWire by blast

text \<open>A command of a client outside a transaction on a live connection is one call and its mapped reply.\<close>

lemma sendRPC_live:
  assumes "txClientID c = []" and "rpcClient env = Some h" and "isAlive (thunder pf) h (world env)"
    and "wireRequest command p = Inr (cmd, args)"
    and "callWire (thunder pf) h ctx cmd (map toWire args) (world env) = (Inr r, w')"
  shows "sendRPC pf c t ctx command p env =
    (Inr (valueResponse (mapResponseFromWire command (normalizeInts (fromWire r)))), env\<lparr>world := w'\<rparr>)"
  using assms by (simp add: sendRPC_def scopePayload_def wireRequest_def rpcExecute_def ensureConnected_def)

definition rpcHolds ::
  "'w platform \<Rightarrow> SynapClient \<Rightarrow> ('w \<Rightarrow> store) \<Rightarrow> 'w env \<Rightarrow> store \<Rightarrow> bool" where
  "rpcHolds pf c look env m =
     (servesKV (thunder pf) look \<and> txClientID c = [] \<and> look (world env) = m
      \<and> (\<exists>h. rpcClient env = Some h \<and> isAlive (thunder pf) h (world env)))"

lemma wireText_fromWire: "wireText r = Some v \<Longrightarrow> fromWire r = GStr v"
  by (cases r) auto

lemmas reply_simps = mapResponseFromWire_def resp_defs flag_def valueResponse_def decode_def isNull_def
  one_def fld_def wireName_def jsonFieldName_def

lemma deleted_reply:
  "decode (valueResponse (mapResponseFromWire ''kv.del'' (normalizeInts (fromWire (WInt (if p then 0 else 1))))))
     (one ''Deleted'' ''deleted'' TBool) = Inr (RStruct [fld ''Deleted'' ''deleted'' (RBool (\<not> p))])"
  by (simp add: reply_simps assign.simps asBool_def word_sless_alt)

lemma exists_reply:
  "decode (valueResponse (mapResponseFromWire ''kv.exists'' (normalizeInts (fromWire (WInt (if p then 0 else 1))))))
     (one ''Exists'' ''exists'' TBool) = Inr (RStruct [fld ''Exists'' ''exists'' (RBool (\<not> p))])"
  by (simp add: reply_simps assign.simps asBool_def word_sless_alt)

lemma kv_requests:
  "wireRequest ''kv.set'' (kvSetPayload k v 0) = Inr (''SET'', [GStr k, GStr v])"
  "wireRequest ''kv.get'' (keyPayload k) = Inr (''GET'', [GStr k])"
  "wireRequest ''kv.del'' (keyPayload k) = Inr (''DEL'', [GStr k])"
  "wireRequest ''kv.exists'' (keyPayload k) = Inr (''EXISTS'', [GStr k])"
  by (simp_all add: request_simps kvSetPayload_def keyPayload_def getFloat_def floatPos_def)

interpretation rpc_kv: kv_backend "sendRPC pf c t ctx" "rpcHolds pf c look" "\<lambda>_. True" for pf c t ctx look
proof unfold_locales
  fix env m k v
  assume "rpcHolds pf c look env m"
  then obtain h where *: "servesKV (thunder pf) look" "txClientID c = []" "look (world env) = m" "rpcClient env = Some h"
    "isAlive (thunder pf) h (world env)" by (auto simp: rpcHolds_def)
  note live = sendRPC_live [OF *(2,4,5), where t = t and ctx = ctx]
  show "\<exists>raw env'. sendRPC pf c t ctx ''kv.set'' (kvSetPayload k v 0) env = (Inr raw, env')
      \<and> rpcHolds pf c look env' (m(k \<mapsto> v))"
    using servesKV_set [OF *(1,5), of ctx k v] * live [OF kv_requests(1)] by (auto simp: rpcHolds_def)
  show "\<exists>raw env'. sendRPC pf c t ctx ''kv.get'' (keyPayload k) env = (Inr raw, env') \<and> rpcHolds pf c look env' m
      \<and> (case m k of None \<Rightarrow> isNull raw | Some v \<Rightarrow> \<not> isNull raw \<and> decode raw TString = Inr (RString v))"
    using servesKV_get [OF *(1,5), of ctx k] * live [OF kv_requests(2)]
    by (auto simp: rpcHolds_def reply_simps assign.simps asStringValue_def wireText_fromWire split: option.splits)
  show "\<exists>raw env'. sendRPC pf c t ctx ''kv.del'' (keyPayload k) env = (Inr raw, env')
      \<and> rpcHolds pf c look env' (m(k := None))
      \<and> decode raw (one ''Deleted'' ''deleted'' TBool) = Inr (RStruct [fld ''Deleted'' ''deleted'' (RBool (m k \<noteq> None))])"
    using servesKV_del [OF *(1,5), of ctx k] * live [OF kv_requests(3)] deleted_reply [of "m k = None"]
    by (auto simp: rpcHolds_def simp del: fromWire.simps)
  show "\<exists>raw env'. sendRPC pf c t ctx ''kv.exists'' (keyPayload k) env = (Inr raw, env') \<and> rpcHolds pf c look env' m
      \<and> decode raw (one ''Exists'' ''exists'' TBool) = Inr (RStruct [fld ''Exists'' ''exists'' (RBool (m k \<noteq> None))])"
    using servesKV_exists [OF *(1,5), of ctx k] * live [OF kv_requests(4)] exists_reply [of "m k = None"]
    by (auto simp: rpcHolds_def simp del: fromWire.simps)
qed

section \<open>RESP3\<close>

text \<open>On an open connection the peer takes a frame and sends a reply.\<close>

definition answers :: "'w net \<Rightarrow> handle \<Rightarrow> int \<Rightarrow> string \<Rightarrow> 'w \<Rightarrow> reply \<Rightarrow> 'w \<Rightarrow> bool" where
  "answers n h d frame w rep w' =
     (\<exists>w1 ioErr. writeConn n h d frame w = (None, w1) \<and> receive n h d w1 = ((printReply rep, ioErr), w'))"

text \<open>The strings JSON carries unchanged, of a length the reader can allocate.\<close>

definition jsonText :: "string \<Rightarrow> bool" where
  "jsonText s = (validString s \<and> blockOK s)"

text \<open>What the module relies on of a RESP server.\<close>

definition servesRESP :: "'w net \<Rightarrow> ('w \<Rightarrow> store) \<Rightarrow> bool" where
  "servesRESP n look =
     (\<forall>h d k w. jsonText k \<longrightarrow>
        (\<forall>v. jsonText v \<longrightarrow> (\<exists>w'. answers n h d (buildMultibulk ''SET'' [GStr k, GStr v]) w (Simple ''OK'') w' \<and> look w' = (look w)(k \<mapsto> v)))
        \<and> (\<exists>w'. answers n h d (buildMultibulk ''GET'' [GStr k]) w (case look w k of None \<Rightarrow> NullBulk | Some v \<Rightarrow> Bulk v) w'
             \<and> look w' = look w)
        \<and> (\<exists>w'. answers n h d (buildMultibulk ''DEL'' [GStr k]) w (Integer (if look w k = None then 0 else 1)) w'
             \<and> look w' = (look w)(k := None))
        \<and> (\<exists>w'. answers n h d (buildMultibulk ''EXISTS'' [GStr k]) w (Integer (if look w k = None then 0 else 1)) w'
             \<and> look w' = look w))"

definition resp3Holds ::
  "'w platform \<Rightarrow> SynapClient \<Rightarrow> ('w \<Rightarrow> store) \<Rightarrow> 'w env \<Rightarrow> store \<Rightarrow> bool" where
  "resp3Holds pf c look env m =
     (servesRESP (net pf) look \<and> txClientID c = [] \<and> look (world env) = m
      \<and> (\<exists>h. r3Conn env = Some (h, [])) \<and> (\<forall>v \<in> ran m. jsonText v))"

lemma sendRESP3_live:
  assumes "txClientID c = []" and "r3Conn env = Some (h, [])" and "marshalReflect p = Some body"
    and "mapCommandToWire command (payloadMapOf body) TransportRESP3 = Inr (cmd, args)"
    and "answers (net pf) h (attemptDeadline (net pf) t ctx (world env)) (buildMultibulk cmd args) (world env) rep w'"
    and "goodReply rep" and "marshalValue (mapResponseFromWire command (replyValue rep)) = Some out"
  shows "sendRESP3 pf c t ctx command p env = (Inr (jsonResponse out), env\<lparr>r3Conn := Some (h, []), world := w'\<rparr>)"
proof -
  let ?d = "attemptDeadline (net pf) t ctx (world env)"
  from assms(5) obtain w1 ioErr where io: "writeConn (net pf) h ?d (buildMultibulk cmd args) (world env) = (None, w1)"
      "receive (net pf) h ?d w1 = ((printReply rep, ioErr), w')"
    by (auto simp: answers_def)
  have "readResponse (Errorf ioErr None) ([] @ printReply rep) = (Inr (replyValue rep), [])"
    using readResponse_printReply [OF assms(6), of _ "[]"] by simp
  from attempt_reply [OF io this] assms show ?thesis by (simp add: sendRESP3_def scopePayload_def)
qed

lemma json_requests:
  assumes "validString k" and "validString v"
  shows "\<exists>body. marshalReflect (kvSetPayload k v 0) = Some body
      \<and> mapCommandToWire ''kv.set'' (payloadMapOf body) tr = Inr (''SET'', [GStr k, GStr v])"
    and "\<exists>body. marshalReflect (keyPayload k) = Some body
      \<and> mapCommandToWire ''kv.get'' (payloadMapOf body) tr = Inr (''GET'', [GStr k])
      \<and> mapCommandToWire ''kv.del'' (payloadMapOf body) tr = Inr (''DEL'', [GStr k])
      \<and> mapCommandToWire ''kv.exists'' (payloadMapOf body) tr = Inr (''EXISTS'', [GStr k])"
proof -
  let ?set = "JObj [(''key'', JStr k), (''value'', JStr v), (''ttl'', JNull)]" and ?get = "JObj [(''key'', JStr k)]"
  have "goodJson ?set" "validJson ?set" "goodJson ?get" "validJson ?get"
    using assms by (simp_all add: validString_ascii_Cons)
  then have parse: "parseJson (printJson ?set) = Some ?set" "parseJson (printJson ?get) = Some ?get"
    by (simp_all only: parseJson_printJson sanitizeJson_valid)
  have "marshalReflect (kvSetPayload k v 0) = Some (printJson ?set)"
    by (simp add: marshalReflect_def kvSetPayload_def fld_def jsonKeepField_def wireName_def jsonFieldName_def optAll_def
        del: printJson.simps)
  moreover have "payloadMapOf (printJson ?set) = [(''key'', GStr k), (''value'', GStr v), (''ttl'', GNil)]"
    by (simp add: payloadMapOf_def unmarshalMap_def parse makeMap_def del: printJson.simps)
  ultimately show "\<exists>body. marshalReflect (kvSetPayload k v 0) = Some body
      \<and> mapCommandToWire ''kv.set'' (payloadMapOf body) tr = Inr (''SET'', [GStr k, GStr v])"
    by (simp add: request_simps getFloat_def floatPos_def del: printJson.simps)
  have "marshalReflect (keyPayload k) = Some (printJson ?get)"
    by (simp add: marshalReflect_def keyPayload_def fld_def jsonKeepField_def wireName_def jsonFieldName_def optAll_def
        del: printJson.simps)
  moreover have "payloadMapOf (printJson ?get) = [(''key'', GStr k)]"
    by (simp add: payloadMapOf_def unmarshalMap_def parse makeMap_def del: printJson.simps)
  ultimately show "\<exists>body. marshalReflect (keyPayload k) = Some body
      \<and> mapCommandToWire ''kv.get'' (payloadMapOf body) tr = Inr (''GET'', [GStr k])
      \<and> mapCommandToWire ''kv.del'' (payloadMapOf body) tr = Inr (''DEL'', [GStr k])
      \<and> mapCommandToWire ''kv.exists'' (payloadMapOf body) tr = Inr (''EXISTS'', [GStr k])"
    by (simp add: request_simps del: printJson.simps)
qed

lemma json_flag_reply:
  assumes "validString name"
  shows "\<exists>out. marshalValue (GMap [(name, GBool b)]) = Some out
    \<and> parseJson out = Some (JObj [(name, JBool b)])"
proof -
  have out: "marshalValue (GMap [(name, GBool b)]) = Some (printJson (JObj [(name, JBool b)]))"
    by (simp add: marshalValue_def optAll_def del: printJson.simps)
  have "goodJson (JObj [(name, JBool b)])" "validJson (JObj [(name, JBool b)])" using assms by simp_all
  then have "parseJson (printJson (JObj [(name, JBool b)])) = Some (JObj [(name, JBool b)])"
    by (simp only: parseJson_printJson sanitizeJson_valid)
  with out show ?thesis by blast
qed

lemma json_get_reply:
  "marshalValue (mapResponseFromWire ''kv.get'' (GStr v)) = Some (printJson (JStr v))"
  "marshalValue (mapResponseFromWire ''kv.get'' GNil) = Some ''null''"
  "validString v \<Longrightarrow> \<not> isNull (jsonResponse (printJson (JStr v)))
     \<and> decode (jsonResponse (printJson (JStr v))) TString = Inr (RString v)"
proof -
  show "marshalValue (mapResponseFromWire ''kv.get'' (GStr v)) = Some (printJson (JStr v))"
    "marshalValue (mapResponseFromWire ''kv.get'' GNil) = Some ''null''"
    by (simp_all add: marshalValue_def reply_simps)
  assume "validString v"
  then have "parseJson (printJson (JStr v)) = Some (JStr v)"
    using parseJson_printJson [of "JStr v"] by (simp add: sanitize_valid)
  moreover have "\<not> isNull (jsonResponse (printJson (JStr v)))"
    by (simp add: isNull_def jsonResponse_def quoteString_def)
  ultimately show "\<not> isNull (jsonResponse (printJson (JStr v)))
     \<and> decode (jsonResponse (printJson (JStr v))) TString = Inr (RString v)"
    by (simp add: decode_def jsonResponse_def decodeJson.simps)
qed

lemma servesRESP_laws:
  assumes "servesRESP n look" and "jsonText k"
  shows "jsonText v \<Longrightarrow> \<exists>w'. answers n h d (buildMultibulk ''SET'' [GStr k, GStr v]) w (Simple ''OK'') w' \<and> look w' = (look w)(k \<mapsto> v)"
    and "\<exists>w'. answers n h d (buildMultibulk ''GET'' [GStr k]) w (case look w k of None \<Rightarrow> NullBulk | Some v \<Rightarrow> Bulk v) w'
      \<and> look w' = look w"
    and "\<exists>w'. answers n h d (buildMultibulk ''DEL'' [GStr k]) w (Integer (if look w k = None then 0 else 1)) w'
      \<and> look w' = (look w)(k := None)"
    and "\<exists>w'. answers n h d (buildMultibulk ''EXISTS'' [GStr k]) w (Integer (if look w k = None then 0 else 1)) w'
      \<and> look w' = look w"
  using assms unfolding servesRESP_def by blast+

text \<open>A reply with one flag, from the integer on the wire to the decoded struct.\<close>

lemma json_flag_decoded:
  "\<exists>out. marshalValue (mapResponseFromWire ''kv.del'' (GInt64 (if p then 0 else 1))) = Some out
     \<and> decode (jsonResponse out) (one ''Deleted'' ''deleted'' TBool) = Inr (RStruct [fld ''Deleted'' ''deleted'' (RBool (\<not> p))])"
  "\<exists>out. marshalValue (mapResponseFromWire ''kv.exists'' (GInt64 (if p then 0 else 1))) = Some out
     \<and> decode (jsonResponse out) (one ''Exists'' ''exists'' TBool) = Inr (RStruct [fld ''Exists'' ''exists'' (RBool (\<not> p))])"
proof -
  have flag: "mapResponseFromWire ''kv.del'' (GInt64 (if p then 0 else 1)) = GMap [(''deleted'', GBool (\<not> p))]"
    "mapResponseFromWire ''kv.exists'' (GInt64 (if p then 0 else 1)) = GMap [(''exists'', GBool (\<not> p))]"
    by (simp_all add: mapResponseFromWire_def resp_defs flag_def word_sless_alt)
  obtain d e where "marshalValue (GMap [(''deleted'', GBool (\<not> p))]) = Some d" "parseJson d = Some (JObj [(''deleted'', JBool (\<not> p))])"
    "marshalValue (GMap [(''exists'', GBool (\<not> p))]) = Some e" "parseJson e = Some (JObj [(''exists'', JBool (\<not> p))])"
    using json_flag_reply [of "''deleted''" "\<not> p"] json_flag_reply [of "''exists''" "\<not> p"] by (auto simp: validString_ascii_Cons)
  then show "\<exists>out. marshalValue (mapResponseFromWire ''kv.del'' (GInt64 (if p then 0 else 1))) = Some out
     \<and> decode (jsonResponse out) (one ''Deleted'' ''deleted'' TBool) = Inr (RStruct [fld ''Deleted'' ''deleted'' (RBool (\<not> p))])"
    "\<exists>out. marshalValue (mapResponseFromWire ''kv.exists'' (GInt64 (if p then 0 else 1))) = Some out
     \<and> decode (jsonResponse out) (one ''Exists'' ''exists'' TBool) = Inr (RStruct [fld ''Exists'' ''exists'' (RBool (\<not> p))])"
    by (auto simp: flag decode_def jsonResponse_def one_def fld_def decodeJson.simps membersFor_def findField_def
        wireName_def jsonFieldName_def)
qed

interpretation resp3_kv: kv_backend "sendRESP3 pf c t ctx" "resp3Holds pf c look" jsonText for pf c t ctx look
proof unfold_locales
  fix env m k
  assume "resp3Holds pf c look env m" and key: "jsonText k"
  then obtain h where *: "servesRESP (net pf) look" "txClientID c = []" "look (world env) = m" "r3Conn env = Some (h, [])"
    and texts: "\<forall>v \<in> ran m. jsonText v" and k: "validString k" by (auto simp: resp3Holds_def jsonText_def)
  note live = sendRESP3_live [OF *(2,4), where pf = pf and t = t and ctx = ctx]
  note serves = servesRESP_laws [OF *(1) key, where h = h and d = "attemptDeadline (net pf) t ctx (world env)" and w = "world env"]
  obtain body where body: "marshalReflect (keyPayload k) = Some body"
    "mapCommandToWire ''kv.get'' (payloadMapOf body) TransportRESP3 = Inr (''GET'', [GStr k])"
    "mapCommandToWire ''kv.del'' (payloadMapOf body) TransportRESP3 = Inr (''DEL'', [GStr k])"
    "mapCommandToWire ''kv.exists'' (payloadMapOf body) TransportRESP3 = Inr (''EXISTS'', [GStr k])"
    using json_requests(2) [OF k k] by blast
  {
    fix v
    assume v: "jsonText v"
    then obtain set where set: "marshalReflect (kvSetPayload k v 0) = Some set"
      "mapCommandToWire ''kv.set'' (payloadMapOf set) TransportRESP3 = Inr (''SET'', [GStr k, GStr v])"
      using json_requests(1) [OF k] by (auto simp: jsonText_def)
    obtain out where "marshalValue (mapResponseFromWire ''kv.set'' (replyValue (Simple ''OK''))) = Some out"
      by (simp add: mapResponseFromWire_def resp_defs marshalValue_def optAll_def)
    with serves(1) [where v = v] * texts v live [OF set, where rep = "Simple ''OK''"]
    show "\<exists>raw env'. sendRESP3 pf c t ctx ''kv.set'' (kvSetPayload k v 0) env = (Inr raw, env')
        \<and> resp3Holds pf c look env' (m(k \<mapsto> v))"
      by (fastforce simp: resp3Holds_def lineText_def ran_def)
  }
  show "\<exists>raw env'. sendRESP3 pf c t ctx ''kv.get'' (keyPayload k) env = (Inr raw, env') \<and> resp3Holds pf c look env' m
      \<and> (case m k of None \<Rightarrow> isNull raw | Some v \<Rightarrow> \<not> isNull raw \<and> decode raw TString = Inr (RString v))"
  proof (cases "m k")
    case None
    with serves(2) * texts live [OF body(1,2), where rep = NullBulk] json_get_reply(2) show ?thesis
      by (auto simp: resp3Holds_def isNull_def jsonResponse_def)
  next
    case (Some v)
    then have "jsonText v" using texts by (simp add: ranI)
    with Some serves(2) * texts live [OF body(1,2), where rep = "Bulk v"] json_get_reply(1,3) [of v] show ?thesis
      by (fastforce simp: resp3Holds_def jsonText_def)
  qed
  obtain d where "marshalValue (mapResponseFromWire ''kv.del'' (replyValue (Integer (if m k = None then 0 else 1)))) = Some d"
    "decode (jsonResponse d) (one ''Deleted'' ''deleted'' TBool) = Inr (RStruct [fld ''Deleted'' ''deleted'' (RBool (m k \<noteq> None))])"
    using json_flag_decoded(1) [of "m k = None"] by auto
  with serves(3) * texts live [OF body(1,3), where rep = "Integer (if m k = None then 0 else 1)"]
  show "\<exists>raw env'. sendRESP3 pf c t ctx ''kv.del'' (keyPayload k) env = (Inr raw, env')
      \<and> resp3Holds pf c look env' (m(k := None))
      \<and> decode raw (one ''Deleted'' ''deleted'' TBool) = Inr (RStruct [fld ''Deleted'' ''deleted'' (RBool (m k \<noteq> None))])"
    by (fastforce simp: resp3Holds_def ran_def split: if_splits)
  obtain e where "marshalValue (mapResponseFromWire ''kv.exists'' (replyValue (Integer (if m k = None then 0 else 1)))) = Some e"
    "decode (jsonResponse e) (one ''Exists'' ''exists'' TBool) = Inr (RStruct [fld ''Exists'' ''exists'' (RBool (m k \<noteq> None))])"
    using json_flag_decoded(2) [of "m k = None"] by auto
  with serves(4) * texts live [OF body(1,4), where rep = "Integer (if m k = None then 0 else 1)"]
  show "\<exists>raw env'. sendRESP3 pf c t ctx ''kv.exists'' (keyPayload k) env = (Inr raw, env') \<and> resp3Holds pf c look env' m
      \<and> decode raw (one ''Exists'' ''exists'' TBool) = Inr (RStruct [fld ''Exists'' ''exists'' (RBool (m k \<noteq> None))])"
    by (fastforce simp: resp3Holds_def)
qed

section \<open>Properties\<close>

text \<open>C1. Over SynapRPC the key-value module is a map: on a live connection to a server that serves the four
  commands, any sequence of \<^verbatim>\<open>Set\<close>, \<^verbatim>\<open>Get\<close>, \<^verbatim>\<open>Delete\<close> and \<^verbatim>\<open>Exists\<close> with any byte strings succeeds, returns what
  the same operations return on the map the server holds, and leaves the server with the resulting map.\<close>

theorem kv_client_refines_map:
  assumes "servesKV (thunder pf) look" and "rpc c = Some t" and "txClientID c = []"
    and "rpcClient env = Some h" and "isAlive (thunder pf) h (world env)"
  shows "case clientRun (sendCommand pf c ctx) ops env of
    (rs, env') \<Rightarrow> rs = map Inr (fst (mapRun ops (look (world env)))) \<and> look (world env') = snd (mapRun ops (look (world env)))"
proof -
  from assms have "rpcHolds pf c look env (look (world env))" by (simp add: rpcHolds_def)
  moreover have "list_all (list_all (\<lambda>_. True) \<circ> opStrings) ops" by (simp add: list_all_iff)
  ultimately obtain env' where "clientRun (sendRPC pf c t ctx) ops env = (map Inr (fst (mapRun ops (look (world env)))), env')"
    and "rpcHolds pf c look env' (snd (mapRun ops (look (world env))))"
    using rpc_kv.run_refines by blast
  with assms(2) show ?thesis by (simp add: sendCommand_def rpcHolds_def)
qed

text \<open>A Thunder with a key-value server behind it, whose world is the table of the server.\<close>

definition storeCall :: "string \<Rightarrow> wvalue list \<Rightarrow> (string \<times> string) list \<Rightarrow> (string + wvalue) \<times> (string \<times> string) list" where
  "storeCall cmd args w =
     (case map wireText args of
        [Some k, Some v] \<Rightarrow> if cmd = ''SET'' then (Inr (WStr ''OK''), aput k v w) else (Inl ''ERR'', w)
      | [Some k] \<Rightarrow>
          if cmd = ''GET'' then (Inr (case map_of w k of None \<Rightarrow> WNull | Some v \<Rightarrow> WBytes v), w)
          else if cmd = ''DEL'' then (Inr (WInt (if map_of w k = None then 0 else 1)), filter (\<lambda>(k', v). k' \<noteq> k) w)
          else if cmd = ''EXISTS'' then (Inr (WInt (if map_of w k = None then 0 else 1)), w)
          else (Inl ''ERR'', w)
      | _ \<Rightarrow> (Inl ''ERR'', w))"

definition storePlatform :: "(string \<times> string) list platform" where
  "storePlatform =
     \<lparr>thunder = \<lparr>standard = standard obligingThunder, connect = (\<lambda>ep cfg cc w. (Inr 1, w)), isAlive = (\<lambda>h w. True),
        closeClient = (\<lambda>h w. w), callWire = (\<lambda>h ctx cmd args w. storeCall cmd args w), onPush = (\<lambda>h w. w),
        mapGet = mapGet obligingThunder, unwatchContext = (\<lambda>w. \<lparr>ctxDeadline = None\<rparr>)\<rparr>,
      net = \<lparr>dialTCP = (\<lambda>addr d w. (Inl ''refused'', w)), writeConn = (\<lambda>h d bs w. (Some ''closed'', w)),
        receive = (\<lambda>h d w. (([], ''EOF''), w)), closeConn = (\<lambda>h w. w),
        timeNow = (\<lambda>w. 0)\<rparr>,
      checkURL = (\<lambda>u. None), doRequest = (\<lambda>d ctx r w. (Inl ''refused'', w)), randomBytes = (\<lambda>w. (Inr (replicate 16 0), w))\<rparr>"

lemma map_of_filter_key: "map_of (filter (\<lambda>(k', v). k' \<noteq> k) w) = (map_of w)(k := None)"
  by (induction w) (auto simp: fun_eq_iff)

lemma storePlatform_serves: "servesKV (thunder storePlatform) map_of"
  by (auto simp: servesKV_def storePlatform_def storeCall_def map_of_filter_key split: option.splits)

lemma txClientID_NewClient [simp]: "txClientID (NewClient cfg) = []"
  by (simp add: NewClient_def split: TransportMode.splits)

lemma NewClient_synap: "\<exists>t. rpc (NewClient (NewConfig (''synap://'' @ s))) = Some t"
  by (simp add: NewClient_def NewConfig_def hasPrefix_def Let_def split: prod.splits)

theorem kv_client_refines_map_witness:
  "case clientRun (sendCommand storePlatform (NewClient (NewConfig ''synap://h'')) \<lparr>ctxDeadline = None\<rparr>)
      [OpSet ''k'' [CHR 0xFF], OpGet ''k'', OpDelete ''k'', OpExists ''k'']
      \<lparr>rpcClient = Some 1, r3Conn = None, world = []\<rparr> of
    (rs, env') \<Rightarrow> rs = [Inr Done, Inr (Value [CHR 0xFF]), Inr (Flag True), Inr (Flag False)] \<and> map_of (world env') = Map.empty"
  using kv_client_refines_map [OF storePlatform_serves, where c = "NewClient (NewConfig ''synap://h'')"
      and env = "\<lparr>rpcClient = Some 1, r3Conn = None, world = []\<rparr>" and h = 1 and ctx = "\<lparr>ctxDeadline = None\<rparr>"
      and ops = "[OpSet ''k'' [CHR 0xFF], OpGet ''k'', OpDelete ''k'', OpExists ''k'']"]
    NewClient_synap [of "''h''"]
  by (auto simp: storePlatform_def Let_def split: prod.splits)

text \<open>C3. Over RESP3 the key-value module is the same map for text: on an open connection to a RESP server that
  holds UTF-8 values, any sequence of the four operations with UTF-8 keys and values succeeds, returns what
  the map returns and leaves the server with the resulting map. (Other bytes pass through JSON on this
  transport and are replaced.)\<close>

theorem kv_resp3_refines_map:
  assumes "servesRESP (net pf) look" and "rpc c = None" and "resp3 c = Some t" and "txClientID c = []"
    and "r3Conn env = Some (h, [])" and "\<forall>v \<in> ran (look (world env)). jsonText v"
    and "list_all (list_all jsonText \<circ> opStrings) ops"
  shows "case clientRun (sendCommand pf c ctx) ops env of
    (rs, env') \<Rightarrow> rs = map Inr (fst (mapRun ops (look (world env)))) \<and> look (world env') = snd (mapRun ops (look (world env)))"
proof -
  from assms(1,4-6) have "resp3Holds pf c look env (look (world env))" by (simp add: resp3Holds_def)
  from resp3_kv.run_refines [OF this assms(7), of t ctx] assms(2,3) show ?thesis
    by (auto simp: sendCommand_def resp3Holds_def)
qed

text \<open>A RESP server over the network: it reads the frame written to it and keeps the reply to be received.\<close>

definition respond :: "gval \<Rightarrow> (string \<times> string) list \<Rightarrow> reply \<times> (string \<times> string) list" where
  "respond req tbl =
     (case req of
        GList [GStr cmd, GStr k, GStr v] \<Rightarrow> if cmd = ''SET'' then (Simple ''OK'', aput k v tbl) else (Error ''ERR'', tbl)
      | GList [GStr cmd, GStr k] \<Rightarrow>
          if cmd = ''GET'' then (case map_of tbl k of None \<Rightarrow> NullBulk | Some v \<Rightarrow> Bulk v, tbl)
          else if cmd = ''DEL'' then (Integer (if map_of tbl k = None then 0 else 1), filter (\<lambda>(k', v). k' \<noteq> k) tbl)
          else if cmd = ''EXISTS'' then (Integer (if map_of tbl k = None then 0 else 1), tbl)
          else (Error ''ERR'', tbl)
      | _ \<Rightarrow> (Error ''ERR'', tbl))"

definition respPlatform :: "((string \<times> string) list \<times> reply) platform" where
  "respPlatform =
     \<lparr>thunder = \<lparr>standard = standard obligingThunder, connect = (\<lambda>ep cfg cc w. (Inl ''refused'', w)), isAlive = (\<lambda>h w. False),
        closeClient = (\<lambda>h w. w), callWire = (\<lambda>h ctx cmd args w. (Inl ''closed'', w)), onPush = (\<lambda>h w. w),
        mapGet = mapGet obligingThunder, unwatchContext = (\<lambda>w. \<lparr>ctxDeadline = None\<rparr>)\<rparr>,
      net = \<lparr>dialTCP = (\<lambda>addr d w. (Inr 1, w)),
        writeConn = (\<lambda>h d bytes (tbl, pending). (None,
           case fst (readResponse (Errorf ''EOF'' None) bytes) of
             Inr req \<Rightarrow> (let (rep, tbl') = respond req tbl in (tbl', rep))
           | Inl _ \<Rightarrow> (tbl, Error ''ERR''))),
        receive = (\<lambda>h d (tbl, pending). ((printReply pending, ''EOF''), (tbl, pending))),
        closeConn = (\<lambda>h w. w), timeNow = (\<lambda>w. 0)\<rparr>,
      checkURL = (\<lambda>u. None), doRequest = (\<lambda>d ctx r w. (Inl ''refused'', w)), randomBytes = (\<lambda>w. (Inr (replicate 16 0), w))\<rparr>"

lemma respPlatform_serves: "servesRESP (net respPlatform) (\<lambda>w. map_of (fst w))"
proof -
  have read: "fst (readResponse (Errorf ''EOF'' None) (buildMultibulk cmd (map GStr args))) = Inr (GList (map GStr (cmd # args)))"
    if "list_all blockOK (cmd # args)" "length args \<le> 2" for cmd args
  proof -
    have "goodRequest (cmd, map GStr args)"
      using that by (auto simp: goodRequest_def requestParts_def countOK_def makesliceOK_def maxAlloc_def comp_def)
    from requests.decode_encode [OF this, of _ "[]"] show ?thesis by (simp add: requestParts_def comp_def)
  qed
  have names: "blockOK ''SET''" "blockOK ''GET''" "blockOK ''DEL''" "blockOK ''EXISTS''" by (simp_all add: blockOK_def maxAlloc_def)
  show ?thesis unfolding servesRESP_def
    using read [of "''SET''" "[k, v]" for k v] read [of "''GET''" "[k]" for k] read [of "''DEL''" "[k]" for k]
      read [of "''EXISTS''" "[k]" for k] names
    by (auto simp: answers_def respPlatform_def respond_def jsonText_def map_of_filter_key split: option.splits)
qed

lemma NewClient_resp3: "rpc (NewClient (NewConfig (''resp3://'' @ s))) = None \<and> (\<exists>t. resp3 (NewClient (NewConfig (''resp3://'' @ s))) = Some t)"
  by (simp add: NewClient_def NewConfig_def hasPrefix_def Let_def split: prod.splits)

theorem kv_resp3_refines_map_witness:
  "case clientRun (sendCommand respPlatform (NewClient (NewConfig ''resp3://h'')) \<lparr>ctxDeadline = None\<rparr>)
      [OpSet ''k'' ''v'', OpGet ''k'', OpDelete ''k'', OpExists ''k'']
      \<lparr>rpcClient = None, r3Conn = Some (1, []), world = ([], Null)\<rparr> of
    (rs, env') \<Rightarrow> rs = [Inr Done, Inr (Value ''v''), Inr (Flag True), Inr (Flag False)] \<and> map_of (fst (world env')) = Map.empty"
  using kv_resp3_refines_map [OF respPlatform_serves, where c = "NewClient (NewConfig ''resp3://h'')"
      and env = "\<lparr>rpcClient = None, r3Conn = Some (1, []), world = ([], Null)\<rparr>" and h = 1 and ctx = "\<lparr>ctxDeadline = None\<rparr>"
      and ops = "[OpSet ''k'' ''v'', OpGet ''k'', OpDelete ''k'', OpExists ''k'']"]
    NewClient_resp3 [of "''h''"]
  by (auto simp: jsonText_def validString_ascii_Cons blockOK_def maxAlloc_def Let_def split: prod.splits)

end
