(* ===== verification/Scopes.thy ===== *)
theory Scopes
  imports Transaction KV_Refinement
begin

text \<open>
  What the client as a whole does with a command beyond the key-value module: the traffic of a transaction
  scope, the outcome of \<^verbatim>\<open>Exec\<close>, and how the hash module reads the replies of the native wires.
\<close>

section \<open>The traffic of a transaction\<close>

text \<open>A request that belongs to the transaction of a client id: a queued command or one of the five that
  control the transaction, the id first.\<close>

definition inTransaction :: "string \<Rightarrow> string \<Rightarrow> wvalue list \<Rightarrow> bool" where
  "inTransaction cid cmd args =
     ((cmd = ''TXQUEUE'' \<and> (\<exists>inner rest. args = toWire (GStr cid) # toWire (GStr inner) # rest \<and> inner \<in> set txQueueable))
      \<or> (cmd \<in> {''MULTI'', ''EXEC'', ''DISCARD'', ''WATCH'', ''UNWATCH''} \<and> (\<exists>rest. args = toWire (GStr cid) # rest)))"

fun eventInTransaction :: "string \<Rightarrow> rpc_event \<Rightarrow> bool" where
  "eventInTransaction cid (Called h cmd args) = inTransaction cid cmd args"
| "eventInTransaction cid (Hooked h) = False"
| "eventInTransaction cid _ = True"

text \<open>Any program over a client, as the commands it sends.\<close>

definition sendAll :: "'w sender \<Rightarrow> (string \<times> rval) list \<Rightarrow> 'w env \<Rightarrow> 'w env" where
  "sendAll send cmds env = foldl (\<lambda>env (command, payload). snd (send command payload env)) env cmds"

lemma scopePayload_client: "cid \<noteq> [] \<Longrightarrow> txClientID c = cid \<Longrightarrow> map_of (scopePayload c p) ''client_id'' = Some (GStr cid)"
  by (simp add: scopePayload_def)

lemma control_families:
  "wireKV (''transaction.'' @ s) p = None" "wireHash (''transaction.'' @ s) p = None" "wireList (''transaction.'' @ s) p = None"
  "wireSet (''transaction.'' @ s) p = None" "wireQueue (''transaction.'' @ s) p = None" "wireStream (''transaction.'' @ s) p = None"
  "wirePubSub (''transaction.'' @ s) p tr = None" "wireUtility (''transaction.'' @ s) p = None"
  by (simp_all add: wire_defs)

lemma control_command:
  assumes "hasPrefix command ''transaction.''" and "wireCommand command p tr = Inr (w, args)"
  shows "wireTransaction command p = Some (w, args)"
proof -
  from assms(1) obtain s where s: "command = ''transaction.'' @ s" unfolding hasPrefix_iff by blast
  with assms(2) have "firstSome (families (''transaction.'' @ s) p tr) = Some (w, args)"
    using wireCommand_Inr_iff by blast
  then have "wireTransaction (''transaction.'' @ s) p = Some (w, args)"
    unfolding control_families by (cases "wireTransaction (''transaction.'' @ s) p") simp_all
  with s show ?thesis by blast
qed

lemma control_arguments:
  "wireTransaction command p = Some (w, args) \<Longrightarrow>
   w \<in> {''MULTI'', ''EXEC'', ''DISCARD'', ''WATCH'', ''UNWATCH''} \<and> (\<exists>rest. args = GStr (getStr p ''client_id'') # rest)"
  by (auto simp: wireTransaction_def Let_def split: if_splits)

lemma scoped_request:
  assumes "cid \<noteq> []" and "map_of p ''client_id'' = Some (GStr cid)" and "mapCommandToWire command p tr = Inr (w, args)"
  shows "inTransaction cid w (map toWire args)"
proof (cases "hasPrefix command ''transaction.''")
  case True
  with assms(3) have "wireTransaction command p = Some (w, args)"
    by (simp add: mapCommandToWire_plain control_command)
  from control_arguments [OF this] show ?thesis
    using assms(2) by (auto simp: inTransaction_def getStr_def)
next
  case False
  have "txClient p = Some (GStr cid)" using assms(1,2) by (simp add: txClient_def)
  from mapCommandToWire_scoped [OF False this] assms(3) obtain inner rest
    where "w = ''TXQUEUE''" "args = [GStr cid, GStr inner] @ rest" "inner \<in> set txQueueable"
    by (cases "wireCommand command (dropClientID p) tr") (auto split: if_splits simp del: toWire.simps)
  then show ?thesis unfolding inTransaction_def by (metis append_Cons append_Nil list.simps(9))
qed

text \<open>What a request adds to the record: it is the only one called, and no push hook is registered.\<close>

fun eventOf :: "string \<Rightarrow> wvalue list \<Rightarrow> rpc_event \<Rightarrow> bool" where
  "eventOf cmd args (Called h cmd' args') = (cmd' = cmd \<and> args' = args)"
| "eventOf cmd args (Hooked h) = False"
| "eventOf cmd args _ = True"

lemma eventOf_inTransaction: "inTransaction cid cmd args \<Longrightarrow> eventOf cmd args e \<Longrightarrow> eventInTransaction cid e"
  by (cases e) auto

lemma traceOf_append:
  "\<exists>evs. traceOf (rpcExecute (tracedThunder th) t ctx cmd args (cl, (w, tr))) = tr @ evs \<and> list_all (eventOf cmd (map toWire args)) evs"
  by (auto simp: rpcExecute_def ensureConnected_def rpcDial_def Let_def case_prod_beta
      split: option.splits sum.splits)

lemma sendRPC_scoped_trace:
  assumes "thunder pf = tracedThunder th" and "txClientID c = cid" and "cid \<noteq> []"
  shows "\<exists>evs. snd (world (snd (sendRPC pf c t ctx command payload env))) = snd (world env) @ evs
    \<and> list_all (eventInTransaction cid) evs"
proof (cases "mapCommandToWire command (scopePayload c (payloadToMap payload)) TransportSynapRPC")
  case (Inl e)
  then show ?thesis by (simp add: sendRPC_def)
next
  case (Inr r)
  then obtain w args where r: "mapCommandToWire command (scopePayload c (payloadToMap payload)) TransportSynapRPC = Inr (w, args)"
    by (cases r) auto
  then have "inTransaction cid w (map toWire args)"
    using scoped_request assms(3) scopePayload_client [OF assms(3,2)] by blast
  moreover obtain x tr where world: "world env = (x, tr)" by (cases "world env")
  moreover obtain evs where "traceOf (rpcExecute (tracedThunder th) t ctx w args (rpcClient env, (x, tr))) = tr @ evs"
    and "list_all (eventOf w (map toWire args)) evs"
    using traceOf_append [of th t ctx w args "rpcClient env" x tr] by blast
  ultimately show ?thesis
    using r assms(1) eventOf_inTransaction
    by (force simp: sendRPC_def traceOf_def list_all_iff split: prod.splits sum.splits)
qed

lemma sendAll_scoped_trace:
  assumes "thunder pf = tracedThunder th" and "txClientID c = cid" and "cid \<noteq> []"
  shows "\<exists>evs. snd (world (sendAll (sendRPC pf c t ctx) cmds env)) = snd (world env) @ evs
    \<and> list_all (eventInTransaction cid) evs"
proof (induction cmds arbitrary: env)
  case Nil
  then show ?case by (simp add: sendAll_def)
next
  case (Cons x cmds)
  obtain command payload where x: "x = (command, payload)" by (cases x)
  let ?env = "snd (sendRPC pf c t ctx command payload env)"
  obtain evs where "snd (world ?env) = snd (world env) @ evs" "list_all (eventInTransaction cid) evs"
    using sendRPC_scoped_trace [OF assms] by blast
  moreover obtain evs' where "snd (world (sendAll (sendRPC pf c t ctx) cmds ?env)) = snd (world ?env) @ evs'"
    "list_all (eventInTransaction cid) evs'"
    using Cons.IH by blast
  ultimately show ?case using x by (auto simp: sendAll_def intro!: exI [of _ "evs @ evs'"])
qed

lemma txBegin_scope:
  assumes "txBegin pf c env = (Inr tx, env1)"
  shows "scoped tx = c\<lparr>txClientID := clientID tx\<rparr> \<and> clientID tx \<noteq> []"
  using assms
  by (auto simp: txBegin_def scope_def newRequestID_def formatUUID_def split: prod.splits sum.splits)

section \<open>Replies of the hash module\<close>

text \<open>The flat form of a hash: fields and values in turn.\<close>

fun flat :: "(string \<times> string) list \<Rightarrow> gval list" where
  "flat [] = []"
| "flat ((f, v) # kvs) = GStr f # GStr v # flat kvs"

lemma pairUp_flat:
  "distinct (map fst acc @ map fst kvs) \<Longrightarrow> pairUp (flat kvs) acc = acc @ map (\<lambda>(f, v). (f, GStr v)) kvs"
proof (induction kvs arbitrary: acc rule: flat.induct)
  case (2 f v kvs)
  then have "pairUp (flat kvs) (acc @ [(f, GStr v)]) = (acc @ [(f, GStr v)]) @ map (\<lambda>(f, v). (f, GStr v)) kvs"
    by (intro 2) auto
  moreover have "f \<notin> fst ` set acc" using 2 by auto
  ultimately show ?case by (simp add: aput_fresh)
qed simp

lemma fields_reply:
  "decode (valueResponse (GMap [(''fields'', GMap (map (\<lambda>(f, v). (f, GStr v)) kvs))])) (one ''Fields'' ''fields'' (TMap TString)) =
   Inr (RStruct [fld ''Fields'' ''fields'' (RMap (Some (map (\<lambda>(f, v). (RString f, RString v)) kvs)))])"
proof -
  have "traverse (\<lambda>(k, v). rbind (assign TString v (zeroOf TString)) (\<lambda>e. Inr (RString k, e))) (map (\<lambda>(f, v). (f, GStr v)) kvs) =
    Inr (map (\<lambda>(f, v). (RString f, RString v)) kvs)"
    by (induction kvs) (auto simp: assign.simps asStringValue_def)
  then show ?thesis by (simp add: reply_simps assign.simps)
qed

lemma fromWire_flat: "map fromWire (map toWire (flat kvs)) = flat kvs"
  by (induction kvs rule: flat.induct) auto

lemma fromWire_fields:
  "distinct (map fst kvs) \<Longrightarrow> fromWire (toWire (GMap (map (\<lambda>(f, v). (f, GStr v)) kvs))) = GMap (map (\<lambda>(f, v). (f, GStr v)) kvs)"
proof -
  assume "distinct (map fst kvs)"
  moreover have "map fst (map (\<lambda>(f, v). (f, GStr v)) kvs) = map fst kvs" by (induction kvs) auto
  moreover have "map (\<lambda>(k, v). (fmtV (fromWire k), fromWire v)) (map (\<lambda>(k, v). (WStr k, toWire v)) (map (\<lambda>(f, v). (f, GStr v)) kvs)) =
    map (\<lambda>(f, v). (f, GStr v)) kvs" by (induction kvs) auto
  ultimately show ?thesis using foldl_aput_distinct [of "[]" "map (\<lambda>(f, v). (f, GStr v)) kvs"]
    by (simp only: fromWire.simps toWire.simps append_Nil)
qed

lemma created_reply:
  "decode (valueResponse (mapResponseFromWire ''hash.set'' r)) (one ''Success'' ''success'' TBool) =
   Inr (RStruct [fld ''Success'' ''success'' (RBool False)])"
  by (simp add: reply_simps assign.simps)

lemma removed_reply:
  "decode (valueResponse (mapResponseFromWire ''hash.del'' r)) (one ''Deleted'' ''deleted'' (TInt 64)) =
   Inr (RStruct [fld ''Deleted'' ''deleted'' (RInt 64 0)])"
  by (simp add: reply_simps assign.simps)

text \<open>Every response of SynapRPC is the mapped form of some reply.\<close>

lemma sendRPC_mapped: "sendRPC pf c t ctx command payload env = (Inr raw, env') \<Longrightarrow> \<exists>r. raw = valueResponse (mapResponseFromWire command r)"
  by (auto simp: sendRPC_def split: prod.splits sum.splits)

lemma call_mapped:
  assumes "call (sendRPC pf c t ctx) command payload ty env = (Inr v, env')"
  shows "\<exists>r. decode (valueResponse (mapResponseFromWire command r)) ty = Inr v"
  using assms by (auto simp: call_def dest!: sendRPC_mapped split: prod.splits sum.splits)

lemma yielding_Inr: "yielding f x = (Inr y, env) \<longleftrightarrow> (\<exists>v. x = (Inr v, env) \<and> y = f v)"
  by (cases x; cases "fst x") auto

lemma hash_requests:
  "wireRequest ''hash.getall'' (RStruct [fld ''Key'' ''key'' (RString key)]) = Inr (''HGETALL'', [GStr key])"
  by (simp add: request_simps)

section \<open>Replies to EXEC\<close>






section \<open>Replies of the queue module\<close>

definition consumePayload :: "string \<Rightarrow> string \<Rightarrow> rval" where
  "consumePayload name consumerID =
     RStruct [fld ''Queue'' ''queue'' (RString name), fld ''ConsumerID'' ''consumer_id'' (RString consumerID)]"

lemma wrapped_message:
  "decode (valueResponse (mapResponseFromWire ''queue.consume'' v)) (one ''Message'' ''message'' (TPtr messageT)) =
     (case assign (TPtr messageT) v (RPtr None) of
        Inl e \<Rightarrow> Inl (Errorf ''field message'' (Some e))
      | Inr p \<Rightarrow> Inr (RStruct [fld ''Message'' ''message'' p]))"
  by (simp add: reply_simps assign.simps [of "TStruct fs" for fs] split: sum.splits)

text \<open>The wrapped form read as a message has none of its fields.\<close>

lemma wrapper_as_message:
  "\<exists>m. decode (valueResponse (mapResponseFromWire ''queue.consume'' v)) messageT = Inr m \<and> msgID (toMessage m) = []"
  by (simp add: messageT_def toMessage_def fieldOf_def reply_simps assign.simps [of "TStruct fs" for fs])

section \<open>A platform for examples\<close>

text \<open>Thunder alone, with a server that gives every request the same answer.\<close>

definition platformOf :: "'w thunder \<Rightarrow> 'w platform" where
  "platformOf th =
     \<lparr>thunder = th,
      net = \<lparr>dialTCP = (\<lambda>addr d w. (Inl ''refused'', w)), writeConn = (\<lambda>h d bs w. (Some ''closed'', w)),
        receive = (\<lambda>h d w. (([], ''EOF''), w)), closeConn = (\<lambda>h w. w), timeNow = (\<lambda>w. 0)\<rparr>,
      checkURL = (\<lambda>u. None), doRequest = (\<lambda>d ctx r w. (Inl ''refused'', w)), randomBytes = (\<lambda>w. (Inr (replicate 16 0), w))\<rparr>"

definition answering :: "wvalue \<Rightarrow> unit thunder" where
  "answering r = obligingThunder\<lparr>callWire := \<lambda>c ctx cmd args w. (Inr r, w)\<rparr>"

lemma answering_simps [simp]:
  "thunder (platformOf th) = th" "isAlive (answering r) h w" "callWire (answering r) h ctx cmd args w = (Inr r, w)"
  by (simp_all add: platformOf_def answering_def obligingThunder_def)

abbreviation noCtx :: goctx where
  "noCtx \<equiv> \<lparr>ctxDeadline = None\<rparr>"

abbreviation someClient :: SynapClient where
  "someClient \<equiv> NewClient (NewConfig ''synap://h'')"

lemma someClient_rpc: "\<exists>t. rpc someClient = Some t"
  using NewClient_synap [of "''h''"] by simp

section \<open>Properties\<close>

text \<open>C2. The traffic of a transaction: whatever commands a program sends through the scope \<^verbatim>\<open>Begin\<close> returns,
  over SynapRPC every request on the connection carries the client id of the transaction, as a queued
  command the server can queue or as one of the five that control the transaction. Nothing runs outside.\<close>

theorem transaction_traffic:
  assumes "thunder pf = tracedThunder th" and "rpc c = Some t" and "txBegin pf c env = (Inr tx, env1)"
  shows "\<exists>evs. snd (world (sendAll (sendCommand pf (scoped tx) ctx) cmds env1)) = snd (world env1) @ evs
    \<and> list_all (eventInTransaction (clientID tx)) evs"
proof -
  from txBegin_scope [OF assms(3)] assms(2)
  have "rpc (scoped tx) = Some t" "txClientID (scoped tx) = clientID tx" "clientID tx \<noteq> []" by auto
  with sendAll_scoped_trace [OF assms(1)] show ?thesis by (simp add: sendCommand_def)
qed

theorem transaction_traffic_witness:
  "\<exists>tx env1 evs. txBegin (platformOf (tracedThunder (answering (WStr ''OK'')))) someClient
       \<lparr>rpcClient = Some 1, r3Conn = None, world = ((), [])\<rparr> = (Inr tx, env1)
     \<and> snd (world (sendAll (sendCommand (platformOf (tracedThunder (answering (WStr ''OK'')))) (scoped tx) noCtx)
         [(''kv.del'', keyPayload ''k''), (''kv.get'', keyPayload ''k'')] env1)) = evs
     \<and> list_all (eventInTransaction (clientID tx)) evs"
proof -
  let ?pf = "platformOf (tracedThunder (answering (WStr ''OK'')))"
  let ?env = "\<lparr>rpcClient = Some 1, r3Conn = None, world = ((), [])\<rparr> :: (unit \<times> rpc_event list) env"
  obtain t where t: "rpc someClient = Some t" using someClient_rpc by blast
  have "txBegin ?pf someClient ?env = (Inr (scope someClient (formatUUID (stampVersion (replicate 16 0)))), ?env)"
    by (simp add: txBegin_def platformOf_def newRequestID_def)
  then show ?thesis
    using transaction_traffic [OF answering_simps(1) t, where env = ?env and ?env1.0 = ?env and ctx = noCtx
      and cmds = "[(''kv.del'', keyPayload ''k''), (''kv.get'', keyPayload ''k'')]"]
    by fastforce
qed



text \<open>C20. \<^verbatim>\<open>HashManager.GetAll\<close> returns the fields of the hash whichever way the server writes them, as a flat array
  of fields and values or as a map: the same result, every field with its value, for any bytes.\<close>

theorem hash_getall_forms:
  assumes "rpc c = Some t" and "txClientID c = []" and "rpcClient env = Some h" and "isAlive (thunder pf) h (world env)"
    and "callWire (thunder pf) h ctx ''HGETALL'' [toWire (GStr key)] (world env) = (Inr r, w')"
    and "distinct (map fst kvs)"
    and "r = toWire (GList (flat kvs)) \<or> r = toWire (GMap (map (\<lambda>(f, v). (f, GStr v)) kvs))"
  shows "hashGetAll (sendCommand pf c ctx) key env = (Inr kvs, env\<lparr>world := w'\<rparr>)"
proof -
  have fields: "mapResponseFromWire ''hash.getall'' (normalizeInts (fromWire r)) = GMap [(''fields'', GMap (map (\<lambda>(f, v). (f, GStr v)) kvs))]"
    using assms(6,7) pairUp_flat [of "[]" kvs] fromWire_flat [of kvs] fromWire_fields [of kvs]
    by (auto simp: mapResponseFromWire_def resp_defs simp del: toWire.simps(10) fromWire.simps(8) map_map)
  show ?thesis
    using assms(1) sendRPC_live [OF assms(2-4) hash_requests, where t = t and ctx = ctx and r = r] fields fields_reply assms(5)
    by (simp add: hashGetAll_def call_def sendCommand_def fieldOf_def fld_def comp_def case_prod_beta)
qed

theorem hash_getall_forms_witness:
  "hashGetAll (sendCommand (platformOf (answering (WArray [WStr ''f'', WBytes [CHR 0xFF]]))) someClient noCtx) ''k''
     \<lparr>rpcClient = Some 1, r3Conn = None, world = ()\<rparr> =
   (Inr [(''f'', [CHR 0xFF])], \<lparr>rpcClient = Some 1, r3Conn = None, world = ()\<rparr>)"
proof -
  obtain t where t: "rpc someClient = Some t" using someClient_rpc by blast
  have "WArray [WStr ''f'', WBytes [CHR 0xFF]] = toWire (GList (flat [(''f'', [CHR 0xFF])]))"
    by (simp add: validString_ascii_Cons validString.simps [of "[CHR 0xFF]"] runeLen_def leadLen_def)
  with hash_getall_forms [OF t, where env = "\<lparr>rpcClient = Some 1, r3Conn = None, world = ()\<rparr>" and h = 1
      and pf = "platformOf (answering (WArray [WStr ''f'', WBytes [CHR 0xFF]]))" and key = "''k''" and ctx = noCtx
      and r = "WArray [WStr ''f'', WBytes [CHR 0xFF]]" and w' = "()" and kvs = "[(''f'', [CHR 0xFF])]"]
  show ?thesis by (simp del: toWire.simps)
qed

text \<open>C39. Over SynapRPC \<^verbatim>\<open>HashManager.Set\<close> never reports true and \<^verbatim>\<open>Del\<close> never a number but zero, whatever the server
  answers: the mapped replies have the fields \<^verbatim>\<open>created\<close> and \<^verbatim>\<open>removed\<close>, the methods read \<^verbatim>\<open>success\<close> and \<^verbatim>\<open>deleted\<close>.\<close>

theorem hash_writes_uninformative:
  assumes "rpc c = Some t"
  shows "(hashSet (sendCommand pf c ctx) key field val env = (Inr b, env') \<longrightarrow> \<not> b)
       \<and> (hashDel (sendCommand pf c ctx) key field env = (Inr n, env') \<longrightarrow> n = 0)"
proof -
  have "\<not> b" if "hashSet (sendRPC pf c t ctx) key field val env = (Inr b, env')"
    using that call_mapped created_reply by (fastforce simp: hashSet_def yielding_Inr fieldOf_def fld_def)
  moreover have "n = 0" if "hashDel (sendRPC pf c t ctx) key field env = (Inr n, env')"
    using that call_mapped removed_reply by (fastforce simp: hashDel_def yielding_Inr fieldOf_def fld_def)
  ultimately show ?thesis using assms by (auto simp: sendCommand_def)
qed

theorem hash_writes_uninformative_witness:
  "fst (hashSet (sendCommand (platformOf (answering (WInt 1))) someClient noCtx) ''k'' ''f'' ''v''
          \<lparr>rpcClient = Some 1, r3Conn = None, world = ()\<rparr>) = Inr False"
proof -
  let ?env = "\<lparr>rpcClient = Some 1, r3Conn = None, world = ()\<rparr> :: unit env"
  let ?pf = "platformOf (answering (WInt 1))"
  obtain t where t: "rpc someClient = Some t" using someClient_rpc by blast
  have "wireRequest ''hash.set'' (RStruct [fld ''Key'' ''key'' (RString ''k''), fld ''Field'' ''field'' (RString ''f''),
    fld ''Value'' ''value'' (RString ''v'')]) = Inr (''HSET'', [GStr ''k'', GStr ''f'', GStr ''v''])"
    by (simp add: request_simps)
  from sendRPC_live [OF _ _ _ this, of someClient ?env 1 ?pf noCtx "WInt 1" "()" t]
  obtain b env' where "hashSet (sendCommand ?pf someClient noCtx) ''k'' ''f'' ''v'' ?env = (Inr b, env')"
    using t by (simp add: sendCommand_def hashSet_def call_def created_reply)
  with hash_writes_uninformative [OF t, of ?pf noCtx "''k''" "''f''" "''v''" ?env b env'] show ?thesis by simp
qed

text \<open>C38. Over SynapRPC \<^verbatim>\<open>QueueManager.Consume\<close> hides a message it cannot decode: the message the server has handed out
  is returned when it decodes, and otherwise the method reports an empty queue, never an error. (The
  fallback reads the wrapping object as a message, which succeeds with an empty id.)\<close>

theorem consume_hides_undecodable:
  assumes "rpc c = Some t" and "txClientID c = []" and "rpcClient env = Some h" and "isAlive (thunder pf) h (world env)"
    and "wireRequest ''queue.consume'' (consumePayload name consumerID) = Inr (cmd, args)"
    and "callWire (thunder pf) h ctx cmd (map toWire args) (world env) = (Inr r, w')"
  shows "queueConsume (sendCommand pf c ctx) name consumerID env =
    (Inr (case assign (TPtr messageT) (normalizeInts (fromWire r)) (RPtr None) of
            Inl e \<Rightarrow> None
          | Inr p \<Rightarrow> map_option toMessage (ptrOf p)), env\<lparr>world := w'\<rparr>)"
proof -
  let ?v = "normalizeInts (fromWire r)"
  obtain m where "decode (valueResponse (mapResponseFromWire ''queue.consume'' ?v)) messageT = Inr m" "msgID (toMessage m) = []"
    using wrapper_as_message by blast
  then show ?thesis
    using assms(1) sendRPC_live [OF assms(2-6), where t = t] wrapped_message [of ?v]
    by (auto simp: queueConsume_def consumePayload_def sendCommand_def fieldOf_def fld_def split: sum.splits)
qed

theorem consume_hides_undecodable_witness:
  "queueConsume (sendCommand (platformOf (answering (WMap [(WStr ''id'', WStr ''m1''), (WStr ''priority'', WArray [])]))) someClient noCtx)
     ''q'' ''w1'' \<lparr>rpcClient = Some 1, r3Conn = None, world = ()\<rparr> = (Inr None, \<lparr>rpcClient = Some 1, r3Conn = None, world = ()\<rparr>)"
proof -
  let ?r = "WMap [(WStr ''id'', WStr ''m1''), (WStr ''priority'', WArray [])]"
  obtain t where t: "rpc someClient = Some t" using someClient_rpc by blast
  have wire: "wireRequest ''queue.consume'' (consumePayload ''q'' ''w1'') = Inr (''QCONSUME'', [GStr ''q'', GStr ''w1''])"
    by (simp add: consumePayload_def request_simps)
  have "\<exists>e. assign (TPtr messageT) (normalizeInts (fromWire ?r)) (RPtr None) = Inl e"
    by (simp add: messageT_def assign.simps fld_def wireName_def jsonFieldName_def asStringValue_def asInt_def)
  with consume_hides_undecodable [OF t _ _ _ wire, where env = "\<lparr>rpcClient = Some 1, r3Conn = None, world = ()\<rparr>" and h = 1
      and pf = "platformOf (answering ?r)" and ctx = noCtx and r = ?r and w' = "()"]
  show ?thesis by (auto simp del: fromWire.simps)
qed

end
