(* ===== verification/Collections_Refinement.thy ===== *)
theory Collections_Refinement
  imports Scopes
begin

text \<open>
  The list and set modules against a server that keeps lists and sets. \<open>serverStep\<close> is the documented behaviour of
  the raw commands, a step relation: it leaves open what a server may choose, the order of \<^verbatim>\<open>SMEMBERS\<close>, the
  form of a reply, and the order in which several values of one \<^verbatim>\<open>LPUSH\<close> end up at the head (\<open>arrange\<close>, the identity in
  the example of the README). \<open>specOp\<close> says what a method of the SDK promises its caller. The locale \<open>coll_backend\<close> is the contract
  of a transport with such a server behind it; under it every method keeps its promise.
\<close>

section \<open>The server\<close>

record colls =
  lists :: "string \<Rightarrow> string list"
  members :: "string \<Rightarrow> string set"

text \<open>The elements between two positions, inclusive; negative positions count from the end.\<close>

definition position :: "int \<Rightarrow> nat \<Rightarrow> int" where
  "position i n = (if i < 0 then i + int n else i)"

definition rangeOf :: "int \<Rightarrow> int \<Rightarrow> 'a list \<Rightarrow> 'a list" where
  "rangeOf i j xs =
     (let start = nat (position i (length xs)) in drop start (take (nat (position j (length xs) + 1)) xs))"

text \<open>The count of a pop; 0 is treated as 1.\<close>

definition popCount :: "int \<Rightarrow> nat" where
  "popCount c = (if 0 < c then nat c else 1)"

definition number :: "nat \<Rightarrow> wvalue" where
  "number n = WInt (word_of_int (int n))"

text \<open>The forms of a reply that holds texts: an array; a pop may also answer with the one element itself, or with
  null when there is none.\<close>

definition textArray :: "string list \<Rightarrow> wvalue \<Rightarrow> bool" where
  "textArray vs r = (case r of WArray rs \<Rightarrow> map wireText rs = map Some vs | _ \<Rightarrow> False)"

definition popReply :: "string list \<Rightarrow> wvalue \<Rightarrow> bool" where
  "popReply vs r = (textArray vs r \<or> r = WNull \<and> vs = [] \<or> (\<exists>v. vs = [v] \<and> wireText r = Some v))"

definition flagReply :: "bool \<Rightarrow> wvalue \<Rightarrow> bool" where
  "flagReply b r = (r = WBool b \<or> r = WInt (if b then 1 else 0))"

inductive serverStep :: "(string list \<Rightarrow> string list) \<Rightarrow> colls \<Rightarrow> string \<Rightarrow> wvalue list \<Rightarrow> wvalue \<Rightarrow> colls \<Rightarrow> bool" where
  lpush: "wireText a = Some k \<Longrightarrow> map wireText as = map Some vs \<Longrightarrow> xs = arrange vs @ lists s k \<Longrightarrow>
    serverStep arrange s ''LPUSH'' (a # as) (number (length xs)) (s\<lparr>lists := (lists s)(k := xs)\<rparr>)"
| rpush: "wireText a = Some k \<Longrightarrow> map wireText as = map Some vs \<Longrightarrow> xs = lists s k @ vs \<Longrightarrow>
    serverStep arrange s ''RPUSH'' (a # as) (number (length xs)) (s\<lparr>lists := (lists s)(k := xs)\<rparr>)"
| lpop: "wireText a = Some k \<Longrightarrow> n = popCount (sint c) \<Longrightarrow> popReply (take n (lists s k)) r \<Longrightarrow>
    serverStep arrange s ''LPOP'' [a, WInt c] r (s\<lparr>lists := (lists s)(k := drop n (lists s k))\<rparr>)"
| rpop: "wireText a = Some k \<Longrightarrow> n = popCount (sint c) \<Longrightarrow> popReply (take n (rev (lists s k))) r \<Longrightarrow>
    serverStep arrange s ''RPOP'' [a, WInt c] r (s\<lparr>lists := (lists s)(k := rev (drop n (rev (lists s k))))\<rparr>)"
| lrange: "wireText a = Some k \<Longrightarrow> textArray (rangeOf (sint i) (sint j) (lists s k)) r \<Longrightarrow>
    serverStep arrange s ''LRANGE'' [a, WInt i, WInt j] r s"
| llen: "wireText a = Some k \<Longrightarrow> serverStep arrange s ''LLEN'' [a] (number (length (lists s k))) s"
| sadd: "wireText a = Some k \<Longrightarrow> map wireText as = map Some ms \<Longrightarrow>
    serverStep arrange s ''SADD'' (a # as) (number (card (set ms - members s k)))
      (s\<lparr>members := (members s)(k := members s k \<union> set ms)\<rparr>)"
| srem: "wireText a = Some k \<Longrightarrow> map wireText as = map Some ms \<Longrightarrow>
    serverStep arrange s ''SREM'' (a # as) (number (card (set ms \<inter> members s k)))
      (s\<lparr>members := (members s)(k := members s k - set ms)\<rparr>)"
| sismember: "wireText a = Some k \<Longrightarrow> wireText b = Some m \<Longrightarrow> flagReply (m \<in> members s k) r \<Longrightarrow>
    serverStep arrange s ''SISMEMBER'' [a, b] r s"
| smembers: "wireText a = Some k \<Longrightarrow> set ms = members s k \<Longrightarrow> distinct ms \<Longrightarrow> textArray ms r \<Longrightarrow>
    serverStep arrange s ''SMEMBERS'' [a] r s"
| scard: "wireText a = Some k \<Longrightarrow> serverStep arrange s ''SCARD'' [a] (number (card (members s k))) s"

inductive_cases serverStepE [elim!]:
  "serverStep arrange s ''LPUSH'' args r s'" "serverStep arrange s ''RPUSH'' args r s'" "serverStep arrange s ''LPOP'' args r s'"
  "serverStep arrange s ''RPOP'' args r s'" "serverStep arrange s ''LRANGE'' args r s'" "serverStep arrange s ''LLEN'' args r s'"
  "serverStep arrange s ''SADD'' args r s'" "serverStep arrange s ''SREM'' args r s'" "serverStep arrange s ''SISMEMBER'' args r s'"
  "serverStep arrange s ''SMEMBERS'' args r s'" "serverStep arrange s ''SCARD'' args r s'"

text \<open>The requests the server understands.\<close>

definition understood :: "string \<Rightarrow> wvalue list \<Rightarrow> bool" where
  "understood cmd args =
     (let text = (\<lambda>a. wireText a \<noteq> None); int = (\<lambda>a. case a of WInt _ \<Rightarrow> True | _ \<Rightarrow> False)
      in if cmd \<in> {''LPUSH'', ''RPUSH'', ''SADD'', ''SREM''} then 2 \<le> length args \<and> list_all text args
         else if cmd \<in> {''LPOP'', ''RPOP''} then (case args of [a, c] \<Rightarrow> text a \<and> int c | _ \<Rightarrow> False)
         else if cmd = ''LRANGE'' then (case args of [a, i, j] \<Rightarrow> text a \<and> int i \<and> int j | _ \<Rightarrow> False)
         else if cmd \<in> {''LLEN'', ''SMEMBERS'', ''SCARD''} then (case args of [a] \<Rightarrow> text a | _ \<Rightarrow> False)
         else if cmd = ''SISMEMBER'' then (case args of [a, b] \<Rightarrow> text a \<and> text b | _ \<Rightarrow> False)
         else False)"

section \<open>The promises of the methods\<close>

datatype coll_op =
    LPush string "string list" | RPush string "string list" | LPop string int | RPop string int
  | Range string int int | Len string
  | Add string "string list" | Remove string "string list" | IsMember string string | Members string | Card string

datatype coll_result = Num int | Texts "string list" | Answer bool

text \<open>A count as the 64-bit integer the methods return.\<close>

definition count64 :: "nat \<Rightarrow> int" where
  "count64 n = sint (word_of_int (int n) :: int64)"

lemma count64_exact: "n < 2 ^ 63 \<Longrightarrow> count64 n = int n"
  unfolding count64_def by (rule sint_int64) simp_all

fun specOp :: "(string list \<Rightarrow> string list) \<Rightarrow> coll_op \<Rightarrow> colls \<Rightarrow> coll_result \<Rightarrow> colls \<Rightarrow> bool" where
  "specOp arrange (LPush k vs) s res s' =
     (res = Num (count64 (length (arrange vs @ lists s k))) \<and> s' = s\<lparr>lists := (lists s)(k := arrange vs @ lists s k)\<rparr>)"
| "specOp arrange (RPush k vs) s res s' =
     (res = Num (count64 (length (lists s k @ vs))) \<and> s' = s\<lparr>lists := (lists s)(k := lists s k @ vs)\<rparr>)"
| "specOp arrange (LPop k n) s res s' =
     (res = Texts (take (popCount n) (lists s k)) \<and> s' = s\<lparr>lists := (lists s)(k := drop (popCount n) (lists s k))\<rparr>)"
| "specOp arrange (RPop k n) s res s' =
     (res = Texts (take (popCount n) (rev (lists s k)))
      \<and> s' = s\<lparr>lists := (lists s)(k := rev (drop (popCount n) (rev (lists s k))))\<rparr>)"
| "specOp arrange (Range k i j) s res s' = (res = Texts (rangeOf i j (lists s k)) \<and> s' = s)"
| "specOp arrange (Len k) s res s' = (res = Num (count64 (length (lists s k))) \<and> s' = s)"
| "specOp arrange (Add k ms) s res s' =
     (res = Num (count64 (card (set ms - members s k))) \<and> s' = s\<lparr>members := (members s)(k := members s k \<union> set ms)\<rparr>)"
| "specOp arrange (Remove k ms) s res s' =
     (res = Num (count64 (card (set ms \<inter> members s k))) \<and> s' = s\<lparr>members := (members s)(k := members s k - set ms)\<rparr>)"
| "specOp arrange (IsMember k m) s res s' = (res = Answer (m \<in> members s k) \<and> s' = s)"
| "specOp arrange (Members k) s res s' = (\<exists>ms. res = Texts ms \<and> distinct ms \<and> set ms = members s k \<and> s' = s)"
| "specOp arrange (Card k) s res s' = (res = Num (count64 (card (members s k))) \<and> s' = s)"

fun collOp :: "'w sender \<Rightarrow> coll_op \<Rightarrow> 'w env \<Rightarrow> (goerr + coll_result) \<times> 'w env" where
  "collOp send (LPush k vs) env = yielding Num (listLPush send k vs env)"
| "collOp send (RPush k vs) env = yielding Num (listRPush send k vs env)"
| "collOp send (LPop k n) env = yielding Texts (listLPop send k n env)"
| "collOp send (RPop k n) env = yielding Texts (listRPop send k n env)"
| "collOp send (Range k i j) env = yielding Texts (listRange send k i j env)"
| "collOp send (Len k) env = yielding Num (listLen send k env)"
| "collOp send (Add k ms) env = yielding Num (setAdd send k ms env)"
| "collOp send (Remove k ms) env = yielding Num (setRemove send k ms env)"
| "collOp send (IsMember k m) env = yielding Answer (setIsMember send k m env)"
| "collOp send (Members k) env = yielding Texts (setMembers send k env)"
| "collOp send (Card k) env = yielding Num (setCard send k env)"

text \<open>The calls covered: something to push, add or remove, and positions that a \<^verbatim>\<open>float64\<close> holds exactly.\<close>

fun sensible :: "coll_op \<Rightarrow> bool" where
  "sensible (LPush k vs) = (vs \<noteq> [])"
| "sensible (RPush k vs) = (vs \<noteq> [])"
| "sensible (LPop k n) = (\<bar>n\<bar> < 2 ^ 53)"
| "sensible (RPop k n) = (\<bar>n\<bar> < 2 ^ 53)"
| "sensible (Range k i j) = (\<bar>i\<bar> < 2 ^ 53 \<and> \<bar>j\<bar> < 2 ^ 53)"
| "sensible (Add k ms) = (ms \<noteq> [])"
| "sensible (Remove k ms) = (ms \<noteq> [])"
| "sensible _ = True"

fun collRun :: "'w sender \<Rightarrow> coll_op list \<Rightarrow> 'w env \<Rightarrow> (goerr + coll_result) list \<times> 'w env" where
  "collRun send [] env = ([], env)"
| "collRun send (op # ops) env = (let (r, e1) = collOp send op env; (rs, e2) = collRun send ops e1 in (r # rs, e2))"

fun specRun :: "(string list \<Rightarrow> string list) \<Rightarrow> coll_op list \<Rightarrow> colls \<Rightarrow> coll_result list \<Rightarrow> colls \<Rightarrow> bool" where
  "specRun arrange [] s rs s' = (rs = [] \<and> s' = s)"
| "specRun arrange (op # ops) s rs s' = (\<exists>r rs' s1. rs = r # rs' \<and> specOp arrange op s r s1 \<and> specRun arrange ops s1 rs' s')"

section \<open>Requests and replies\<close>

definition keyOnly :: "string \<Rightarrow> rval" where
  "keyOnly k = RStruct [fld ''Key'' ''key'' (RString k)]"

definition memberPayload :: "string \<Rightarrow> string \<Rightarrow> rval" where
  "memberPayload k m = RStruct [fld ''Key'' ''key'' (RString k), fld ''Member'' ''member'' (RString m)]"

text \<open>The wire form of a count: the argument is always there, and 0 when the caller gave none.\<close>

definition wireCount :: "int \<Rightarrow> int64" where
  "wireCount n = word_of_int (if 0 < n then n else 0)"

fun commandOf :: "coll_op \<Rightarrow> string \<times> rval" where
  "commandOf (LPush k vs) = (''list.lpush'', pushPayload k vs)"
| "commandOf (RPush k vs) = (''list.rpush'', pushPayload k vs)"
| "commandOf (LPop k n) = (''list.lpop'', popPayload k n)"
| "commandOf (RPop k n) = (''list.rpop'', popPayload k n)"
| "commandOf (Range k i j) = (''list.range'', rangePayload k i j)"
| "commandOf (Len k) = (''list.len'', keyOnly k)"
| "commandOf (Add k ms) = (''set.add'', membersPayload k ms)"
| "commandOf (Remove k ms) = (''set.rem'', membersPayload k ms)"
| "commandOf (IsMember k m) = (''set.ismember'', memberPayload k m)"
| "commandOf (Members k) = (''set.members'', keyOnly k)"
| "commandOf (Card k) = (''set.card'', keyOnly k)"

fun wireOf :: "coll_op \<Rightarrow> wire_command" where
  "wireOf (LPush k vs) = (''LPUSH'', GStr k # map GStr vs)"
| "wireOf (RPush k vs) = (''RPUSH'', GStr k # map GStr vs)"
| "wireOf (LPop k n) = (''LPOP'', [GStr k, GInt (wireCount n)])"
| "wireOf (RPop k n) = (''RPOP'', [GStr k, GInt (wireCount n)])"
| "wireOf (Range k i j) = (''LRANGE'', [GStr k, GInt (word_of_int i), GInt (word_of_int j)])"
| "wireOf (Len k) = (''LLEN'', [GStr k])"
| "wireOf (Add k ms) = (''SADD'', GStr k # map GStr ms)"
| "wireOf (Remove k ms) = (''SREM'', GStr k # map GStr ms)"
| "wireOf (IsMember k m) = (''SISMEMBER'', [GStr k, GStr m])"
| "wireOf (Members k) = (''SMEMBERS'', [GStr k])"
| "wireOf (Card k) = (''SCARD'', [GStr k])"

lemma int64_of_position: "\<bar>i\<bar> < 2 ^ 53 \<Longrightarrow> int64OfFloat (floatOfInt i) = word_of_int i"
  by (rule int64OfFloat_floatOfInt)

lemma int64OfFloat_zero: "int64OfFloat (FNum False 0) = 0"
  by (simp add: int64OfFloat_def truncFloat_def)

lemma pop_request:
  assumes "\<bar>n\<bar> < 2 ^ 53"
  shows "wireRequest ''list.lpop'' (popPayload k n) = Inr (''LPOP'', [GStr k, GInt (wireCount n)])"
    and "wireRequest ''list.rpop'' (popPayload k n) = Inr (''RPOP'', [GStr k, GInt (wireCount n)])"
  using assms int64_of_position [OF assms] int64OfFloat_zero
  by (simp_all add: request_simps popPayload_def wireCount_def getInt_def getFloat_def)

lemma range_request:
  assumes "\<bar>i\<bar> < 2 ^ 53" and "\<bar>j\<bar> < 2 ^ 53"
  shows "wireRequest ''list.range'' (rangePayload k i j) = Inr (''LRANGE'', [GStr k, GInt (word_of_int i), GInt (word_of_int j)])"
  using int64_of_position [OF assms(1)] int64_of_position [OF assms(2)]
  by (simp add: request_simps rangePayload_def getInt_def getFloat_def)

lemma text_requests:
  "wireRequest ''list.lpush'' (pushPayload k vs) = Inr (''LPUSH'', GStr k # map GStr vs)"
  "wireRequest ''list.rpush'' (pushPayload k vs) = Inr (''RPUSH'', GStr k # map GStr vs)"
  "wireRequest ''list.len'' (keyOnly k) = Inr (''LLEN'', [GStr k])"
  "wireRequest ''set.add'' (membersPayload k vs) = Inr (''SADD'', GStr k # map GStr vs)"
  "wireRequest ''set.rem'' (membersPayload k vs) = Inr (''SREM'', GStr k # map GStr vs)"
  "wireRequest ''set.ismember'' (memberPayload k m) = Inr (''SISMEMBER'', [GStr k, GStr m])"
  "wireRequest ''set.members'' (keyOnly k) = Inr (''SMEMBERS'', [GStr k])"
  "wireRequest ''set.card'' (keyOnly k) = Inr (''SCARD'', [GStr k])"
  by (simp_all add: request_simps pushPayload_def membersPayload_def keyOnly_def memberPayload_def strSlice_def comp_def)

lemma wire_request: "sensible op \<Longrightarrow> wireRequest (fst (commandOf op)) (snd (commandOf op)) = Inr (wireOf op)"
  by (cases op) (simp_all add: text_requests pop_request range_request)

lemma understood_simps:
  "understood ''LPUSH'' (a # as) = (as \<noteq> [] \<and> list_all (\<lambda>a. wireText a \<noteq> None) (a # as))"
  "understood ''RPUSH'' (a # as) = (as \<noteq> [] \<and> list_all (\<lambda>a. wireText a \<noteq> None) (a # as))"
  "understood ''SADD'' (a # as) = (as \<noteq> [] \<and> list_all (\<lambda>a. wireText a \<noteq> None) (a # as))"
  "understood ''SREM'' (a # as) = (as \<noteq> [] \<and> list_all (\<lambda>a. wireText a \<noteq> None) (a # as))"
  "understood ''LPOP'' [a, WInt c] = (wireText a \<noteq> None)" "understood ''RPOP'' [a, WInt c] = (wireText a \<noteq> None)"
  "understood ''LRANGE'' [a, WInt i, WInt j] = (wireText a \<noteq> None)"
  "understood ''LLEN'' [a] = (wireText a \<noteq> None)" "understood ''SMEMBERS'' [a] = (wireText a \<noteq> None)"
  "understood ''SCARD'' [a] = (wireText a \<noteq> None)" "understood ''SISMEMBER'' [a, b] = (wireText a \<noteq> None \<and> wireText b \<noteq> None)"
  by (cases as; simp add: understood_def)+

lemma request_understood: "sensible op \<Longrightarrow> understood (fst (wireOf op)) (map toWire (snd (wireOf op)))"
  by (cases op) (auto simp: understood_simps list_all_iff)

lemma signed_take_bit_sint [simp]: "signed_take_bit 63 (sint (n :: int64)) = sint n"
  using sint_int64_bounds [of n] by (simp add: signed_take_bit_int_eq_self)

lemma number_replies:
  "decode (valueResponse (mapResponseFromWire ''list.lpush'' (normalizeInts (fromWire (number n))))) lengthT = Inr (RStruct [fld ''Length'' ''length'' (RInt 64 (count64 n))])"
  "decode (valueResponse (mapResponseFromWire ''list.rpush'' (normalizeInts (fromWire (number n))))) lengthT = Inr (RStruct [fld ''Length'' ''length'' (RInt 64 (count64 n))])"
  "decode (valueResponse (mapResponseFromWire ''list.len'' (normalizeInts (fromWire (number n))))) lengthT = Inr (RStruct [fld ''Length'' ''length'' (RInt 64 (count64 n))])"
  "decode (valueResponse (mapResponseFromWire ''set.add'' (normalizeInts (fromWire (number n))))) (one ''Added'' ''added'' (TInt 64)) = Inr (RStruct [fld ''Added'' ''added'' (RInt 64 (count64 n))])"
  "decode (valueResponse (mapResponseFromWire ''set.rem'' (normalizeInts (fromWire (number n))))) (one ''Removed'' ''removed'' (TInt 64)) = Inr (RStruct [fld ''Removed'' ''removed'' (RInt 64 (count64 n))])"
  "decode (valueResponse (mapResponseFromWire ''set.card'' (normalizeInts (fromWire (number n))))) (one ''Cardinality'' ''size'' (TInt 64)) = Inr (RStruct [fld ''Cardinality'' ''size'' (RInt 64 (count64 n))])"
  by (simp_all add: reply_simps lengthT_def assign.simps asInt_def setInt_def count64_def number_def)

lemma texts_decode:
  "map wireText rs = map Some vs \<Longrightarrow> traverse (\<lambda>item. assign TString item (zeroOf TString)) (map fromWire rs) = Inr (map RString vs)"
proof (induction rs arbitrary: vs)
  case (Cons r rs)
  then obtain v vs' where "vs = v # vs'" "wireText r = Some v" "map wireText rs = map Some vs'" by (cases vs) auto
  with Cons.IH show ?case by (simp add: wireText_fromWire assign.simps asStringValue_def)
qed simp

definition textsOf :: "string list \<Rightarrow> rval" where
  "textsOf vs = RSlice (Some (map RString vs))"

lemma strsOf_textsOf [simp]: "strsOf (textsOf vs) = vs"
  by (simp add: strsOf_def textsOf_def comp_def)

lemma slice_decode:
  "map wireText rs = map Some vs \<Longrightarrow> assign (TSlice TString) (GList (map fromWire rs)) cur = Inr (textsOf vs)"
  using texts_decode [of rs vs] by (simp add: assign.simps [of "TSlice t" for t] textsOf_def)

lemma values_decode:
  assumes "mapResponseFromWire command v = GMap [(''values'', GList (map fromWire rs))]" and "map wireText rs = map Some vs"
  shows "decode (valueResponse (mapResponseFromWire command v)) valuesT = Inr (RStruct [fld ''Values'' ''values'' (textsOf vs)])"
  using slice_decode [OF assms(2)] unfolding assms(1)
  by (simp add: valueResponse_def decode_def valuesT_def one_def fld_def wireName_def jsonFieldName_def assign.simps [of "TStruct t" for t])

lemma pop_values:
  assumes "popReply vs r"
  obtains rs where "map wireText rs = map Some vs"
    "mapResponseFromWire ''list.lpop'' (normalizeInts (fromWire r)) = GMap [(''values'', GList (map fromWire rs))]"
    "mapResponseFromWire ''list.rpop'' (normalizeInts (fromWire r)) = GMap [(''values'', GList (map fromWire rs))]"
proof -
  consider rs where "r = WArray rs" "map wireText rs = map Some vs" | "r = WNull" "vs = []" | v where "vs = [v]" "wireText r = Some v"
    using assms by (auto simp: popReply_def textArray_def split: wvalue.splits)
  then show thesis
  proof cases
    case 1
    then show thesis by (intro that [of rs]) (simp_all add: mapResponseFromWire_def resp_defs)
  next
    case 2
    then show thesis by (intro that [of "[]"]) (simp_all add: mapResponseFromWire_def resp_defs)
  next
    case 3
    then show thesis by (intro that [of "[r]"]) (simp_all add: mapResponseFromWire_def resp_defs wireText_fromWire)
  qed
qed

lemma texts_replies:
  "popReply vs r \<Longrightarrow> decode (valueResponse (mapResponseFromWire ''list.lpop'' (normalizeInts (fromWire r)))) valuesT
     = Inr (RStruct [fld ''Values'' ''values'' (textsOf vs)])"
  "popReply vs r \<Longrightarrow> decode (valueResponse (mapResponseFromWire ''list.rpop'' (normalizeInts (fromWire r)))) valuesT
     = Inr (RStruct [fld ''Values'' ''values'' (textsOf vs)])"
  "textArray vs r \<Longrightarrow> decode (valueResponse (mapResponseFromWire ''list.range'' (normalizeInts (fromWire r)))) valuesT
     = Inr (RStruct [fld ''Values'' ''values'' (textsOf vs)])"
  "textArray vs r \<Longrightarrow> decode (valueResponse (mapResponseFromWire ''set.members'' (normalizeInts (fromWire r))))
     (one ''Members'' ''members'' (TSlice TString)) = Inr (RStruct [fld ''Members'' ''members'' (textsOf vs)])"
proof -
  assume "popReply vs r"
  then obtain rs where rs: "map wireText rs = map Some vs"
    "mapResponseFromWire ''list.lpop'' (normalizeInts (fromWire r)) = GMap [(''values'', GList (map fromWire rs))]"
    "mapResponseFromWire ''list.rpop'' (normalizeInts (fromWire r)) = GMap [(''values'', GList (map fromWire rs))]"
    by (rule pop_values)
  from values_decode [OF rs(2,1)] values_decode [OF rs(3,1)]
  show "decode (valueResponse (mapResponseFromWire ''list.lpop'' (normalizeInts (fromWire r)))) valuesT
     = Inr (RStruct [fld ''Values'' ''values'' (textsOf vs)])"
    and "decode (valueResponse (mapResponseFromWire ''list.rpop'' (normalizeInts (fromWire r)))) valuesT
     = Inr (RStruct [fld ''Values'' ''values'' (textsOf vs)])" by auto
next
  assume "textArray vs r"
  then obtain rs where rs: "r = WArray rs" "map wireText rs = map Some vs" by (auto simp: textArray_def split: wvalue.splits)
  then have "mapResponseFromWire ''list.range'' (normalizeInts (fromWire r)) = GMap [(''values'', GList (map fromWire rs))]"
    by (simp add: mapResponseFromWire_def resp_defs arrayOrEmpty_def)
  from values_decode [OF this rs(2)]
  show "decode (valueResponse (mapResponseFromWire ''list.range'' (normalizeInts (fromWire r)))) valuesT
     = Inr (RStruct [fld ''Values'' ''values'' (textsOf vs)])" .
  show "decode (valueResponse (mapResponseFromWire ''set.members'' (normalizeInts (fromWire r))))
     (one ''Members'' ''members'' (TSlice TString)) = Inr (RStruct [fld ''Members'' ''members'' (textsOf vs)])"
    using slice_decode [OF rs(2)] rs(1) by (simp add: reply_simps arrayOrEmpty_def assign.simps [of "TStruct t" for t])
qed

lemma flag_replies:
  "flagReply b r \<Longrightarrow> decode (valueResponse (mapResponseFromWire ''set.ismember'' (normalizeInts (fromWire r))))
     (one ''IsMember'' ''is_member'' TBool) = Inr (RStruct [fld ''IsMember'' ''is_member'' (RBool b)])"
  by (cases b) (auto simp: flagReply_def reply_simps assign.simps asBool_def word_sless_alt)

text \<open>What a method makes of the reply of such a step.\<close>

lemma wireTexts_toWire: "map wireText (map toWire (map GStr vs)) = map Some ws \<longleftrightarrow> ws = vs"
  by (induction vs arbitrary: ws) (auto simp: Cons_eq_map_conv simp del: toWire.simps)

lemma popCount_wire: "\<bar>n\<bar> < 2 ^ 53 \<Longrightarrow> popCount (sint (wireCount n)) = popCount n"
  using sint_int64 [of n] by (auto simp: wireCount_def popCount_def)

lemma fieldOf_single [simp]: "fieldOf name (RStruct [fld name tag v]) = v"
  by (simp add: fieldOf_def fld_def)

lemma method_reads_list:
  assumes sent: "send (fst (commandOf op)) (snd (commandOf op)) env
      = (Inr (valueResponse (mapResponseFromWire (fst (commandOf op)) (normalizeInts (fromWire r)))), env')"
    and step: "serverStep arrange s (fst (wireOf op)) (map toWire (snd (wireOf op))) r s'" and sens: "sensible op"
    and "fst (commandOf op) \<in> {''list.lpush'', ''list.rpush'', ''list.lpop'', ''list.rpop'', ''list.range'', ''list.len''}"
  shows "\<exists>res. collOp send op env = (Inr res, env') \<and> specOp arrange op s res s'"
proof (cases op)
  case (LPush k vs)
  with step have "r = number (length (arrange vs @ lists s k))" "s' = s\<lparr>lists := (lists s)(k := arrange vs @ lists s k)\<rparr>"
    by (auto simp: wireTexts_toWire simp del: toWire.simps map_map)
  with LPush sent show ?thesis by (simp add: number_replies(1) listLPush_def call_def)
next
  case (RPush k vs)
  with step have "r = number (length (lists s k @ vs))" "s' = s\<lparr>lists := (lists s)(k := lists s k @ vs)\<rparr>"
    by (auto simp: wireTexts_toWire simp del: toWire.simps map_map)
  with RPush sent show ?thesis by (simp add: number_replies(2) listRPush_def call_def)
next
  case (LPop k n)
  with step sens have "popReply (take (popCount n) (lists s k)) r" "s' = s\<lparr>lists := (lists s)(k := drop (popCount n) (lists s k))\<rparr>"
    using popCount_wire [of n] by (auto simp del: toWire.simps(3))
  with LPop sent show ?thesis by (simp add: texts_replies(1) listLPop_def call_def)
next
  case (RPop k n)
  with step sens have "popReply (take (popCount n) (rev (lists s k))) r"
    "s' = s\<lparr>lists := (lists s)(k := rev (drop (popCount n) (rev (lists s k))))\<rparr>"
    using popCount_wire [of n] by (auto simp del: toWire.simps(3))
  with RPop sent show ?thesis by (simp add: texts_replies(2) listRPop_def call_def)
next
  case (Range k i j)
  with sens have "sint (word_of_int i :: int64) = i" "sint (word_of_int j :: int64) = j" by (auto intro!: sint_int64)
  with Range step have "textArray (rangeOf i j (lists s k)) r" "s' = s" by (auto simp del: toWire.simps(3))
  with Range sent show ?thesis by (simp add: texts_replies(3) listRange_def call_def)
next
  case (Len k)
  with step have "r = number (length (lists s k))" "s' = s" by (auto simp del: toWire.simps(3))
  with Len sent show ?thesis by (simp add: number_replies(3) listLen_def call_def keyOnly_def)
qed (use assms(4) in auto)

lemma method_reads_set:
  assumes sent: "send (fst (commandOf op)) (snd (commandOf op)) env
      = (Inr (valueResponse (mapResponseFromWire (fst (commandOf op)) (normalizeInts (fromWire r)))), env')"
    and step: "serverStep arrange s (fst (wireOf op)) (map toWire (snd (wireOf op))) r s'"
    and "fst (commandOf op) \<in> {''set.add'', ''set.rem'', ''set.ismember'', ''set.members'', ''set.card''}"
  shows "\<exists>res. collOp send op env = (Inr res, env') \<and> specOp arrange op s res s'"
proof (cases op)
  case (Add k ms)
  with step have "r = number (card (set ms - members s k))" "s' = s\<lparr>members := (members s)(k := members s k \<union> set ms)\<rparr>"
    by (auto simp: wireTexts_toWire simp del: toWire.simps map_map)
  with Add sent show ?thesis by (simp add: number_replies(4) setAdd_def call_def)
next
  case (Remove k ms)
  with step have "r = number (card (set ms \<inter> members s k))" "s' = s\<lparr>members := (members s)(k := members s k - set ms)\<rparr>"
    by (auto simp: wireTexts_toWire simp del: toWire.simps map_map)
  with Remove sent show ?thesis by (simp add: number_replies(5) setRemove_def call_def)
next
  case (IsMember k m)
  with step have "flagReply (m \<in> members s k) r" "s' = s" by (auto simp del: toWire.simps(3))
  with IsMember sent show ?thesis by (simp add: flag_replies setIsMember_def call_def memberPayload_def)
next
  case (Members k)
  with step obtain ms where "textArray ms r" "set ms = members s k" "distinct ms" "s' = s" by (auto simp del: toWire.simps(3))
  with Members sent show ?thesis by (simp add: texts_replies(4) setMembers_def call_def keyOnly_def)
next
  case (Card k)
  with step have "r = number (card (members s k))" "s' = s" by (auto simp del: toWire.simps(3))
  with Card sent show ?thesis by (simp add: number_replies(6) setCard_def call_def keyOnly_def)
qed (use assms(3) in auto)

section \<open>The contract\<close>

locale coll_backend =
  fixes send :: "'w sender" and arrange :: "string list \<Rightarrow> string list" and holds :: "'w env \<Rightarrow> colls \<Rightarrow> bool"
  assumes exchange: "holds env s \<Longrightarrow> sensible op \<Longrightarrow>
    \<exists>r env' s'. send (fst (commandOf op)) (snd (commandOf op)) env
        = (Inr (valueResponse (mapResponseFromWire (fst (commandOf op)) (normalizeInts (fromWire r)))), env')
      \<and> serverStep arrange s (fst (wireOf op)) (map toWire (snd (wireOf op))) r s' \<and> holds env' s'"
begin

lemma op_keeps:
  assumes "holds env s" and "sensible op"
  shows "\<exists>res env' s'. collOp send op env = (Inr res, env') \<and> specOp arrange op s res s' \<and> holds env' s'"
proof -
  obtain r env' s' where sent: "send (fst (commandOf op)) (snd (commandOf op)) env
        = (Inr (valueResponse (mapResponseFromWire (fst (commandOf op)) (normalizeInts (fromWire r)))), env')"
    and step: "serverStep arrange s (fst (wireOf op)) (map toWire (snd (wireOf op))) r s'" and "holds env' s'"
    using exchange [OF assms] by blast
  moreover have "\<exists>res. collOp send op env = (Inr res, env') \<and> specOp arrange op s res s'"
    using method_reads_list [of send op env r env' arrange s s'] method_reads_set [of send op env r env' arrange s s'] sent step assms(2)
    by (cases op) simp_all
  ultimately show ?thesis by blast
qed

lemma run_keeps:
  assumes "holds env s" and "list_all sensible ops"
  shows "\<exists>rs env' s'. collRun send ops env = (map Inr rs, env') \<and> specRun arrange ops s rs s' \<and> holds env' s'"
  using assms
proof (induction ops arbitrary: env s)
  case (Cons op ops)
  from op_keeps [OF Cons.prems(1)] Cons.prems(2) obtain r env1 s1
    where op: "collOp send op env = (Inr r, env1)" "specOp arrange op s r s1" and "holds env1 s1" by fastforce
  with Cons.IH [of env1 s1] Cons.prems(2) obtain rs env2 s2
    where "collRun send ops env1 = (map Inr rs, env2)" "specRun arrange ops s1 rs s2" "holds env2 s2" by auto
  with op show ?case by (intro exI [of _ "r # rs"] exI [of _ env2] exI [of _ s2]) auto
qed simp

end

section \<open>SynapRPC\<close>

text \<open>A live Thunder connection to such a server: every request it understands is answered by a step of the server,
  and the connection stays alive.\<close>

definition servesColl :: "(string list \<Rightarrow> string list) \<Rightarrow> 'w thunder \<Rightarrow> ('w \<Rightarrow> colls) \<Rightarrow> bool" where
  "servesColl arrange th look =
     (\<forall>h ctx cmd args w. isAlive th h w \<and> understood cmd args \<longrightarrow>
        (\<exists>r w'. callWire th h ctx cmd args w = (Inr r, w') \<and> isAlive th h w' \<and> serverStep arrange (look w) cmd args r (look w')))"

definition collHolds :: "'w platform \<Rightarrow> SynapClient \<Rightarrow> (string list \<Rightarrow> string list) \<Rightarrow> ('w \<Rightarrow> colls) \<Rightarrow> 'w env \<Rightarrow> colls \<Rightarrow> bool" where
  "collHolds pf c arrange look env s =
     (servesColl arrange (thunder pf) look \<and> txClientID c = [] \<and> look (world env) = s
      \<and> (\<exists>h. rpcClient env = Some h \<and> isAlive (thunder pf) h (world env)))"

interpretation rpc_coll: coll_backend "sendRPC pf c t ctx" arrange "collHolds pf c arrange look" for pf c t ctx arrange look
proof unfold_locales
  fix env s op
  assume "collHolds pf c arrange look env s" and op: "sensible op"
  then obtain h where *: "servesColl arrange (thunder pf) look" "txClientID c = []" "look (world env) = s" "rpcClient env = Some h"
    "isAlive (thunder pf) h (world env)" by (auto simp: collHolds_def)
  obtain r w' where call: "callWire (thunder pf) h ctx (fst (wireOf op)) (map toWire (snd (wireOf op))) (world env) = (Inr r, w')"
    and "isAlive (thunder pf) h w'" and step: "serverStep arrange s (fst (wireOf op)) (map toWire (snd (wireOf op))) r (look w')"
    using *(1,3,5) request_understood [OF op] unfolding servesColl_def by blast
  moreover have "wireRequest (fst (commandOf op)) (snd (commandOf op)) = Inr (fst (wireOf op), snd (wireOf op))"
    using wire_request [OF op] by simp
  from sendRPC_live [OF *(2,4,5) this call]
  have "sendRPC pf c t ctx (fst (commandOf op)) (snd (commandOf op)) env
      = (Inr (valueResponse (mapResponseFromWire (fst (commandOf op)) (normalizeInts (fromWire r)))), env\<lparr>world := w'\<rparr>)" .
  moreover have "collHolds pf c arrange look (env\<lparr>world := w'\<rparr>) (look w')" using * \<open>isAlive (thunder pf) h w'\<close> by (simp add: collHolds_def)
  ultimately show "\<exists>r env' s'. sendRPC pf c t ctx (fst (commandOf op)) (snd (commandOf op)) env
        = (Inr (valueResponse (mapResponseFromWire (fst (commandOf op)) (normalizeInts (fromWire r)))), env')
      \<and> serverStep arrange s (fst (wireOf op)) (map toWire (snd (wireOf op))) r s' \<and> collHolds pf c arrange look env' s'" by blast
qed

section \<open>A server\<close>

declare serverStepE [rule del]

record coll_world =
  wLists :: "string \<Rightarrow> string list"
  wSets :: "string \<Rightarrow> string list"

definition lookW :: "coll_world \<Rightarrow> colls" where
  "lookW w = \<lparr>lists = wLists w, members = (\<lambda>k. set (wSets w k))\<rparr>"

definition textOf :: "wvalue \<Rightarrow> string" where
  "textOf a = (case wireText a of Some v \<Rightarrow> v | None \<Rightarrow> [])"

definition intArg :: "wvalue \<Rightarrow> int" where
  "intArg a = (case a of WInt i \<Rightarrow> sint i | _ \<Rightarrow> 0)"

definition collServer :: "string \<Rightarrow> wvalue list \<Rightarrow> coll_world \<Rightarrow> (string + wvalue) \<times> coll_world" where
  "collServer cmd args w =
     (let k = textOf (hd args); vs = map textOf (tl args); xs = wLists w k; ys = wSets w k;
          n = popCount (intArg (args ! 1)); array = (\<lambda>vs. WArray (map WStr vs));
          setList = (\<lambda>xs. w\<lparr>wLists := (wLists w)(k := xs)\<rparr>); setSet = (\<lambda>ys. w\<lparr>wSets := (wSets w)(k := ys)\<rparr>)
      in if cmd = ''LPUSH'' then (Inr (number (length (vs @ xs))), setList (vs @ xs))
         else if cmd = ''RPUSH'' then (Inr (number (length (xs @ vs))), setList (xs @ vs))
         else if cmd = ''LPOP'' then (Inr (array (take n xs)), setList (drop n xs))
         else if cmd = ''RPOP'' then (Inr (array (take n (rev xs))), setList (rev (drop n (rev xs))))
         else if cmd = ''LRANGE'' then (Inr (array (rangeOf (intArg (args ! 1)) (intArg (args ! 2)) xs)), w)
         else if cmd = ''LLEN'' then (Inr (number (length xs)), w)
         else if cmd = ''SADD'' then (Inr (number (length (remdups (filter (\<lambda>v. v \<notin> set ys) vs)))), setSet (vs @ ys))
         else if cmd = ''SREM'' then
           (Inr (number (length (remdups (filter (\<lambda>v. v \<in> set ys) vs)))), setSet (filter (\<lambda>y. y \<notin> set vs) ys))
         else if cmd = ''SISMEMBER'' then (Inr (WBool (textOf (args ! 1) \<in> set ys)), w)
         else if cmd = ''SMEMBERS'' then (Inr (array (remdups ys)), w)
         else if cmd = ''SCARD'' then (Inr (number (length (remdups ys))), w)
         else (Inl ''ERR'', w))"

lemma textOf_Some: "wireText a \<noteq> None \<Longrightarrow> wireText a = Some (textOf a)"
  by (auto simp: textOf_def)

lemma textsOf_Some: "list_all (\<lambda>a. wireText a \<noteq> None) as \<Longrightarrow> map wireText as = map Some (map textOf as)"
  by (induction as) (auto simp: textOf_def)

lemma array_replies [simp]: "textArray vs (WArray (map WStr vs))" "popReply vs (WArray (map WStr vs))"
  by (simp_all add: popReply_def textArray_def comp_def)

lemma lookW_simps [simp]:
  "lookW (w\<lparr>wLists := (wLists w)(k := xs)\<rparr>) = (lookW w)\<lparr>lists := (lists (lookW w))(k := xs)\<rparr>"
  "lookW (w\<lparr>wSets := (wSets w)(k := ys)\<rparr>) = (lookW w)\<lparr>members := (members (lookW w))(k := set ys)\<rparr>"
  "lists (lookW w) = wLists w" "members (lookW w) k = set (wSets w k)"
  by (auto simp: lookW_def fun_eq_iff)

lemma card_counts:
  "length (remdups (filter (\<lambda>v. v \<notin> set ys) vs)) = card (set vs - set ys)"
  "length (remdups (filter (\<lambda>v. v \<in> set ys) vs)) = card (set vs \<inter> set ys)"
  by (simp_all add: length_remdups_card_conv set_diff_eq Int_def)

lemma filter_diff: "set (filter (\<lambda>y. y \<notin> A) ys) = set ys - A"
  by auto

lemma collServer_steps:
  assumes "understood cmd args"
  shows "\<exists>r w'. collServer cmd args w = (Inr r, w') \<and> serverStep id (lookW w) cmd args r (lookW w')"
proof -
  from assms consider
      a as where "cmd \<in> {''LPUSH'', ''RPUSH'', ''SADD'', ''SREM''}" "args = a # as" "wireText a \<noteq> None" "list_all (\<lambda>a. wireText a \<noteq> None) as"
    | a c where "cmd \<in> {''LPOP'', ''RPOP''}" "args = [a, WInt c]" "wireText a \<noteq> None"
    | a i j where "cmd = ''LRANGE''" "args = [a, WInt i, WInt j]" "wireText a \<noteq> None"
    | a where "cmd \<in> {''LLEN'', ''SMEMBERS'', ''SCARD''}" "args = [a]" "wireText a \<noteq> None"
    | a b where "cmd = ''SISMEMBER''" "args = [a, b]" "wireText a \<noteq> None" "wireText b \<noteq> None"
    by (auto simp: understood_def Let_def neq_Nil_conv Suc_le_length_iff numeral_2_eq_2 split: if_splits list.splits wvalue.splits)
  then show ?thesis
  proof cases
    case 1
    note args = textOf_Some [OF 1(3)] textsOf_Some [OF 1(4)]
    note steps = serverStep.lpush [where arrange = id and s = "lookW w", OF args refl] serverStep.rpush [where s = "lookW w", OF args refl]
      serverStep.sadd [OF args, of id "lookW w"] serverStep.srem [OF args, of id "lookW w"]
    from 1(1,2) steps show ?thesis
      by (elim insertE emptyE) (simp_all add: collServer_def Let_def card_counts Un_commute filter_diff del: set_filter)
  next
    case 2
    note steps = serverStep.lpop [OF textOf_Some [OF 2(3)] refl, of c "lookW w"] serverStep.rpop [OF textOf_Some [OF 2(3)] refl, of c "lookW w"]
    from 2(1,2) steps show ?thesis by (elim insertE emptyE) (simp_all add: collServer_def Let_def intArg_def)
  next
    case 3
    with serverStep.lrange [OF textOf_Some [OF 3(3)], of i j "lookW w"] show ?thesis by (simp add: collServer_def Let_def intArg_def)
  next
    case 4
    note steps = serverStep.llen [OF textOf_Some [OF 4(3)], of id "lookW w"] serverStep.scard [OF textOf_Some [OF 4(3)], of id "lookW w"]
      serverStep.smembers [OF textOf_Some [OF 4(3)], of "remdups (wSets w (textOf a))" "lookW w"]
    from 4(1,2) steps show ?thesis by (elim insertE emptyE) (simp_all add: collServer_def Let_def length_remdups_card_conv)
  next
    case 5
    with serverStep.sismember [OF textOf_Some [OF 5(3)] textOf_Some [OF 5(4)], of "lookW w"]
    show ?thesis by (simp add: collServer_def Let_def flagReply_def)
  qed
qed

definition collThunder :: "coll_world thunder" where
  "collThunder =
     \<lparr>standard = standard obligingThunder, connect = (\<lambda>ep cfg cc w. (Inr 1, w)), isAlive = (\<lambda>h w. True),
      closeClient = (\<lambda>h w. w), callWire = (\<lambda>h ctx cmd args w. collServer cmd args w), onPush = (\<lambda>h w. w),
      mapGet = mapGet obligingThunder, unwatchContext = (\<lambda>w. \<lparr>ctxDeadline = None\<rparr>)\<rparr>"

lemma collThunder_serves: "servesColl id collThunder lookW"
  using collServer_steps by (simp add: servesColl_def collThunder_def)

section \<open>Properties\<close>

text \<open>C4. Lists and sets over SynapRPC: on a live connection to a server that keeps lists and sets, any sequence of
  pushes, pops, ranges, additions, removals and queries with any byte strings succeeds, and every method
  returns what its documentation promises of the lists and sets the server then holds: pops from either end
  in order, ranges with negative positions, counts of what was added or removed, the members in some order. A push to
  the head puts the values in front in the order \<open>arrange\<close> of the server, whichever it is. Covered are pushes, additions
  and removals of at least one value, and pop counts and positions of magnitude below \<open>2^53\<close>.\<close>

theorem collections_keep_promises:
  assumes "servesColl arrange (thunder pf) look" and "rpc c = Some t" and "txClientID c = []"
    and "rpcClient env = Some h" and "isAlive (thunder pf) h (world env)" and "list_all sensible ops"
  shows "\<exists>rs env'. collRun (sendCommand pf c ctx) ops env = (map Inr rs, env')
    \<and> specRun arrange ops (look (world env)) rs (look (world env'))"
proof -
  from assms have "collHolds pf c arrange look env (look (world env))" by (simp add: collHolds_def)
  from rpc_coll.run_keeps [OF this assms(6), of t ctx] assms(2) show ?thesis
    by (auto simp: sendCommand_def collHolds_def)
qed

theorem collections_keep_promises_witness:
  "fst (collRun (sendCommand (platformOf collThunder) someClient noCtx)
      [LPush ''queue'' [''a'', ''b''], RPush ''queue'' [''c''], LPop ''queue'' 1, RPop ''queue'' 1, Range ''queue'' 0 (- 1),
       Add ''tags'' [''x'', ''x''], IsMember ''tags'' ''y'']
      \<lparr>rpcClient = Some 1, r3Conn = None, world = \<lparr>wLists = (\<lambda>k. []), wSets = (\<lambda>k. [])\<rparr>\<rparr>)
   = [Inr (Num 2), Inr (Num 3), Inr (Texts [''a'']), Inr (Texts [''c'']), Inr (Texts [''b'']), Inr (Num 1), Inr (Answer False)]"
proof -
  let ?ops = "[LPush ''queue'' [''a'', ''b''], RPush ''queue'' [''c''], LPop ''queue'' 1, RPop ''queue'' 1, Range ''queue'' 0 (- 1),
       Add ''tags'' [''x'', ''x''], IsMember ''tags'' ''y'']"
  let ?env = "\<lparr>rpcClient = Some 1, r3Conn = None, world = \<lparr>wLists = (\<lambda>k. []), wSets = (\<lambda>k. [])\<rparr>\<rparr>"
  obtain t where t: "rpc someClient = Some t" using someClient_rpc by blast
  have serves: "servesColl id (thunder (platformOf collThunder)) lookW" using collThunder_serves by simp
  have sens: "list_all sensible ?ops" by simp
  from collections_keep_promises [OF serves t _ _ _ sens, of ?env 1 noCtx]
  obtain rs env' where "collRun (sendCommand (platformOf collThunder) someClient noCtx) ?ops ?env = (map Inr rs, env')"
    and "specRun id ?ops (lookW (world ?env)) rs (lookW (world env'))"
    by (auto simp: collThunder_def simp del: collRun.simps specRun.simps)
  moreover from this(2) have "rs = [Num 2, Num 3, Texts [''a''], Texts [''c''], Texts [''b''], Num 1, Answer False]"
    by (auto simp: count64_exact popCount_def rangeOf_def position_def)
  ultimately show ?thesis by simp
qed

end
