(* ===== verification/Push.thy ===== *)
theory Push
  imports Client
begin

text \<open>
  The push subscriptions \<^verbatim>\<open>PubSubManager.Observe\<close> (\<^verbatim>\<open>pubsub.go\<close>) and \<^verbatim>\<open>KVStore.Watch\<close> (\<^verbatim>\<open>kv.go\<close>). Both
  open a push connection, let its reader put decoded frames into a buffered channel, and end through a
  \<^verbatim>\<open>sync.Once\<close> that first closes the connection and then the channel. Opening is a function; the life of
  the subscription, where the reader, the consumer and two callers of the shutdown interleave, is a step
  relation. Frames may arrive in every phase: while the shutdown runs (\<^verbatim>\<open>Watch\<close> first sends \<^verbatim>\<open>KV.UNWATCH\<close> on the
  connection) and after it, since the sources do not say that Thunder's \<^verbatim>\<open>Close\<close> waits for a running hook.
\<close>

section \<open>Frames\<close>

definition asString :: "gval option \<Rightarrow> string" where
  "asString v = (case v of Some (GStr s) \<Rightarrow> s | _ \<Rightarrow> [])"

record PushMessage =
  pmTopic :: string
  pmPayload :: string
  pmID :: string
  pmTimestamp :: int64

text \<open>The hook of \<^verbatim>\<open>SubscribePush\<close> with the callback of \<^verbatim>\<open>Observe\<close>; \<open>None\<close>: the frame is ignored.\<close>

definition observeHook :: "wvalue \<Rightarrow> PushMessage option" where
  "observeHook v =
     (case fromWire v of
        GMap frame \<Rightarrow>
          Some \<lparr>pmTopic = asString (map_of frame ''topic''), pmPayload = asString (map_of frame ''payload''),
                pmID = asString (map_of frame ''id''),
                pmTimestamp = (case map_of frame ''timestamp'' of Some (GInt64 ts) \<Rightarrow> ts | _ \<Rightarrow> 0)\<rparr>
      | _ \<Rightarrow> None)"

record WatchEvent =
  weKey :: string
  weEvent :: string
  weVersion :: uint64
  weValue :: string
  weTruncated :: bool

definition watchEventFromEnvelope :: "payload \<Rightarrow> WatchEvent" where
  "watchEventFromEnvelope envelope =
     \<lparr>weKey = asString (map_of envelope ''key''), weEvent = asString (map_of envelope ''event''),
      weVersion = (case map_of envelope ''version'' of Some (GFloat64 f) \<Rightarrow> uint64OfFloat f | _ \<Rightarrow> 0),
      weValue = asString (map_of envelope ''value''),
      weTruncated = (case map_of envelope ''truncated'' of Some (GBool b) \<Rightarrow> b | _ \<Rightarrow> False)\<rparr>"

text \<open>The hook of \<^verbatim>\<open>WatchPush\<close>: the envelope is JSON text in the frame's payload.\<close>

definition watchHook :: "wvalue \<Rightarrow> WatchEvent option" where
  "watchHook v =
     (case fromWire v of
        GMap frame \<Rightarrow>
          (case map_of frame ''payload'' of
             Some (GStr payload) \<Rightarrow> map_option watchEventFromEnvelope (unmarshalMap payload)
           | _ \<Rightarrow> None)
      | _ \<Rightarrow> None)"

section \<open>The life of a subscription\<close>

datatype phase = Running | Cancelling | Ended

text \<open>\<open>buffer\<close> is the channel's contents; the last four fields record what happened: the messages the hook
  decoded, those the consumer received, the number dropped, and a send on the closed channel.\<close>

record 'm sub =
  buffer :: "'m list"
  phase :: phase
  ctxDone :: bool
  offered :: "'m list"
  received :: "'m list"
  dropped :: nat
  crashed :: bool

definition freshSub :: "'m sub" where
  "freshSub = \<lparr>buffer = [], phase = Running, ctxDone = False, offered = [], received = [], dropped = 0, crashed = False\<rparr>"

text \<open>The \<^verbatim>\<open>select\<close> of the hook: a send on a closed channel panics, a full channel drops the message.\<close>

definition offer :: "nat \<Rightarrow> 'm \<Rightarrow> 'm sub \<Rightarrow> 'm sub" where
  "offer cap m s =
     (if phase s = Ended then s\<lparr>offered := offered s @ [m], crashed := True\<rparr>
      else if length (buffer s) < cap then s\<lparr>offered := offered s @ [m], buffer := buffer s @ [m]\<rparr>
      else s\<lparr>offered := offered s @ [m], dropped := Suc (dropped s)\<rparr>)"

datatype push_event = Frame wvalue | Receive | CancelContext | BeginShutdown | FinishShutdown

inductive push_step :: "nat \<Rightarrow> (wvalue \<Rightarrow> 'm option) \<Rightarrow> 'm sub \<Rightarrow> push_event \<Rightarrow> 'm sub \<Rightarrow> bool"
  for cap :: nat and hook :: "wvalue \<Rightarrow> 'm option" where
  frame_ignored: "\<not> crashed s \<Longrightarrow> hook v = None \<Longrightarrow> push_step cap hook s (Frame v) s"
| frame_offered: "\<not> crashed s \<Longrightarrow> hook v = Some m \<Longrightarrow> push_step cap hook s (Frame v) (offer cap m s)"
| consume: "\<not> crashed s \<Longrightarrow> buffer s = m # ms \<Longrightarrow>
    push_step cap hook s Receive (s\<lparr>buffer := ms, received := received s @ [m]\<rparr>)"
| cancel_context: "\<not> crashed s \<Longrightarrow> push_step cap hook s CancelContext (s\<lparr>ctxDone := True\<rparr>)"
| begin_shutdown: "\<not> crashed s \<Longrightarrow> phase s = Running \<Longrightarrow> push_step cap hook s BeginShutdown (s\<lparr>phase := Cancelling\<rparr>)"
| finish_shutdown: "\<not> crashed s \<Longrightarrow> phase s = Cancelling \<Longrightarrow> push_step cap hook s FinishShutdown (s\<lparr>phase := Ended\<rparr>)"

inductive_cases push_stepE: "push_step cap hook s e s'"

inductive push_run :: "nat \<Rightarrow> (wvalue \<Rightarrow> 'm option) \<Rightarrow> push_event list \<Rightarrow> 'm sub \<Rightarrow> bool"
  for cap :: nat and hook :: "wvalue \<Rightarrow> 'm option" where
  start: "push_run cap hook [] freshSub"
| step: "push_run cap hook es s \<Longrightarrow> push_step cap hook s e s' \<Longrightarrow> push_run cap hook (es @ [e]) s'"

section \<open>Opening\<close>

definition channelCap :: nat where
  "channelCap = 64"

text \<open>Both refuse a client without the SynapRPC transport.\<close>

definition Observe ::
  "'w platform \<Rightarrow> SynapClient \<Rightarrow> goctx \<Rightarrow> string list \<Rightarrow> 'w env
     \<Rightarrow> (goerr + PushMessage sub \<times> string \<times> handle) \<times> 'w env" where
  "Observe pf c ctx topics env =
     (case rpc c of
        None \<Rightarrow> (Inl (newServerError (''pub/sub push requires the synap:// transport; '' @ ''this client is on HTTP or RESP3'')), env)
      | Some t \<Rightarrow>
          (case SubscribePush (thunder pf) t ctx topics (world env) of
             (Inl e, w) \<Rightarrow> (Inl e, env\<lparr>world := w\<rparr>)
           | (Inr (sid, h), w) \<Rightarrow> (Inr (freshSub, sid, h), env\<lparr>world := w\<rparr>)))"

datatype watch_option = WithNotifyMode

definition watchMode :: "watch_option list \<Rightarrow> string" where
  "watchMode opts = foldl (\<lambda>mode opt. case opt of WithNotifyMode \<Rightarrow> ''notify'') ''value'' opts"

definition Watch ::
  "'w platform \<Rightarrow> SynapClient \<Rightarrow> goctx \<Rightarrow> string \<Rightarrow> watch_option list \<Rightarrow> 'w env
     \<Rightarrow> (goerr + WatchEvent sub \<times> string \<times> handle) \<times> 'w env" where
  "Watch pf c ctx pattern opts env =
     (case rpc c of
        None \<Rightarrow> (Inl (newServerError (''kv watch requires the synap:// transport; '' @ ''over HTTP use the /kv/ws WebSocket endpoint'')), env)
      | Some t \<Rightarrow>
          (case WatchPush (thunder pf) t ctx pattern (watchMode opts) (world env) of
             (Inl e, w) \<Rightarrow> (Inl e, env\<lparr>world := w\<rparr>)
           | (Inr (sid, h), w) \<Rightarrow> (Inr (freshSub, sid, h), env\<lparr>world := w\<rparr>)))"

section \<open>What every subscription keeps\<close>

text \<open>The messages a trace of events offers to the channel.\<close>

fun framesOf :: "(wvalue \<Rightarrow> 'm option) \<Rightarrow> push_event list \<Rightarrow> 'm list" where
  "framesOf hook [] = []"
| "framesOf hook (Frame v # es) = (case hook v of Some m \<Rightarrow> m # framesOf hook es | None \<Rightarrow> framesOf hook es)"
| "framesOf hook (_ # es) = framesOf hook es"

lemma framesOf_append: "framesOf hook (es @ es') = framesOf hook es @ framesOf hook es'"
  by (induction hook es rule: framesOf.induct) (auto split: option.splits)

text \<open>The accounting invariant: nothing beyond the capacity, nothing out of order, and every offered
  message is received, buffered, dropped or the one that hit a closed channel.\<close>

definition subInv :: "nat \<Rightarrow> 'm sub \<Rightarrow> bool" where
  "subInv cap s \<longleftrightarrow>
     length (buffer s) \<le> cap
     \<and> subseq (received s @ buffer s) (offered s)
     \<and> length (offered s) = length (received s) + length (buffer s) + dropped s + (if crashed s then 1 else 0)
     \<and> (crashed s \<longrightarrow> phase s = Ended)"

lemma subInv_fresh: "subInv cap freshSub"
  by (simp add: subInv_def freshSub_def)

lemma subInv_offer:
  assumes "subInv cap s" and "\<not> crashed s"
  shows "subInv cap (offer cap m s)"
proof -
  have "subseq (received s @ buffer s) (offered s)" using assms(1) by (simp add: subInv_def)
  then have "subseq (received s @ buffer s) (offered s @ [m])" "subseq ((received s @ buffer s) @ [m]) (offered s @ [m])"
    using list_emb_append_mono [of "(=)" "received s @ buffer s" "offered s" "[]" "[m]"]
      list_emb_append_mono [of "(=)" "received s @ buffer s" "offered s" "[m]" "[m]"] by simp_all
  then show ?thesis using assms by (auto simp: subInv_def offer_def)
qed

lemma subInv_step: "push_step cap hook s e s' \<Longrightarrow> subInv cap s \<Longrightarrow> subInv cap s'"
  by (induction rule: push_step.induct) (auto simp: subInv_offer, auto simp: subInv_def)

locale push_channel =
  fixes cap :: nat
    and hook :: "wvalue \<Rightarrow> 'm option"
  assumes cap_pos: "0 < cap"
begin

lemma run_invariant: "push_run cap hook es s \<Longrightarrow> subInv cap s"
  by (induction rule: push_run.induct) (auto intro: subInv_fresh subInv_step)

lemma run_offered: "push_run cap hook es s \<Longrightarrow> offered s = framesOf hook es"
proof (induction rule: push_run.induct)
  case start
  show ?case by (simp add: freshSub_def)
next
  case (step es s e s')
  from step.hyps(2) step.IH show ?case
    by cases (auto simp: framesOf_append offer_def)
qed

lemma run_in_order:
  assumes "push_run cap hook es s"
  shows "subseq (received s @ buffer s) (framesOf hook es) \<and> length (buffer s) \<le> cap"
  using run_invariant [OF assms] run_offered [OF assms] by (simp add: subInv_def)

lemma run_lossless:
  assumes "push_run cap hook es s" and "dropped s = 0" and "\<not> crashed s"
  shows "received s @ buffer s = framesOf hook es"
proof -
  have "subseq (received s @ buffer s) (framesOf hook es)" "length (received s @ buffer s) = length (framesOf hook es)"
    using run_invariant [OF assms(1)] run_offered [OF assms(1)] assms(2,3) by (auto simp: subInv_def)
  then show ?thesis using subseq_same_length by blast
qed

lemma accepted_when_empty:
  "phase s \<noteq> Ended \<Longrightarrow> buffer s = [] \<Longrightarrow> buffer (offer cap m s) = [m] \<and> dropped (offer cap m s) = dropped s"
  using cap_pos by (simp add: offer_def)

end

interpretation observe: push_channel channelCap observeHook
  by unfold_locales (simp add: channelCap_def)

interpretation watch: push_channel channelCap watchHook
  by unfold_locales (simp add: channelCap_def)

section \<open>Properties\<close>

text \<open>C13. Whatever the interleaving of the reader, the consumer and the shutdown, an \<^verbatim>\<open>Observe\<close>
  subscription never buffers more than 64 messages, and what the consumer has received followed by what is
  buffered is a subsequence of the decoded frames in arrival order: nothing is reordered, duplicated or made
  up. If none was dropped and none hit the closed channel, it is all of them.\<close>

theorem observe_delivers_in_order:
  assumes "push_run channelCap observeHook es s"
  shows "length (buffer s) \<le> 64 \<and> subseq (received s @ buffer s) (framesOf observeHook es)
    \<and> (dropped s = 0 \<and> \<not> crashed s \<longrightarrow> received s @ buffer s = framesOf observeHook es)"
  using observe.run_in_order [OF assms] observe.run_lossless [OF assms] by (simp add: channelCap_def)

theorem observe_delivers_in_order_witness:
  "\<exists>s. push_run channelCap observeHook [Frame (WMap [])] s \<and> length (buffer s) \<le> 64
     \<and> subseq (received s @ buffer s) (framesOf observeHook [Frame (WMap [])])"
proof -
  let ?m = "\<lparr>pmTopic = [], pmPayload = [], pmID = [], pmTimestamp = 0\<rparr>"
  have "observeHook (WMap []) = Some ?m" by (simp add: observeHook_def asString_def)
  with push_run.step [OF push_run.start frame_offered [where v = "WMap []" and m = ?m], of observeHook channelCap]
  have run: "push_run channelCap observeHook [Frame (WMap [])] (offer channelCap ?m freshSub)"
    by (simp add: freshSub_def)
  from observe_delivers_in_order [OF run] run show ?thesis by blast
qed

text \<open>A full channel drops the arriving message and keeps the older ones: a slow consumer loses the
  newest frames, not the oldest.\<close>

theorem full_channel_drops_newest:
  assumes "length (buffer s) = channelCap" and "phase s \<noteq> Ended"
  shows "buffer (offer channelCap m s) = buffer s \<and> dropped (offer channelCap m s) = Suc (dropped s)
    \<and> received (offer channelCap m s) = received s"
  using assms by (simp add: offer_def)

theorem full_channel_drops_newest_witness:
  "buffer (offer channelCap (65 :: nat) (freshSub\<lparr>buffer := [0..<64]\<rparr>)) = [0..<64]"
proof -
  have "length (buffer (freshSub\<lparr>buffer := [0..<64]\<rparr>)) = channelCap" "phase (freshSub\<lparr>buffer := [0..<64]\<rparr>) \<noteq> Ended"
    by (simp_all add: channelCap_def freshSub_def)
  from full_channel_drops_newest [OF this] show ?thesis by simp
qed

end
