(* ===== verification/Decode_Types.thy ===== *)
theory Decode_Types
  imports Response
begin

text \<open>
  Type soundness of decoding: whatever a reply holds, a successful \<^verbatim>\<open>Decode\<close> leaves the target a value
  of its Go type, integers inside their width included. It covers both decoders, the reflective
  \<open>assign\<close> and the JSON one, and so every struct the module methods declare.
\<close>

section \<open>Values of a type\<close>

fun hasType :: "gtype \<Rightarrow> rval \<Rightarrow> bool"
  and hasFields :: "(sfield \<times> gtype) list \<Rightarrow> (sfield \<times> rval) list \<Rightarrow> bool" where
  "hasType TString v = (case v of RString _ \<Rightarrow> True | _ \<Rightarrow> False)"
| "hasType TBool v = (case v of RBool _ \<Rightarrow> True | _ \<Rightarrow> False)"
| "hasType (TInt w) v = (case v of RInt w' i \<Rightarrow> w' = w \<and> - (2 ^ (w - 1)) \<le> i \<and> i < 2 ^ (w - 1) | _ \<Rightarrow> False)"
| "hasType (TUint w) v = (case v of RUint w' n \<Rightarrow> w' = w \<and> n < 2 ^ w | _ \<Rightarrow> False)"
| "hasType TFloat v = (case v of RFloat _ \<Rightarrow> True | _ \<Rightarrow> False)"
| "hasType TBytes v = (case v of RBytes _ \<Rightarrow> True | _ \<Rightarrow> False)"
| "hasType (TSlice t) v =
     (case v of RSlice vs \<Rightarrow> (case vs of None \<Rightarrow> True | Some xs \<Rightarrow> list_all (hasType t) xs) | _ \<Rightarrow> False)"
| "hasType (TMap t) v =
     (case v of
        RMap m \<Rightarrow> (case m of None \<Rightarrow> True | Some kvs \<Rightarrow> list_all (\<lambda>(k, x). isRString k \<and> hasType t x) kvs)
      | _ \<Rightarrow> False)"
| "hasType (TStruct fs) v = (case v of RStruct vs \<Rightarrow> hasFields fs vs | _ \<Rightarrow> False)"
| "hasType (TPtr t) v = (case v of RPtr p \<Rightarrow> (case p of None \<Rightarrow> True | Some x \<Rightarrow> hasType t x) | _ \<Rightarrow> False)"
| "hasType TIface v = (case v of RIface _ \<Rightarrow> True | _ \<Rightarrow> False)"
| "hasType TOther v = (v = ROther)"
| "hasFields [] vs = (vs = [])"
| "hasFields ((f, t) # fs) vs = (case vs of [] \<Rightarrow> False | (g, v) # vs' \<Rightarrow> g = f \<and> hasType t v \<and> hasFields fs vs')"

lemma zero_typed: "hasType t (zeroOf t)"
proof (induction t)
  case (TStruct fs)
  then have "hasFields fs (map (\<lambda>(f, t). (f, zeroOf t)) fs)"
    by (induction fs) fastforce+
  then show ?case by simp
qed auto

lemma traverse_all:
  assumes "traverse f xs = Inr ys" and "\<And>x y. x \<in> set xs \<Longrightarrow> f x = Inr y \<Longrightarrow> P y"
  shows "list_all P ys"
  unfolding list_all_length
proof (intro allI impI)
  fix n assume "n < length ys"
  with assms(1) have "f (xs ! n) = Inr (ys ! n)" "xs ! n \<in> set xs"
    by (simp_all add: traverse_Inr_iff list_all2_conv_all_nth)
  then show "P (ys ! n)" by (rule assms(2) [rotated])
qed

text \<open>Elements of the dynamic type a slice or map decoder reads into, whatever the element decoder.\<close>

lemma traverse_slice_typed:
  assumes "rbind (traverse d xs) (\<lambda>out. Inr (RSlice (Some out))) = Inr v"
    and "\<And>x y. x \<in> set xs \<Longrightarrow> d x = Inr y \<Longrightarrow> hasType t y"
  shows "hasType (TSlice t) v"
  using assms traverse_all [of d xs _ "hasType t"] by (auto simp: rbind_eq_Inr_iff)

lemma traverse_entries_typed:
  assumes "traverse (\<lambda>(k, x). rbind (d x) (\<lambda>e. Inr (RString k, e))) kvs = Inr out"
    and "\<And>k x y. (k, x) \<in> set kvs \<Longrightarrow> d x = Inr y \<Longrightarrow> hasType t y"
  shows "list_all (\<lambda>(k, x). isRString k \<and> hasType t x) out"
  using assms(1)
  by (rule traverse_all) (use assms(2) in \<open>auto simp: rbind_eq_Inr_iff\<close>)

section \<open>assign\<close>

lemma setInt_typed: "hasType (TInt w) (setInt w n)"
  using signed_take_bit_int_greater_eq_minus_exp [of "w - 1" "sint n"] signed_take_bit_int_less_exp [of "w - 1" "sint n"]
  by (simp add: setInt_def)

lemma setUint_typed: "setUint w n = Inr v \<Longrightarrow> hasType (TUint w) v"
  by (auto simp: setUint_def split: if_splits)

lemma assign_typed:
  "assign t src cur = Inr v \<Longrightarrow> hasType t cur \<Longrightarrow> hasType t v"
  "assignFields fs entries vs = Inr vs' \<Longrightarrow> hasFields fs vs \<Longrightarrow> hasFields fs vs'"
proof (induction t src cur and fs entries vs arbitrary: v and vs' rule: assign_assignFields.induct)
  case (1 t src cur)
  show ?case
  proof (cases "src = GNil")
    case True
    with 1(5) zero_typed [of t] show ?thesis by (auto simp: assign.simps)
  next
    case False
    show ?thesis
    proof (cases t)
      case (TSlice t')
      with False 1(5) obtain items where src: "src = GList items"
        and "rbind (traverse (\<lambda>item. assign t' item (zeroOf t')) items) (\<lambda>out. Inr (RSlice (Some out))) = Inr v"
        by (auto simp: assign.simps split: gval.splits)
      then have "hasType (TSlice t') v"
        by (elim traverse_slice_typed) (use False TSlice src in \<open>auto intro: 1(1) zero_typed\<close>)
      with TSlice show ?thesis by simp
    next
      case (TMap t')
      with False 1(5) obtain entries out where src: "src = GMap entries" and v: "v = RMap (Some out)"
        and out: "traverse (\<lambda>(k, x). rbind (assign t' x (zeroOf t')) (\<lambda>e. Inr (RString k, e))) entries = Inr out"
        by (auto simp: assign.simps rbind_eq_Inr_iff split: gval.splits)
      from out have "list_all (\<lambda>(k, x). isRString k \<and> hasType t' x) out"
        by (rule traverse_entries_typed) (use False TMap src in \<open>auto intro: 1(2) zero_typed\<close>)
      with TMap v show ?thesis by simp
    next
      case (TStruct fs)
      with 1(6) obtain ws where "cur = RStruct ws" by (auto split: rval.splits)
      with False TStruct 1(3,5,6) show ?thesis
        by (auto simp: assign.simps rbind_eq_Inr_iff split: gval.splits)
    next
      case (TPtr t')
      have cur: "hasType t' (case cur of RPtr (Some v) \<Rightarrow> v | _ \<Rightarrow> zeroOf t')"
        using 1(6) TPtr zero_typed [of t'] by (auto split: rval.splits option.splits)
      from False TPtr 1(5) show ?thesis
        using 1(4) [OF False TPtr _ cur] by (auto simp: assign.simps rbind_eq_Inr_iff)
    qed (use False 1(5) in \<open>auto simp: assign.simps rbind_eq_Inr_iff setInt_typed simp del: hasType.simps(3,4) dest: setUint_typed\<close>)
  qed
next
  case (2 f t fs entries g v vs)
  then show ?case
    by (auto simp: rbind_eq_Inr_iff split: if_splits option.splits sum.splits)
qed auto

section \<open>json.Unmarshal\<close>

lemma decodeInt_typed: "decodeInt w s = Inr v \<Longrightarrow> hasType (TInt w) v"
  by (auto simp: decodeInt_def split: sum.splits if_splits)

lemma decodeUint_typed: "decodeUint w s = Inr v \<Longrightarrow> hasType (TUint w) v"
  by (auto simp: decodeUint_def split: option.splits if_splits)

lemma seqDecode_typed:
  assumes "seqDecode d js cur = Inr v" and "hasType t cur"
    and "\<And>j c v. j \<in> set js \<Longrightarrow> d j c = Inr v \<Longrightarrow> hasType t c \<Longrightarrow> hasType t v"
  shows "hasType t v"
  using assms by (induction js arbitrary: cur) (auto simp: rbind_eq_Inr_iff)

lemma aput_all: "list_all P m \<Longrightarrow> P (k, v) \<Longrightarrow> list_all P (aput k v m)"
  by (induction k v m rule: aput.induct) auto

lemma foldl_aput_all:
  "list_all P acc \<Longrightarrow> list_all P kvs \<Longrightarrow> list_all P (foldl (\<lambda>m (k, v). aput k v m) acc kvs)"
  by (induction kvs arbitrary: acc) (auto simp: aput_all)

lemma makeMap_all: "list_all P kvs \<Longrightarrow> list_all P (makeMap kvs)"
  by (simp add: makeMap_def foldl_aput_all)

lemma decodeJson_typed:
  "decodeJson t j cur = Inr v \<Longrightarrow> hasType t cur \<Longrightarrow> hasType t v"
  "decodeFields all fs kvs vs = Inr vs' \<Longrightarrow> hasFields fs vs \<Longrightarrow> hasFields fs vs'"
proof (induction t j cur and all fs kvs vs arbitrary: v and vs' rule: decodeJson_decodeFields.induct)
  case (1 t j cur)
  show ?case
  proof (cases t)
    case (TSlice t')
    with 1(5) consider "v = RSlice None" | js where "j = JArr js"
      "rbind (traverse (\<lambda>e. decodeJson t' e (zeroOf t')) js) (\<lambda>vs. Inr (RSlice (Some vs))) = Inr v"
      by (auto simp: decodeJson.simps split: json.splits)
    then show ?thesis
    proof cases
      case 2
      from 2(2) have "hasType (TSlice t') v"
        by (rule traverse_slice_typed) (use TSlice 2(1) in \<open>auto intro: 1(1) zero_typed\<close>)
      with TSlice show ?thesis by simp
    qed (simp add: TSlice)
  next
    case (TMap t')
    with 1(5) consider "v = RMap None" | kvs out where "j = JObj kvs" "v = RMap (Some (makeMap out))"
      "traverse (\<lambda>(k, e). rbind (decodeJson t' e (zeroOf t')) (\<lambda>v. Inr (RString k, v))) kvs = Inr out"
      by (auto simp: decodeJson.simps rbind_eq_Inr_iff split: json.splits)
    then show ?thesis
    proof cases
      case 2
      from 2(3) have "list_all (\<lambda>(k, x). isRString k \<and> hasType t' x) out"
        by (rule traverse_entries_typed) (use TMap 2(1) in \<open>auto intro: 1(2) zero_typed\<close>)
      with TMap 2(2) show ?thesis by (simp add: makeMap_all)
    qed (simp add: TMap)
  next
    case (TStruct fs)
    with 1(6) obtain ws where "cur = RStruct ws" by (auto split: rval.splits)
    with TStruct 1(3,5,6) show ?thesis
      by (auto simp: decodeJson.simps rbind_eq_Inr_iff split: json.splits)
  next
    case (TPtr t')
    have cur: "hasType t' (case cur of RPtr (Some v) \<Rightarrow> v | _ \<Rightarrow> zeroOf t')"
      using 1(6) TPtr zero_typed [of t'] by (auto split: rval.splits option.splits)
    with TPtr 1(5) show ?thesis
      using 1(4) [OF TPtr _ _ cur] by (auto simp: decodeJson.simps rbind_eq_Inr_iff split: if_splits)
  qed (use 1(5,6) in \<open>auto simp: decodeJson.simps rbind_eq_Inr_iff simp del: hasType.simps(3,4)
         split: json.splits sum.splits option.splits if_splits dest: decodeInt_typed decodeUint_typed\<close>)
next
  case (2 all f t fs kvs g v vs)
  have "hasType t x" if "seqDecode (decodeJson t) (membersFor all f kvs) v = Inr x" "hasType t v" for x
    using that 2(1) by (rule seqDecode_typed)
  with 2(2-4) show ?case
    by (auto simp: rbind_eq_Inr_iff)
qed auto

section \<open>The two decoders\<close>

text \<open>The replies both transports can carry: no floats, text in UTF-8, the entries of a map listed by key.\<close>

fun plainReply :: "gval \<Rightarrow> bool" where
  "plainReply GNil = True"
| "plainReply (GBool b) = True"
| "plainReply (GInt64 i) = True"
| "plainReply (GStr s) = validString s"
| "plainReply (GList vs) = list_all plainReply vs"
| "plainReply (GMap kvs) =
     (distinct (map fst kvs) \<and> sorted (map fst kvs) \<and> list_all (\<lambda>(k, v). validString k \<and> plainReply v) kvs)"
| "plainReply _ = False"

fun plainJson :: "gval \<Rightarrow> json" where
  "plainJson (GBool b) = JBool b"
| "plainJson (GInt64 i) = JNum (formatInt (sint i))"
| "plainJson (GStr s) = JStr s"
| "plainJson (GList vs) = JArr (map plainJson vs)"
| "plainJson (GMap kvs) = JObj (map (\<lambda>(k, v). (k, plainJson v)) kvs)"
| "plainJson _ = JNull"

definition usable :: "sfield \<Rightarrow> bool" where
  "usable f = (pkgPath f = [] \<and> \<not> snd (snd (jsonFieldName f)))"

text \<open>No two fields share a name, and no key is another spelling of one.\<close>

definition namesOK :: "(sfield \<times> gtype) list \<Rightarrow> string list \<Rightarrow> bool" where
  "namesOK fs ks =
     (distinct (map (wireName \<circ> fst) (filter (usable \<circ> fst) fs))
      \<and> list_all (\<lambda>k. list_all (\<lambda>(f, t). usable f \<and> foldName k = foldName (wireName f) \<longrightarrow> k = wireName f) fs) ks)"

text \<open>A reply of the shape a target expects; a nil fits every target.\<close>

fun fits :: "gtype \<Rightarrow> gval \<Rightarrow> bool" where
  "fits TString v = (case v of GNil \<Rightarrow> True | GStr s \<Rightarrow> True | _ \<Rightarrow> False)"
| "fits TBool v = (case v of GNil \<Rightarrow> True | GBool b \<Rightarrow> True | _ \<Rightarrow> False)"
| "fits (TInt w) v =
     (case v of GNil \<Rightarrow> True | GInt64 i \<Rightarrow> - (2 ^ (w - 1)) \<le> sint i \<and> sint i < 2 ^ (w - 1) | _ \<Rightarrow> False)"
| "fits (TUint w) v = (case v of GNil \<Rightarrow> True | GInt64 i \<Rightarrow> 0 \<le> sint i \<and> sint i < 2 ^ w | _ \<Rightarrow> False)"
| "fits (TSlice t) v = (case v of GNil \<Rightarrow> True | GList vs \<Rightarrow> list_all (fits t) vs | _ \<Rightarrow> False)"
| "fits (TMap t) v = (case v of GNil \<Rightarrow> True | GMap kvs \<Rightarrow> list_all (\<lambda>(k, x). fits t x) kvs | _ \<Rightarrow> False)"
| "fits (TStruct fs) v =
     (case v of
        GNil \<Rightarrow> True
      | GMap kvs \<Rightarrow> namesOK fs (map fst kvs) \<and>
          list_all (\<lambda>(f, t). case map_of kvs (wireName f) of None \<Rightarrow> True | Some x \<Rightarrow> fits t x) fs
      | _ \<Rightarrow> False)"
| "fits (TPtr t) v = (v = GNil \<or> fits t v)"
| "fits TFloat v = (v = GNil)"
| "fits TBytes v = (v = GNil)"
| "fits TIface v = (case v of GNil \<Rightarrow> True | GStr s \<Rightarrow> True | GBool b \<Rightarrow> True | _ \<Rightarrow> False)"
| "fits TOther v = False"

lemma optAll_map_Some: "(\<And>x. x \<in> set xs \<Longrightarrow> f x = Some (g x)) \<Longrightarrow> optAll (map f xs) = Some (map g xs)"
  by (auto simp: optAll_def image_iff comp_def)

lemma plain_json:
  "plainReply v \<Longrightarrow> jsonOfValue v = Some (plainJson v) \<and> goodJson (plainJson v) \<and> validJson (plainJson v)"
proof (induction v rule: plainJson.induct)
  case (4 vs)
  then show ?case by (auto simp: list_all_iff optAll_map_Some)
next
  case (5 kvs)
  then have "optAll (map (\<lambda>(k, v). map_option (Pair k) (jsonOfValue v)) kvs) = Some (map (\<lambda>(k, v). (k, plainJson v)) kvs)"
    by (intro optAll_map_Some) (fastforce simp: list_all_iff)
  moreover have "sorted (map fst (map (\<lambda>(k, v). (k, plainJson v)) kvs))"
    using 5(2) by (simp add: comp_def case_prod_beta)
  ultimately show ?case using 5 by (fastforce simp: list_all_iff sort_key_id_if_sorted)
qed auto

lemma filter_key:
  "distinct (map fst kvs) \<Longrightarrow>
   filter (\<lambda>(k, v). k = x) kvs = (case map_of kvs x of None \<Rightarrow> [] | Some v \<Rightarrow> [(x, v)])"
proof (induction kvs)
  case (Cons kv kvs)
  moreover have "filter (\<lambda>(k, v). k = x) kvs = []" if "x \<notin> fst ` set kvs" 
    using that by (force simp: filter_empty_conv)
  moreover have "map_of kvs x = None" if "x \<notin> fst ` set kvs" using that by (simp add: map_of_eq_None_iff)
  ultimately show ?case by (cases kv) (auto split: option.splits)
qed simp

lemma find_SomeD: "List.find P xs = Some x \<Longrightarrow> x \<in> set xs \<and> P x"
  by (auto simp: find_Some_iff)

lemma findField_iff:
  assumes "namesOK fs ks" and "k \<in> set ks" and "(f, t) \<in> set fs"
  shows "findField fs k = Some f \<longleftrightarrow> usable f \<and> wireName f = k"
proof -
  define U where "U = filter (usable \<circ> fst) fs"
  have U: "filter (\<lambda>(f, t). pkgPath f = [] \<and> \<not> snd (snd (jsonFieldName f))) fs = U"
    unfolding U_def by (rule filter_cong) (auto simp: usable_def)
  have ff: "findField fs k =
      (case List.find (\<lambda>(f, t). wireName f = k) U of
         Some (f, t) \<Rightarrow> Some f
       | None \<Rightarrow> map_option fst (List.find (\<lambda>(f, t). foldName (wireName f) = foldName k) U))"
    by (simp add: findField_def U)
  from assms(1) have inj: "inj_on (wireName \<circ> fst) (set U)"
    by (auto simp: namesOK_def U_def distinct_map)
  from assms(1,2) have spell: "k = wireName g" if "(g, u) \<in> set U" "foldName (wireName g) = foldName k" for g u
    using that by (fastforce simp: namesOK_def U_def list_all_iff)
  show ?thesis
  proof
    assume *: "findField fs k = Some f"
    show "usable f \<and> wireName f = k"
    proof (cases "List.find (\<lambda>(f, t). wireName f = k) U")
      case None
      with * obtain u where "List.find (\<lambda>(f, t). foldName (wireName f) = foldName k) U = Some (f, u)"
        by (auto simp: ff)
      from find_SomeD [OF this] spell [of f u] show ?thesis by (auto simp: U_def)
    next
      case (Some gu)
      with * find_SomeD [OF Some] show ?thesis by (auto simp: ff U_def split: prod.splits)
    qed
  next
    assume *: "usable f \<and> wireName f = k"
    with assms(3) have mem: "(f, t) \<in> set U" by (simp add: U_def)
    with * obtain g u where fnd: "List.find (\<lambda>(f, t). wireName f = k) U = Some (g, u)"
      by (cases "List.find (\<lambda>(f, t). wireName f = k) U") (auto simp: find_None_iff)
    from find_SomeD [OF fnd] * mem have "(g, u) = (f, t)"
      by (intro inj_onD [OF inj]) auto
    with fnd show "findField fs k = Some f" by (simp add: ff)
  qed
qed

lemma membersFor_plain:
  assumes "namesOK fs (map fst kvs)" and "(f, t) \<in> set fs" and "distinct (map fst kvs)"
  shows "membersFor fs f (map (\<lambda>(k, v). (k, plainJson v)) kvs) =
    (if usable f then (case map_of kvs (wireName f) of None \<Rightarrow> [] | Some v \<Rightarrow> [plainJson v]) else [])"
proof -
  let ?js = "map (\<lambda>(k, v). (k, plainJson v)) kvs"
  have "filter (\<lambda>(k, j). findField fs k = Some f) ?js = filter (\<lambda>(k, j). usable f \<and> k = wireName f) ?js"
    using findField_iff [OF assms(1) _ assms(2)] by (intro filter_cong refl) force
  moreover have "distinct (map fst ?js)" using assms(3) by (simp add: comp_def case_prod_beta)
  moreover have "map_of ?js (wireName f) = map_option plainJson (map_of kvs (wireName f))"
    by (simp add: map_of_map)
  ultimately show ?thesis
    by (auto simp: membersFor_def filter_key split: option.splits)
qed

text \<open>Field by field, over the fields still to fill.\<close>

lemma fields_agree:
  assumes "\<And>f t. (f, t) \<in> set fs \<Longrightarrow> membersFor all f js =
      (if usable f then (case map_of kvs (wireName f) of None \<Rightarrow> [] | Some v \<Rightarrow> [plainJson v]) else [])"
    and "\<And>f t v. (f, t) \<in> set fs \<Longrightarrow> map_of kvs (wireName f) = Some v \<Longrightarrow>
      \<exists>r. assign t v (zeroOf t) = Inr r \<and> decodeJson t (plainJson v) (zeroOf t) = Inr r"
  shows "\<exists>r. assignFields fs kvs (map (\<lambda>(f, t). (f, zeroOf t)) fs) = Inr r
    \<and> decodeFields all fs js (map (\<lambda>(f, t). (f, zeroOf t)) fs) = Inr r"
  using assms
proof (induction fs)
  case (Cons ft fs)
  obtain f t where ft: "ft = (f, t)" by fastforce
  from Cons obtain r where r: "assignFields fs kvs (map (\<lambda>(f, t). (f, zeroOf t)) fs) = Inr r"
      "decodeFields all fs js (map (\<lambda>(f, t). (f, zeroOf t)) fs) = Inr r"
    by (metis (no_types, lifting) list.set_intros(2))
  have m: "membersFor all f js =
      (if usable f then (case map_of kvs (wireName f) of None \<Rightarrow> [] | Some v \<Rightarrow> [plainJson v]) else [])"
    by (rule Cons.prems(1) [of f t]) (simp add: ft)
  show ?case
  proof (cases "usable f \<and> map_of kvs (wireName f) \<noteq> None")
    case True
    then obtain v where v: "usable f" "map_of kvs (wireName f) = Some v" by auto
    with Cons.prems(2) [of f t v] ft obtain x
      where "assign t v (zeroOf t) = Inr x" "decodeJson t (plainJson v) (zeroOf t) = Inr x" by auto
    with v r m show ?thesis by (auto simp: ft usable_def)
  next
    case False
    with r m show ?thesis by (auto simp: ft usable_def)
  qed
qed simp

lemma traverse_agree:
  assumes "\<And>x. x \<in> set xs \<Longrightarrow> \<exists>r. f x = Inr r \<and> g x = Inr r"
  shows "\<exists>rs. traverse f xs = Inr rs \<and> traverse g xs = Inr rs"
  using assms
proof (induction xs)
  case (Cons x xs)
  then obtain rs where "traverse f xs = Inr rs" "traverse g xs = Inr rs" by auto
  moreover from Cons.prems [of x] obtain r where "f x = Inr r" "g x = Inr r" by auto
  ultimately show ?case by simp
qed simp

lemma traverse_map: "traverse f (map g xs) = traverse (\<lambda>x. f (g x)) xs"
  by (induction xs) auto

lemma traverse_keys:
  "traverse (\<lambda>(k, x). rbind (d x) (\<lambda>e. Inr (RString k, e))) kvs = Inr out \<Longrightarrow> map fst out = map (RString \<circ> fst) kvs"
  by (induction kvs arbitrary: out) (auto simp: rbind_eq_Inr_iff)

lemma plainJson_JNull: "plainReply v \<Longrightarrow> plainJson v = JNull \<longleftrightarrow> v = GNil"
  by (cases v) auto

lemma unat_sint: "0 \<le> sint (i :: int64) \<Longrightarrow> unat i = nat (sint i)"
proof -
  assume "0 \<le> sint i"
  moreover have "sint i < 2 ^ 64" using sint_int64_bounds(2) [of i] by simp
  ultimately have "uint i = sint i"
    using uint_word_of_int_eq [of "sint i", where 'a = 64] by (simp add: take_bit_int_eq_self)
  then show ?thesis by (simp flip: nat_uint_eq)
qed

text \<open>The two decoders on one type, from a zero target; compound types from their components.\<close>

definition agreeAt :: "gtype \<Rightarrow> bool" where
  "agreeAt t = (\<forall>v. fits t v \<longrightarrow> plainReply v \<longrightarrow>
     (\<exists>r. assign t v (zeroOf t) = Inr r \<and> decodeJson t (plainJson v) (zeroOf t) = Inr r))"

lemma agreeAtD:
  "agreeAt t \<Longrightarrow> fits t v \<Longrightarrow> plainReply v \<Longrightarrow> \<exists>r. assign t v (zeroOf t) = Inr r \<and> decodeJson t (plainJson v) (zeroOf t) = Inr r"
  by (simp add: agreeAt_def)

lemma agree_slice:
  assumes TSlice: "agreeAt t" "fits (TSlice t) v" "plainReply v"
  shows "\<exists>r. assign (TSlice t) v (zeroOf (TSlice t)) = Inr r \<and> decodeJson (TSlice t) (plainJson v) (zeroOf (TSlice t)) = Inr r"
proof (cases v)
  case (GList vs)
  with TSlice have "\<exists>rs. traverse (\<lambda>e. assign t e (zeroOf t)) vs = Inr rs
      \<and> traverse (\<lambda>e. decodeJson t (plainJson e) (zeroOf t)) vs = Inr rs"
    by (intro traverse_agree) (auto simp: list_all_iff intro!: agreeAtD [OF TSlice(1)])
  with GList show ?thesis by (auto simp: assign.simps decodeJson.simps traverse_map)
qed (use TSlice in \<open>auto simp: assign.simps decodeJson.simps\<close>)

lemma agree_map:
  assumes TMap: "agreeAt t" "fits (TMap t) v" "plainReply v"
  shows "\<exists>r. assign (TMap t) v (zeroOf (TMap t)) = Inr r \<and> decodeJson (TMap t) (plainJson v) (zeroOf (TMap t)) = Inr r"
proof (cases v)
  case (GMap kvs)
  let ?d = "\<lambda>d. traverse (\<lambda>(k, x). rbind (d x) (\<lambda>e. Inr (RString k, e))) kvs"
  have "\<exists>rs. ?d (\<lambda>x. assign t x (zeroOf t)) = Inr rs \<and> ?d (\<lambda>x. decodeJson t (plainJson x) (zeroOf t)) = Inr rs"
    using TMap GMap agreeAtD [OF TMap(1)] by (intro traverse_agree) (fastforce simp: list_all_iff)
  then obtain rs where rs: "?d (\<lambda>x. assign t x (zeroOf t)) = Inr rs"
      "?d (\<lambda>x. decodeJson t (plainJson x) (zeroOf t)) = Inr rs" by blast
  from TMap(3) GMap have "distinct (map fst rs)"
    unfolding traverse_keys [OF rs(1)] by (simp add: distinct_map comp_inj_on_iff inj_on_def)
  with GMap rs show ?thesis
    by (simp add: assign.simps [of "TMap t"] decodeJson.simps [of "TMap t"] traverse_map case_prod_beta' makeMap_distinct)
qed (use TMap in \<open>auto simp: assign.simps decodeJson.simps\<close>)

lemma agree_struct:
  assumes TStruct: "\<And>f t. (f, t) \<in> set fs \<Longrightarrow> agreeAt t" "fits (TStruct fs) v" "plainReply v"
  shows "\<exists>r. assign (TStruct fs) v (zeroOf (TStruct fs)) = Inr r \<and> decodeJson (TStruct fs) (plainJson v) (zeroOf (TStruct fs)) = Inr r"
proof (cases v)
  case (GMap kvs)
  let ?js = "map (\<lambda>(k, v). (k, plainJson v)) kvs" and ?zeros = "map (\<lambda>(f, t). (f, zeroOf t)) fs"
  have "\<exists>r. assignFields fs kvs ?zeros = Inr r \<and> decodeFields fs fs ?js ?zeros = Inr r"
  proof (rule fields_agree)
    fix f t assume "(f, t) \<in> set fs"
    with TStruct GMap show "membersFor fs f ?js =
        (if usable f then (case map_of kvs (wireName f) of None \<Rightarrow> [] | Some v \<Rightarrow> [plainJson v]) else [])"
      by (intro membersFor_plain) auto
  next
    fix f t v assume "(f, t) \<in> set fs" "map_of kvs (wireName f) = Some v"
    moreover from this TStruct(2,3) GMap have "fits t v" "plainReply v"
      by (auto simp: list_all_iff dest!: map_of_SomeD split: option.splits)
    ultimately show "\<exists>r. assign t v (zeroOf t) = Inr r \<and> decodeJson t (plainJson v) (zeroOf t) = Inr r"
      using agreeAtD [OF TStruct(1)] by blast
  qed
  with GMap show ?thesis by (auto simp: assign.simps decodeJson.simps)
qed (use TStruct in \<open>auto simp: assign.simps decodeJson.simps\<close>)

lemma agree_uint:
  assumes "fits (TUint w) v"
  shows "\<exists>r. assign (TUint w) v (zeroOf (TUint w)) = Inr r \<and> decodeJson (TUint w) (plainJson v) (zeroOf (TUint w)) = Inr r"
proof -
  from assms consider "v = GNil" | i where "v = GInt64 i" "0 \<le> sint i" "sint i < 2 ^ w" by (auto split: gval.splits)
then show ?thesis
proof cases
  case 2
  from 2(2) have "unat i = nat (sint i)" by (rule unat_sint)
  moreover have "nat (sint i) < 2 ^ w" using 2(2,3) by (simp add: nat_less_iff)
  moreover have "parseNat (formatInt (sint i)) = Some (nat (sint i))"
    using 2(2) by (simp add: formatInt_def parseNat_formatNat)
  ultimately show ?thesis using 2
    by (simp add: assign.simps decodeJson.simps asInt_def setUint_def decodeUint_def take_bit_nat_eq_self)
qed (simp add: assign.simps decodeJson.simps)
qed

lemma decoders_agree_zero: "agreeAt t"
proof (induction t)
  case (TSlice t)
  then show ?case unfolding agreeAt_def [of "TSlice t"] using agree_slice by blast
next
  case (TMap t)
  then show ?case unfolding agreeAt_def [of "TMap t"] using agree_map by blast
next
  case (TStruct fs)
  then have "agreeAt t" if "(f, t) \<in> set fs" for f t using that by fastforce
  then show ?case unfolding agreeAt_def [of "TStruct fs"] using agree_struct by blast
next
  case (TUint w)
  then show ?case unfolding agreeAt_def using agree_uint by blast
next
  case (TPtr t)
  show ?case unfolding agreeAt_def
  proof (intro allI impI)
    fix v
    assume "fits (TPtr t) v" "plainReply v"
    then show "\<exists>r. assign (TPtr t) v (zeroOf (TPtr t)) = Inr r \<and> decodeJson (TPtr t) (plainJson v) (zeroOf (TPtr t)) = Inr r"
      using agreeAtD [OF TPtr, of v]
      by (cases "v = GNil") (auto simp: assign.simps [of "TPtr t"] decodeJson.simps [of "TPtr t"] plainJson_JNull)
  qed
next
  case (TInt w)
  then show ?case
    by (auto simp: agreeAt_def assign.simps decodeJson.simps asInt_def setInt_def decodeInt_def codec_simps signed_take_bit_int_eq_self
         split: gval.splits)
qed (auto simp: agreeAt_def assign.simps decodeJson.simps asStringValue_def asBool_def split: gval.splits)

section \<open>Properties\<close>

text \<open>Decoding leaves a value of the target's Go type on both transports.\<close>

lemma decode_typed:
  assumes "decode r t = Inr v"
  shows "hasType t v"
  using assms
  by (auto simp: decode_def zero_typed split: response.splits option.splits dest: assign_typed(1) decodeJson_typed(1))

text \<open>C8. A plain reply means the same on both transports. Plain are nil, booleans, \<^verbatim>\<open>int64\<close> numbers, strings in UTF-8,
  and lists and maps of them with the entries of a map in the order of the keys, which are UTF-8 too. Such a reply fits a
  target of strings, booleans, integers wide enough for the number, slices, maps, pointers, structs whose wire
  names are distinct and not hit by a key that differs from them in case only, and \<^verbatim>\<open>interface{}\<close> for a string or a
  boolean. Decoded from the binary value or from the JSON text of that value, a plain reply that fits succeeds with the
  same result, absent fields and nulls included. Left out, since the decoders differ there, are floats, byte
  slices that are not nil (raw bytes against base64), numbers, lists and maps into an \<^verbatim>\<open>interface{}\<close>, and integers too wide
  for the target.\<close>

theorem decoders_agree:
  assumes "fits t v" and "plainReply v"
  shows "\<exists>text r. marshalValue v = Some text \<and> decode (jsonResponse text) t = Inr r
    \<and> decode (valueResponse v) t = Inr r"
proof -
  from plain_json [OF assms(2)] have "marshalValue v = Some (printJson (plainJson v))"
    and "parseJson (printJson (plainJson v)) = Some (plainJson v)"
    by (auto simp: marshalValue_def codec_simps sanitizeJson_valid)
  with agreeAtD [OF decoders_agree_zero assms] show ?thesis
    by (auto simp: decode_def jsonResponse_def valueResponse_def)
qed

theorem decoders_agree_witness:
  "\<exists>text r. marshalValue (GMap [(''depth'', GInt64 7), (''items'', GList [GStr ''a'', GNil])]) = Some text
    \<and> decode (jsonResponse text) (TStruct [fld ''Depth'' ''depth'' (TUint 8), fld ''Items'' ''items'' (TSlice TString),
         fld ''Next'' ''next,omitempty'' (TPtr (TInt 64))]) = Inr r
    \<and> decode (valueResponse (GMap [(''depth'', GInt64 7), (''items'', GList [GStr ''a'', GNil])]))
         (TStruct [fld ''Depth'' ''depth'' (TUint 8), fld ''Items'' ''items'' (TSlice TString),
           fld ''Next'' ''next,omitempty'' (TPtr (TInt 64))]) = Inr r"
  by (rule decoders_agree)
    (simp_all add: fld_def namesOK_def usable_def jsonFieldName_def wireName_def validString_ascii_Cons lowerChar_def)

text \<open>C36. Where the transports differ: an integer too large for an unsigned target is refused by the JSON
  decoder, but silently reduced modulo the target's width by the binary one.\<close>

theorem oversized_uint_truncated:
  assumes "2 ^ w \<le> sint i"
  shows "decode (valueResponse (GInt64 i)) (TUint w) = Inr (RUint w (nat (sint i) mod 2 ^ w))
    \<and> (\<exists>e. decode (jsonResponse (formatInt (sint i))) (TUint w) = Inl e)"
proof -
  have pos: "0 \<le> sint i" using assms order_trans [of 0 "2 ^ w" "sint i"] by simp
  from unat_sint [OF pos] pos have "decode (valueResponse (GInt64 i)) (TUint w) = Inr (RUint w (nat (sint i) mod 2 ^ w))"
    by (simp add: decode_def valueResponse_def assign.simps asInt_def setUint_def take_bit_eq_mod)
  moreover have "parseJson (formatInt (sint i)) = Some (JNum (formatInt (sint i)))"
    using parseJson_printJson [of "JNum (formatInt (sint i))"] by simp
  moreover have "parseNat (formatInt (sint i)) = Some (nat (sint i))" "\<not> nat (sint i) < 2 ^ w"
    using pos assms by (simp_all add: formatInt_def parseNat_formatNat nat_less_iff)
  ultimately show ?thesis
    by (simp add: decode_def jsonResponse_def decodeJson.simps decodeUint_def)
qed

theorem oversized_uint_truncated_witness:
  "decode (valueResponse (GInt64 300)) (TUint 8) = Inr (RUint 8 44)
    \<and> (\<exists>e. decode (jsonResponse (formatInt 300)) (TUint 8) = Inl e)"
  using oversized_uint_truncated [of 8 300] by simp

end
