(* ===== verification/Error_Contract.thy ===== *)
theory Error_Contract
  imports KV Collections Messaging Transaction Push Decode_Types
begin

text \<open>
  What a module method can fail with. The contract between the modules and the transports is a locale:
  a sender that fails only with allowed errors on the payloads the modules build, where a \<^verbatim>\<open>*SynapError\<close> is
  allowed. Every method of every module then fails only with allowed errors; the locale is interpreted on the
  senders of SynapRPC (every error is a \<^verbatim>\<open>*SynapError\<close>), HTTP (no panic) and RESP3, inside a transaction
  and outside.
\<close>

definition raisesOnly :: "(goerr \<Rightarrow> bool) \<Rightarrow> ('w env \<Rightarrow> (goerr + 'a) \<times> 'w env) \<Rightarrow> bool" where
  "raisesOnly P m = (\<forall>env e env'. m env = (Inl e, env') \<longrightarrow> P e)"

text \<open>All methods of all modules, for all arguments.\<close>

definition modulesRaiseOnly :: "(goerr \<Rightarrow> bool) \<Rightarrow> 'w sender \<Rightarrow> bool" where
  "modulesRaiseOnly P send =
     ((\<forall>k v ttl. raisesOnly P (kvSet send k v ttl)) \<and> (\<forall>k. raisesOnly P (kvGet send k))
      \<and> (\<forall>k. raisesOnly P (kvDelete send k)) \<and> (\<forall>k. raisesOnly P (kvExists send k))
      \<and> (\<forall>k. raisesOnly P (kvIncr send k)) \<and> (\<forall>k. raisesOnly P (kvDecr send k)) \<and> raisesOnly P (kvStats send)
      \<and> (\<forall>k f v. raisesOnly P (hashSet send k f v)) \<and> (\<forall>k f. raisesOnly P (hashGet send k f))
      \<and> (\<forall>k. raisesOnly P (hashGetAll send k)) \<and> (\<forall>k f. raisesOnly P (hashDel send k f))
      \<and> (\<forall>k f. raisesOnly P (hashExists send k f))
      \<and> (\<forall>k vs. raisesOnly P (listLPush send k vs)) \<and> (\<forall>k vs. raisesOnly P (listRPush send k vs))
      \<and> (\<forall>k n. raisesOnly P (listLPop send k n)) \<and> (\<forall>k n. raisesOnly P (listRPop send k n))
      \<and> (\<forall>k i j. raisesOnly P (listRange send k i j)) \<and> (\<forall>k. raisesOnly P (listLen send k))
      \<and> (\<forall>k ms. raisesOnly P (setAdd send k ms)) \<and> (\<forall>k. raisesOnly P (setMembers send k))
      \<and> (\<forall>k m. raisesOnly P (setIsMember send k m)) \<and> (\<forall>k ms. raisesOnly P (setRemove send k ms))
      \<and> (\<forall>k. raisesOnly P (setCard send k))
      \<and> (\<forall>q d a. raisesOnly P (queueCreate send q d a)) \<and> (\<forall>q b p r. raisesOnly P (queuePublish send q b p r))
      \<and> (\<forall>q c. raisesOnly P (queueConsume send q c)) \<and> (\<forall>q m. raisesOnly P (queueAck send q m))
      \<and> (\<forall>q m. raisesOnly P (queueNack send q m)) \<and> (\<forall>q. raisesOnly P (queueStats send q))
      \<and> raisesOnly P (queueList send) \<and> (\<forall>q. raisesOnly P (queueDelete send q))
      \<and> (\<forall>r n. raisesOnly P (streamCreate send r n)) \<and> (\<forall>r n. raisesOnly P (streamGetOrCreate send r n))
      \<and> (\<forall>r e d. raisesOnly P (streamPublish send r e d)) \<and> (\<forall>r off n. raisesOnly P (streamConsume send r off n))
      \<and> (\<forall>r. raisesOnly P (streamStats send r)) \<and> raisesOnly P (streamList send)
      \<and> (\<forall>r. raisesOnly P (streamDelete send r))
      \<and> (\<forall>t d p. raisesOnly P (pubsubPublish send t d p)) \<and> (\<forall>s ts. raisesOnly P (pubsubSubscribe send s ts))
      \<and> (\<forall>s ts. raisesOnly P (pubsubUnsubscribe send s ts)) \<and> raisesOnly P (pubsubListTopics send))"

text \<open>A failing random source, the one failure of \<^verbatim>\<open>TransactionManager.Begin\<close>.\<close>

definition beginFailed :: "goerr \<Rightarrow> bool" where
  "beginFailed e = (case e of Errorf msg (Some _) \<Rightarrow> msg = ''synap: generate transaction client_id'' | _ \<Rightarrow> False)"

text \<open>Everything a client offers: its modules, the push subscriptions, the transactions and their modules.\<close>

definition clientRaisesOnly :: "(goerr \<Rightarrow> bool) \<Rightarrow> 'w platform \<Rightarrow> SynapClient \<Rightarrow> goctx \<Rightarrow> bool" where
  "clientRaisesOnly P pf c ctx =
     (modulesRaiseOnly P (sendCommand pf c ctx)
      \<and> (\<forall>topics. raisesOnly P (Observe pf c ctx topics)) \<and> (\<forall>pattern opts. raisesOnly P (Watch pf c ctx pattern opts))
      \<and> raisesOnly beginFailed (txBegin pf c) \<and> raisesOnly (\<lambda>e. P e \<or> beginFailed e) (managerMulti pf c ctx)
      \<and> (\<forall>cid. let tx = txResume c cid
           in modulesRaiseOnly P (sendCommand pf (scoped tx) ctx)
              \<and> raisesOnly P (txMulti pf tx ctx) \<and> raisesOnly P (txDiscard pf tx ctx)
              \<and> (\<forall>keys. raisesOnly P (txWatch pf tx ctx keys)) \<and> raisesOnly P (txUnwatch pf tx ctx)
              \<and> raisesOnly P (txExec pf tx ctx)))"

text \<open>The payloads of the modules: a struct or a map that is not nil.\<close>

definition objectPayload :: "rval \<Rightarrow> bool" where
  "objectPayload p = (case p of RStruct _ \<Rightarrow> True | RMap m \<Rightarrow> m \<noteq> None | _ \<Rightarrow> False)"

lemma objectPayload_simps [simp]: "objectPayload (RStruct fs)" "objectPayload (RMap (Some m))"
  by (simp_all add: objectPayload_def)

lemma raisesOnlyD: "raisesOnly P m \<Longrightarrow> m env = (Inl e, env') \<Longrightarrow> P e"
  by (auto simp: raisesOnly_def)

lemma yielding_Inl: "yielding f x = (Inl e, env') \<longleftrightarrow> x = (Inl e, env')"
  by (cases x; cases "fst x") (auto simp: yielding_def)

lemma yielding_raises: "raisesOnly P m \<Longrightarrow> raisesOnly P (\<lambda>env. yielding f (m env))"
  by (simp add: raisesOnly_def yielding_Inl)

lemmas payload_defs = keyPayload_def kvSetPayload_def fieldPayload_def pushPayload_def popPayload_def rangePayload_def
  membersPayload_def queuePublishPayload_def ackPayload_def roomPayload_def streamPublishPayload_def
  streamConsumePayload_def subscriptionPayload_def

locale sender_contract =
  fixes send :: "'w sender" and allowed :: "goerr \<Rightarrow> bool"
  assumes send_raises: "objectPayload payload \<Longrightarrow> raisesOnly allowed (send command payload)"
    and allowed_synap: "isSynapError e \<Longrightarrow> allowed e"
begin

lemma allowed_invalid: "allowed (newInvalidResponseError msg)"
  by (rule allowed_synap) (simp add: newInvalidResponseError_def)

lemma call_raises: "objectPayload payload \<Longrightarrow> raisesOnly allowed (call send command payload t)"
  using raisesOnlyD [OF send_raises] allowed_invalid
  by (auto simp: raisesOnly_def call_def split: prod.splits sum.splits)

lemma ask_raises: "objectPayload payload \<Longrightarrow> raisesOnly allowed (\<lambda>env. yielding f (call send command payload t env))"
  by (intro yielding_raises call_raises)

lemma tell_raises: "objectPayload payload \<Longrightarrow> raisesOnly allowed (tell send command payload)"
  using yielding_raises [OF send_raises, of payload "\<lambda>_. ()"] by (simp add: raisesOnly_def tell_def yielding_def)

lemma kvGet_raises: "raisesOnly allowed (kvGet send key)"
  using raisesOnlyD [OF send_raises [OF objectPayload_simps(1)]] allowed_invalid
  by (auto simp: raisesOnly_def kvGet_def keyPayload_def split: prod.splits sum.splits if_splits)

lemma queueConsume_raises: "raisesOnly allowed (queueConsume send name consumer)"
  using raisesOnlyD [OF send_raises [OF objectPayload_simps(1)]] allowed_invalid
  by (auto simp: raisesOnly_def queueConsume_def split: prod.splits sum.splits if_splits)

lemmas module_raises = ask_raises tell_raises kvGet_raises queueConsume_raises

lemma modules_raise: "modulesRaiseOnly allowed send"
  unfolding modulesRaiseOnly_def kvSet_def [abs_def] kvDelete_def [abs_def] kvExists_def [abs_def] kvIncr_def [abs_def]
    kvDecr_def [abs_def] kvStats_def [abs_def]
    hashSet_def [abs_def] hashGet_def [abs_def] hashGetAll_def [abs_def] hashDel_def [abs_def] hashExists_def [abs_def]
    listLPush_def [abs_def] listRPush_def [abs_def] listLPop_def [abs_def] listRPop_def [abs_def]
    listRange_def [abs_def] listLen_def [abs_def]
    setAdd_def [abs_def] setMembers_def [abs_def] setIsMember_def [abs_def] setRemove_def [abs_def] setCard_def [abs_def]
    queueCreate_def [abs_def] queuePublish_def [abs_def] queueAck_def [abs_def] queueNack_def [abs_def]
    queueStats_def [abs_def] queueList_def [abs_def] queueDelete_def [abs_def]
    streamCreate_def [abs_def] streamGetOrCreate_def [abs_def] streamPublish_def [abs_def] streamConsume_def [abs_def]
    streamStats_def [abs_def] streamList_def [abs_def] streamDelete_def [abs_def]
    pubsubPublish_def [abs_def] pubsubSubscribe_def [abs_def] pubsubUnsubscribe_def [abs_def]
    pubsubListTopics_def [abs_def]
  by (intro conjI allI module_raises) (simp_all add: payload_defs)

end

text \<open>The same of a client and of the scopes it opens.\<close>

locale client_contract =
  fixes pf :: "'w platform" and c :: SynapClient and ctx :: goctx and allowed :: "goerr \<Rightarrow> bool"
  assumes scope_raises: "objectPayload payload \<Longrightarrow> raisesOnly allowed (sendCommand pf (c\<lparr>txClientID := cid\<rparr>) ctx command payload)"
    and observe_raises: "raisesOnly allowed (Observe pf c ctx topics)"
    and watch_raises: "raisesOnly allowed (Watch pf c ctx pattern opts)"
    and synap_allowed: "isSynapError e \<Longrightarrow> allowed e"

sublocale client_contract \<subseteq> scope: sender_contract "sendCommand pf (c\<lparr>txClientID := cid\<rparr>) ctx" allowed for cid
  by unfold_locales (rule scope_raises, assumption, rule synap_allowed)

lemma txBegin_raises: "raisesOnly beginFailed (txBegin pf c)"
  by (auto simp: raisesOnly_def txBegin_def beginFailed_def split: prod.splits sum.splits)

context client_contract
begin

lemma control_raises: "raisesOnly allowed (control pf (txResume c cid) ctx command extra)"
  using scope_raises [of "controlPayload cid extra" cid command]
  by (simp add: raisesOnly_def control_def txResume_def scope_def controlPayload_def)

lemma forget_raises: "raisesOnly allowed (\<lambda>env. forget (control pf (txResume c cid) ctx command extra env))"
  unfolding forget_def by (intro yielding_raises control_raises)

lemma txWatch_raises: "raisesOnly allowed (txWatch pf (txResume c cid) ctx keys)"
  using forget_raises [of cid "''transaction.watch''" "[(''keys'', strSlice keys)]"] synap_allowed
  by (auto simp: raisesOnly_def txWatch_def)

lemma txExec_raises: "raisesOnly allowed (txExec pf (txResume c cid) ctx)"
  using raisesOnlyD [OF control_raises] scope.allowed_invalid
  by (auto simp: raisesOnly_def txExec_def split: prod.splits sum.splits)

lemma tx_raises:
  "raisesOnly allowed (txMulti pf (txResume c cid) ctx)" "raisesOnly allowed (txDiscard pf (txResume c cid) ctx)"
  "raisesOnly allowed (txUnwatch pf (txResume c cid) ctx)"
  unfolding txMulti_def [abs_def] txDiscard_def [abs_def] txUnwatch_def [abs_def] by (rule forget_raises)+

lemma managerMulti_raises: "raisesOnly (\<lambda>e. allowed e \<or> beginFailed e) (managerMulti pf c ctx)"
proof -
  have "allowed e" if "txMulti pf (scope c cid) ctx env = (Inl e, env')" for cid env e env'
    using raisesOnlyD [OF tx_raises(1), of cid] that by (simp add: txResume_def)
  then show ?thesis
    by (auto simp: raisesOnly_def managerMulti_def txBegin_def beginFailed_def yielding_Inl split: prod.splits sum.splits)
qed

lemma client_raises: "clientRaisesOnly allowed pf c ctx"
  using scope.modules_raise [of "txClientID c"] scope.modules_raise
  by (simp add: clientRaisesOnly_def observe_raises watch_raises txBegin_raises managerMulti_raises tx_raises
      txWatch_raises txExec_raises) (simp add: txResume_def scope_def)

end

section \<open>SynapRPC\<close>

lemma mapCommandToWire_error: "mapCommandToWire command p tr = Inl e \<Longrightarrow> isSynapError e"
proof (induction command p tr rule: mapCommandToWire.induct)
  case (1 command p tr)
  then show ?case
    by (subst (asm) mapCommandToWire.simps)
      (auto simp: rbind_eq_Inl_iff wireCommand_def unsupportedCommand_def notQueueable_def
         split: option.splits if_splits prod.splits)
qed

lemma rpcDial_error: "rpcDial th t w = (Inl e, w') \<Longrightarrow> isSynapError e"
  by (cases "connect th (rpcEndpoint t) (synapConfig (standard th)) (clientConfig t) w"; cases "fst (rpcDial th t w)";
      cases "fst (connect th (rpcEndpoint t) (synapConfig (standard th)) (clientConfig t) w)")
    (auto simp: rpcDial_def)

lemma rpcExecute_error: "rpcExecute th t ctx cmd args st = (Inl e, st') \<Longrightarrow> isSynapError e"
  by (auto simp: rpcExecute_def ensureConnected_def dest: rpcDial_error
      split: prod.splits sum.splits option.splits if_splits)

lemma sendRPC_raises: "raisesOnly isSynapError (sendRPC pf c t ctx command payload)"
  by (auto simp: raisesOnly_def sendRPC_def dest: mapCommandToWire_error rpcExecute_error
      split: sum.splits prod.splits)

lemma openPush_error: "openPush th t ctx cmd args w = (Inl e, w') \<Longrightarrow> isSynapError e"
  by (auto simp: openPush_def dest: rpcDial_error split: prod.splits sum.splits)

lemma push_raises:
  "raisesOnly isSynapError (Observe pf c ctx topics)" "raisesOnly isSynapError (Watch pf c ctx pattern opts)"
  by (auto simp: raisesOnly_def Observe_def Watch_def SubscribePush_def WatchPush_def dest: openPush_error
      split: option.splits prod.splits sum.splits)

lemma raisesOnly_mono: "raisesOnly P m \<Longrightarrow> (\<And>e. P e \<Longrightarrow> Q e) \<Longrightarrow> raisesOnly Q m"
  by (auto simp: raisesOnly_def)

interpretation rpc_errors: client_contract pf "c\<lparr>rpc := Some t\<rparr>" ctx isSynapError for pf c t ctx
  by unfold_locales (simp_all add: sendCommand_def sendRPC_raises push_raises)

section \<open>HTTP\<close>

lemma isPanic_simps [simp]: "\<not> isPanic (SynapError c m)" "\<not> isPanic (Errorf s w)" "\<not> isPanic (newServerError m)"
    "\<not> isPanic (newInvalidResponseError m)" "\<not> isPanic (typeError s t)"
  by (simp_all add: isPanic_def newServerError_def newInvalidResponseError_def typeError_def)

lemma traverse_InlD: "traverse f xs = Inl e \<Longrightarrow> \<exists>x \<in> set xs. f x = Inl e"
  by (induction xs) (auto simp: rbind_eq_Inl_iff)

lemma decodeScalar_no_panic:
  "decodeInt w s = Inl e \<Longrightarrow> \<not> isPanic e" "decodeUint w s = Inl e \<Longrightarrow> \<not> isPanic e"
  "decodeByte j = Inl e \<Longrightarrow> \<not> isPanic e"
  by (auto simp: decodeInt_def decodeUint_def decodeByte_def split: sum.splits option.splits if_splits json.splits rval.splits)

lemma seqDecode_InlD: "seqDecode d js cur = Inl e \<Longrightarrow> \<exists>j c. d j c = Inl e"
  by (induction js arbitrary: cur) (auto simp: rbind_eq_Inl_iff)

lemma decodeJson_no_panic:
  "decodeJson t j cur = Inl e \<Longrightarrow> \<not> isPanic e"
  "decodeFields all fs kvs vs = Inl e \<Longrightarrow> \<not> isPanic e"
proof (induction t j cur and all fs kvs vs rule: decodeJson_decodeFields.induct)
  case (1 t j cur)
  note IH = 1(1-4)
  show ?case
  proof (cases t)
    case (TSlice t')
    with 1(5) IH(1) show ?thesis
      by (auto simp: decodeJson.simps [of "TSlice t'"] rbind_eq_Inl_iff dest!: traverse_InlD split: json.splits)
  next
    case (TMap t')
    with 1(5) IH(2) show ?thesis
      by (fastforce simp: decodeJson.simps [of "TMap t'"] rbind_eq_Inl_iff dest!: traverse_InlD split: json.splits)
  next
    case (TStruct fs)
    with 1(5) IH(3) show ?thesis
      by (auto simp: decodeJson.simps [of "TStruct fs"] rbind_eq_Inl_iff split: json.splits)
  next
    case (TPtr t')
    with 1(5) IH(4) show ?thesis
      by (auto simp: decodeJson.simps [of "TPtr t'"] rbind_eq_Inl_iff split: if_splits)
  qed (use 1(5) in \<open>auto simp: decodeJson.simps rbind_eq_Inl_iff decodeScalar_no_panic
         dest!: traverse_InlD split: json.splits sum.splits option.splits if_splits\<close>)
next
  case (2 all f t fs kvs g v vs)
  then show ?case by (auto simp: rbind_eq_Inl_iff dest!: seqDecode_InlD)
qed auto

text \<open>The case the envelope decoder calls unreachable is: a decoded struct has the fields of its type.\<close>

lemma unmarshalEnvelope_no_panic: "unmarshalEnvelope s = Inl e \<Longrightarrow> \<not> isPanic e"
proof -
  assume e: "unmarshalEnvelope s = Inl e"
  show ?thesis
  proof (cases "parseJson s")
    case (Some j)
    show ?thesis
    proof (cases "decodeJson (TStruct envelopeFields) j (zeroOf (TStruct envelopeFields))")
      case (Inl e')
      with e Some decodeJson_no_panic(1) [OF Inl] show ?thesis by (simp add: unmarshalEnvelope_def)
    next
      case (Inr v)
      with decodeJson_typed(1) [OF Inr zero_typed] e Some show ?thesis
        by (auto simp: unmarshalEnvelope_def envelopeFields_def fld_def split: rval.splits list.splits)
    qed
  qed (use e in \<open>auto simp: unmarshalEnvelope_def\<close>)
qed

text \<open>The id of a transaction is spliced into an object, so the assignment to a nil map is not reached.\<close>

lemma marshal_object: "objectPayload payload \<Longrightarrow> marshalReflect payload = Some s \<Longrightarrow> \<exists>cs. s = CHR ''{'' # cs"
  by (auto simp: objectPayload_def marshalReflect_def split: rval.splits option.splits)

lemma object_not_null: "parseJson (CHR ''{'' # cs) \<noteq> Some JNull"
proof -
  have "skipSpace (CHR ''{'' # cs) = CHR ''{'' # cs" by (simp add: skipSpace_def isSpaceChar_def)
  then have "parseValue n (CHR ''{'' # cs) \<noteq> Some (JNull, r)" for n r
    by (cases n) (auto split: list.splits)
  then show ?thesis by (auto simp: parseJson_def simp del: parseValue.simps split: option.splits)
qed

lemma withClientID_no_panic: "withClientID (CHR ''{'' # cs) cid = Inl e \<Longrightarrow> \<not> isPanic e"
  using object_not_null [of cs]
  by (auto simp: withClientID_def unmarshalRaw_def rbind_eq_Inl_iff split: option.splits json.splits)

lemma sendHTTP_raises:
  assumes "objectPayload payload"
  shows "raisesOnly (Not \<circ> isPanic) (sendHTTP pf c ctx command payload)"
proof (cases "marshalReflect payload")
  case (Some s)
  with marshal_object [OF assms] obtain cs where "s = CHR ''{'' # cs" by blast
  with Some show ?thesis
    by (auto simp: raisesOnly_def sendHTTP_def httpReply_def dest: unmarshalEnvelope_no_panic withClientID_no_panic
        split: option.splits prod.splits sum.splits if_splits)
qed (simp add: raisesOnly_def sendHTTP_def)

lemma synap_no_panic: "isSynapError e \<Longrightarrow> \<not> isPanic e"
  by (cases e) (simp_all add: isPanic_def)

interpretation http_errors: client_contract pf "c\<lparr>rpc := None, resp3 := None\<rparr>" ctx "Not \<circ> isPanic" for pf c ctx
  by unfold_locales
    (simp_all add: sendCommand_def sendHTTP_raises raisesOnly_mono [OF push_raises(1)] raisesOnly_mono [OF push_raises(2)] synap_no_panic)

section \<open>RESP3\<close>

text \<open>The second pass of the reconnect loop always returns, so the error behind the loop never does.\<close>

definition exhausted :: goerr where
  "exhausted = Errorf ''RESP3: exhausted reconnect attempts'' None"

lemma last_attempt_returns: "attempt n t ctx (Suc 0) cmd args st = (r, st') \<Longrightarrow> r \<noteq> Continue \<and> r \<noteq> Return (Inl exhausted)"
  by (auto simp: attempt_def exchange_def doConnect_def failAttempt_def exhausted_def Let_def
      split: prod.splits option.splits sum.splits if_splits)

lemma first_attempt_error: "attempt n t ctx 0 cmd args st = (Return (Inl e), st') \<Longrightarrow> e \<noteq> exhausted"
  by (auto simp: attempt_def exchange_def doConnect_def failAttempt_def exhausted_def Let_def
      split: prod.splits option.splits sum.splits if_splits)

lemma resp3Execute_error: "resp3Execute n t ctx cmd args st = (Inl e, st') \<Longrightarrow> e \<noteq> exhausted"
  by (auto simp: resp3Execute_def dest: first_attempt_error last_attempt_returns
      split: prod.splits attempt_result.splits)

lemma sendRESP3_raises: "raisesOnly (\<lambda>e. e \<noteq> exhausted) (sendRESP3 pf c t ctx command payload)"
  by (auto simp: raisesOnly_def sendRESP3_def dest!: mapCommandToWire_error resp3Execute_error
      split: option.splits prod.splits sum.splits) (simp_all add: exhausted_def)

lemma synap_not_exhausted: "isSynapError e \<Longrightarrow> e \<noteq> exhausted"
  by (auto simp: exhausted_def)

interpretation resp3_errors: client_contract pf "c\<lparr>rpc := None, resp3 := Some t\<rparr>" ctx "\<lambda>e. e \<noteq> exhausted" for pf c t ctx
  by unfold_locales
    (simp_all add: sendCommand_def sendRESP3_raises raisesOnly_mono [OF push_raises(1)] raisesOnly_mono [OF push_raises(2)] synap_not_exhausted)

section \<open>Property\<close>

text \<open>C9. What the methods of a new client can fail with, for every argument and server, in the modules, in
  \<^verbatim>\<open>Observe\<close> and \<^verbatim>\<open>Watch\<close>, and in a transaction and its modules under any id: over SynapRPC only a
  \<^verbatim>\<open>*SynapError\<close>, over HTTP never a panic, over RESP3 never the error behind the reconnect loop, whose
  second pass always returns. The exceptions are \<^verbatim>\<open>Begin\<close> and \<^verbatim>\<open>Multi\<close> of the manager, which
  report a failing random source with the plain error \<^verbatim>\<open>synap: generate transaction client_id\<close>.\<close>

theorem module_errors:
  "case transport cfg of
     TransportSynapRPC \<Rightarrow> clientRaisesOnly isSynapError pf (NewClient cfg) ctx
   | TransportHTTP \<Rightarrow> clientRaisesOnly (Not \<circ> isPanic) pf (NewClient cfg) ctx
   | TransportRESP3 \<Rightarrow> clientRaisesOnly (\<lambda>e. e \<noteq> exhausted) pf (NewClient cfg) ctx"
proof (cases "transport cfg")
  case TransportHTTP
  have "clientRaisesOnly (Not \<circ> isPanic) pf ((NewClient cfg)\<lparr>rpc := None, resp3 := None\<rparr>) ctx"
    by (rule http_errors.client_raises)
  with TransportHTTP show ?thesis by (simp add: NewClient_def)
next
  case TransportSynapRPC
  have "clientRaisesOnly isSynapError pf ((NewClient cfg)\<lparr>rpc := Some t\<rparr>) ctx" for t
    by (rule rpc_errors.client_raises)
  with TransportSynapRPC show ?thesis by (simp add: NewClient_def)
next
  case TransportRESP3
  have "clientRaisesOnly (\<lambda>e. e \<noteq> exhausted) pf ((NewClient cfg)\<lparr>rpc := None, resp3 := Some t\<rparr>) ctx" for t
    by (rule resp3_errors.client_raises)
  with TransportRESP3 show ?thesis by (simp add: NewClient_def)
qed

end
