(* ===== verification/Interop.thy ===== *)
theory Interop
  imports Scopes Error_Contract
begin

text \<open>
  \<^verbatim>\<open>cmd/interop/main.go\<close>: the program that runs four steps against a server, prints a line for each and
  tells by its exit code whether all of them passed. Its state is the environment of the client, the lines
  printed so far and the counter \<^verbatim>\<open>failures\<close>. It speaks SynapRPC only, where no method panics
  (\<open>Error_Contract\<close>).
\<close>

section \<open>Reports\<close>

record 'w run =
  runEnv :: "'w env"
  stdout :: "string list"
  failures :: int

definition reportLine :: "string \<Rightarrow> bool \<Rightarrow> string \<Rightarrow> string" where
  "reportLine step ok detail =
     ''STEP '' @ step @ '' '' @ (if ok then ''PASS'' else ''FAIL'') @ '' '' @ detail @ [CHR 0x0A]"

definition report :: "string \<Rightarrow> bool \<Rightarrow> string \<Rightarrow> 'w run \<Rightarrow> 'w run" where
  "report step ok detail r =
     r\<lparr>stdout := stdout r @ [reportLine step ok detail],
       failures := (if \<not> ok then failures r + 1 else failures r)\<rparr>"

section \<open>Steps\<close>

definition binaryBytes :: "8 word list" where
  "binaryBytes = [0xDE, 0xAD, 0xBE, 0xEF]"

text \<open>The conversions \<^verbatim>\<open>string(b)\<close> and \<^verbatim>\<open>[]byte(s)\<close>.\<close>

definition stringOfBytes :: "8 word list \<Rightarrow> string" where
  "stringOfBytes bs = map (\<lambda>b. char_of (unat b)) bs"

definition bytesOfString :: "string \<Rightarrow> 8 word list" where
  "bytesOfString s = map (\<lambda>c. of_nat (of_char c)) s"

definition authStep :: "'w sender \<Rightarrow> 'w run \<Rightarrow> 'w run" where
  "authStep send r =
     (case kvExists send ''interop:go:probe'' (runEnv r) of
        (Inl err, env) \<Rightarrow> report ''auth'' False (errorText err) (r\<lparr>runEnv := env\<rparr>)
      | (Inr _, env) \<Rightarrow> report ''auth'' True ''EXISTS accepted on an authenticated connection'' (r\<lparr>runEnv := env\<rparr>))"

definition binaryStep :: "'w sender \<Rightarrow> 'w run \<Rightarrow> 'w run" where
  "binaryStep send r =
     (case kvSet send ''interop:go:bin'' (stringOfBytes binaryBytes) 0 (runEnv r) of
        (Inl err, env) \<Rightarrow> report ''kv_binary'' False (''SET: '' @ errorText err) (r\<lparr>runEnv := env\<rparr>)
      | (Inr _, env) \<Rightarrow>
          (case kvGet send ''interop:go:bin'' env of
             (Inl err, env') \<Rightarrow> report ''kv_binary'' False (''GET: '' @ errorText err) (r\<lparr>runEnv := env'\<rparr>)
           | (Inr got, env') \<Rightarrow>
               report ''kv_binary'' (got = stringOfBytes binaryBytes)
                 (hexBytes binaryBytes @ '' -> '' @ hexBytes (bytesOfString got)) (r\<lparr>runEnv := env'\<rparr>)))"

definition interopTopic :: string where
  "interopTopic = ''interop.go''"

definition pubsubStep :: "'w sender \<Rightarrow> 'w run \<Rightarrow> 'w run" where
  "pubsubStep send r =
     (case pubsubPublish send interopTopic (Some (RString ''interop-payload'')) 0 (runEnv r) of
        (Inl err, env) \<Rightarrow> report ''pubsub'' False (''PUBLISH: '' @ errorText err) (r\<lparr>runEnv := env\<rparr>)
      | (Inr _, env) \<Rightarrow> report ''pubsub'' True ''PUBLISH accepted'' (r\<lparr>runEnv := env\<rparr>))"

definition errorStep :: "'w sender \<Rightarrow> 'w run \<Rightarrow> 'w run" where
  "errorStep send r =
     (case kvSet send ''interop:go:str'' ''not-a-number'' 0 (runEnv r) of
        (Inl err, env) \<Rightarrow> report ''error'' False (''setup SET: '' @ errorText err) (r\<lparr>runEnv := env\<rparr>)
      | (Inr _, env) \<Rightarrow>
          (case kvIncr send ''interop:go:str'' env of
             (Inr _, env') \<Rightarrow>
               report ''error'' False ''expected an error from INCR on a non-numeric value'' (r\<lparr>runEnv := env'\<rparr>)
           | (Inl err, env') \<Rightarrow>
               (case kvExists send ''interop:go:str'' env' of
                  (aliveErr, env'') \<Rightarrow>
                    (let alive = (case aliveErr of Inr _ \<Rightarrow> True | Inl _ \<Rightarrow> False)
                     in report ''error'' alive (errorText err @ ''; connection alive='' @ formatBool alive)
                          (r\<lparr>runEnv := env''\<rparr>)))))"

section \<open>The program\<close>

text \<open>How the program ends: with an exit code, or with the run-time panic of a missing argument. The message for
  a bad port goes to the other output and is left out.\<close>

datatype ending = Exit int | IndexPanic

definition interopClient :: "string \<Rightarrow> int \<Rightarrow> string \<Rightarrow> string \<Rightarrow> SynapClient" where
  "interopClient hostArg portNo user pass =
     NewClient (WithTimeout 15000000000 (WithBasicAuth user pass (NewConfig (''synap://'' @ hostArg @ '':'' @ formatInt portNo))))"

definition interopSteps :: "'w sender \<Rightarrow> 'w run \<Rightarrow> 'w run" where
  "interopSteps send r = errorStep send (pubsubStep send (binaryStep send (authStep send r)))"

definition interopMain :: "'w platform \<Rightarrow> string list \<Rightarrow> 'w \<Rightarrow> ending \<times> string list \<times> 'w" where
  "interopMain pf osArgs w =
     (case osArgs of
        prog # hostArg # portArg # user # pass # _ \<Rightarrow>
          (case atoi portArg of
             Inl _ \<Rightarrow> (Exit 2, [], w)
           | Inr portNo \<Rightarrow>
               (let r = interopSteps (sendCommand pf (interopClient hostArg portNo user pass) \<lparr>ctxDeadline = None\<rparr>)
                          \<lparr>runEnv = \<lparr>rpcClient = None, r3Conn = None, world = w\<rparr>, stdout = [], failures = 0\<rparr>
                in (if failures r > 0 then Exit 1 else Exit 0, stdout r, world (runEnv r))))
      | _ \<Rightarrow> (IndexPanic, [], w))"

section \<open>One line per step\<close>

text \<open>A step that prints one line under its name and counts a failure when the line says so.\<close>

definition reportsOnce :: "string \<Rightarrow> ('w run \<Rightarrow> 'w run) \<Rightarrow> bool" where
  "reportsOnce name step = (\<forall>r. \<exists>ok detail env. step r = report name ok detail (r\<lparr>runEnv := env\<rparr>))"

lemma steps_report:
  "reportsOnce ''auth'' (authStep send)" "reportsOnce ''kv_binary'' (binaryStep send)"
  "reportsOnce ''pubsub'' (pubsubStep send)" "reportsOnce ''error'' (errorStep send)"
  by (auto simp: reportsOnce_def authStep_def binaryStep_def pubsubStep_def errorStep_def Let_def
      split: prod.splits sum.splits)

lemma reportsOnceD:
  assumes "reportsOnce name step"
  obtains ok detail env where "step r = report name ok detail (r\<lparr>runEnv := env\<rparr>)"
  using assms unfolding reportsOnce_def by blast

lemma report_simps [simp]:
  "stdout (report name ok detail r) = stdout r @ [reportLine name ok detail]"
  "failures (report name ok detail r) = (if ok then failures r else failures r + 1)"
  "runEnv (report name ok detail r) = runEnv r"
  by (simp_all add: report_def)

lemma interopSteps_report:
  "\<exists>a b c d d1 d2 d3 d4. stdout (interopSteps send r) = stdout r @
      [reportLine ''auth'' a d1, reportLine ''kv_binary'' b d2, reportLine ''pubsub'' c d3, reportLine ''error'' d d4]
    \<and> failures (interopSteps send r) = failures r + int (length (filter Not [a, b, c, d]))"
proof -
  define r1 r2 r3 where "r1 = authStep send r" and "r2 = binaryStep send r1" and "r3 = pubsubStep send r2"
  obtain a d1 e1 where 1: "r1 = report ''auth'' a d1 (r\<lparr>runEnv := e1\<rparr>)"
    unfolding r1_def by (rule reportsOnceD [OF steps_report(1)])
  obtain b d2 e2 where 2: "r2 = report ''kv_binary'' b d2 (r1\<lparr>runEnv := e2\<rparr>)"
    unfolding r2_def by (rule reportsOnceD [OF steps_report(2)])
  obtain c d3 e3 where 3: "r3 = report ''pubsub'' c d3 (r2\<lparr>runEnv := e3\<rparr>)"
    unfolding r3_def by (rule reportsOnceD [OF steps_report(3)])
  obtain d d4 e4 where 4: "errorStep send r3 = report ''error'' d d4 (r3\<lparr>runEnv := e4\<rparr>)"
    by (rule reportsOnceD [OF steps_report(4)])
  have steps: "interopSteps send r = errorStep send r3" by (simp add: interopSteps_def r1_def r2_def r3_def)
  have "stdout (interopSteps send r) = stdout r @
      [reportLine ''auth'' a d1, reportLine ''kv_binary'' b d2, reportLine ''pubsub'' c d3, reportLine ''error'' d d4]"
    unfolding steps 4 by (simp add: 1 2 3)
  moreover have "failures (interopSteps send r) = failures r + int (length (filter Not [a, b, c, d]))"
    unfolding steps 4 by (simp add: 1 2 3)
  ultimately show ?thesis by blast
qed

section \<open>A server that passes\<close>

text \<open>The first command of a client that has not connected yet is one on the connection it dials.\<close>

lemma sendRPC_dials:
  assumes "rpcClient env = None" and "connect (thunder pf) (rpcEndpoint t) (synapConfig (standard (thunder pf))) (clientConfig t) (world env) = (Inr h, w1)"
    and "isAlive (thunder pf) h w1" and "txClientID c = []" and "wireRequest command payload = Inr req"
  shows "sendRPC pf c t ctx command payload env = sendRPC pf c t ctx command payload (env\<lparr>rpcClient := Some h, world := w1\<rparr>)"
  using assms
  by (simp add: sendRPC_def scopePayload_def wireRequest_def rpcExecute_def ensureConnected_def rpcDial_def
      split: sum.splits prod.splits)

text \<open>What the program expects of the server beyond the four commands: \<^verbatim>\<open>PUBLISH\<close> answers with a number, and
  \<^verbatim>\<open>INCR\<close> on a value that is no number is refused; neither changes the map or ends the connection.\<close>

definition servesInterop :: "'w thunder \<Rightarrow> ('w \<Rightarrow> store) \<Rightarrow> string \<Rightarrow> bool" where
  "servesInterop th look msg =
     (\<forall>h ctx w. isAlive th h w \<longrightarrow>
        (\<forall>topic payload. \<exists>n w'. callWire th h ctx ''PUBLISH'' [topic, payload] w = (Inr (WInt n), w')
            \<and> isAlive th h w' \<and> look w' = look w)
        \<and> (\<forall>ka k. wireText ka = Some k \<and> look w k = Some ''not-a-number'' \<longrightarrow>
              (\<exists>w'. callWire th h ctx ''INCR'' [ka] w = (Inl msg, w') \<and> isAlive th h w' \<and> look w' = look w)))"

lemma servesInteropD:
  assumes "servesInterop th look msg" and "isAlive th h w"
  shows "\<exists>n w'. callWire th h ctx ''PUBLISH'' [topic, payload] w = (Inr (WInt n), w') \<and> isAlive th h w' \<and> look w' = look w"
    and "look w k = Some ''not-a-number'' \<Longrightarrow>
      \<exists>w'. callWire th h ctx ''INCR'' [toWire (GStr k)] w = (Inl msg, w') \<and> isAlive th h w' \<and> look w' = look w"
  using assms wireText_toWire unfolding servesInterop_def by blast+

text \<open>The methods on a live connection, in terms of the map of the server.\<close>

lemma kv_methods:
  assumes "rpcHolds pf c look env m"
  shows "\<exists>env'. kvSet (sendRPC pf c t ctx) k v 0 env = (Inr (), env') \<and> rpcHolds pf c look env' (m(k \<mapsto> v))"
    and "\<exists>env'. kvGet (sendRPC pf c t ctx) k env = (Inr (case m k of Some v \<Rightarrow> v | None \<Rightarrow> []), env') \<and> rpcHolds pf c look env' m"
    and "\<exists>env'. kvExists (sendRPC pf c t ctx) k env = (Inr (m k \<noteq> None), env') \<and> rpcHolds pf c look env' m"
  using rpc_kv.op_refines [OF assms, of "OpSet k v" t ctx] rpc_kv.op_refines [OF assms, of "OpGet k" t ctx]
    rpc_kv.op_refines [OF assms, of "OpExists k" t ctx]
  by (auto simp: yielding_Inr)

lemma publish_method:
  assumes "servesInterop (thunder pf) look msg" and "rpcHolds pf c look env m"
  shows "\<exists>n env'. pubsubPublish (sendRPC pf c t ctx) topic (Some (RString body)) 0 env = (Inr n, env') \<and> rpcHolds pf c look env' m"
proof -
  let ?p = "RStruct [fld ''Topic'' ''topic'' (RString topic), fld ''Payload'' ''payload'' (RIface (Some (RString body))),
    fld ''Priority'' ''priority'' (RUint 8 0)]"
  from assms(2) obtain h where *: "servesKV (thunder pf) look" "txClientID c = []" "look (world env) = m" "rpcClient env = Some h"
    "isAlive (thunder pf) h (world env)" by (auto simp: rpcHolds_def)
  have "wireRequest ''pubsub.publish'' ?p = Inr (''PUBLISH'', [GStr topic, GStr body])"
    by (simp add: request_simps)
  moreover obtain n w' where "callWire (thunder pf) h ctx ''PUBLISH'' [toWire (GStr topic), toWire (GStr body)] (world env) = (Inr (WInt n), w')"
    "isAlive (thunder pf) h w'" "look w' = m"
    using servesInteropD(1) [OF assms(1) *(5)] *(3) by metis
  ultimately have "sendRPC pf c t ctx ''pubsub.publish'' ?p env =
      (Inr (valueResponse (mapResponseFromWire ''pubsub.publish'' (GInt64 n))), env\<lparr>world := w'\<rparr>)"
    using sendRPC_live [OF *(2,4,5), where r = "WInt n" and t = t and ctx = ctx] by simp
  then show ?thesis using * \<open>isAlive (thunder pf) h w'\<close> \<open>look w' = m\<close>
    by (simp add: pubsubPublish_def call_def reply_simps assign.simps asInt_def rpcHolds_def)
qed

lemma incr_method:
  assumes "servesInterop (thunder pf) look msg" and "rpcHolds pf c look env m" and "m k = Some ''not-a-number''"
  shows "\<exists>env'. kvIncr (sendRPC pf c t ctx) k env = (Inl (newServerError msg), env') \<and> rpcHolds pf c look env' m"
proof -
  from assms(2) obtain h where *: "servesKV (thunder pf) look" "txClientID c = []" "look (world env) = m" "rpcClient env = Some h"
    "isAlive (thunder pf) h (world env)" by (auto simp: rpcHolds_def)
  moreover have "wireRequest ''kv.incr'' (keyPayload k) = Inr (''INCR'', [GStr k])"
    by (simp add: request_simps keyPayload_def counterAmount_def)
  moreover obtain w' where "callWire (thunder pf) h ctx ''INCR'' [toWire (GStr k)] (world env) = (Inl msg, w')"
    "isAlive (thunder pf) h w'" "look w' = m"
    using servesInteropD(2) [OF assms(1) *(5)] *(3) assms(3) by metis
  ultimately show ?thesis
    by (simp add: kvIncr_def call_def sendRPC_def scopePayload_def wireRequest_def rpcExecute_def ensureConnected_def rpcHolds_def)
qed

lemma bytesOfString_stringOfBytes [simp]: "bytesOfString (stringOfBytes bs) = bs"
proof -
  have "(of_char (char_of (unat b) :: char) :: nat) = unat b" for b :: "8 word"
    using unsigned_less [of b, where ?'a = nat] by simp
  then show ?thesis by (simp add: bytesOfString_def stringOfBytes_def comp_def)
qed

lemma interopClient_simps:
  "\<exists>t. rpc (interopClient hostArg portNo user pass) = Some t" "txClientID (interopClient hostArg portNo user pass) = []"
  by (simp_all add: interopClient_def NewClient_def WithTimeout_def WithBasicAuth_def NewConfig_def hasPrefix_def Let_def
      split: prod.splits)

definition passLines :: "string \<Rightarrow> string list" where
  "passLines msg =
     [reportLine ''auth'' True ''EXISTS accepted on an authenticated connection'',
      reportLine ''kv_binary'' True (hexBytes binaryBytes @ '' -> '' @ hexBytes binaryBytes),
      reportLine ''pubsub'' True ''PUBLISH accepted'',
      reportLine ''error'' True (errorText (newServerError msg) @ ''; connection alive=true'')]"

text \<open>From a live connection every step passes.\<close>

lemma steps_pass:
  assumes "servesInterop (thunder pf) look msg" and "rpcHolds pf c look (runEnv r) m"
  shows "stdout (interopSteps (sendRPC pf c t ctx) r) = stdout r @ passLines msg
    \<and> failures (interopSteps (sendRPC pf c t ctx) r) = failures r"
proof -
  let ?send = "sendRPC pf c t ctx"
  obtain e1 where 1: "authStep ?send r = report ''auth'' True ''EXISTS accepted on an authenticated connection'' (r\<lparr>runEnv := e1\<rparr>)"
    and h1: "rpcHolds pf c look e1 m"
    using kv_methods(3) [OF assms(2), of t ctx "''interop:go:probe''"] by (auto simp: authStep_def)
  let ?m2 = "m(''interop:go:bin'' \<mapsto> stringOfBytes binaryBytes)"
  obtain e2 where set: "kvSet ?send ''interop:go:bin'' (stringOfBytes binaryBytes) 0 e1 = (Inr (), e2)" and h2: "rpcHolds pf c look e2 ?m2"
    using kv_methods(1) [OF h1] by blast
  obtain e3 where get: "kvGet ?send ''interop:go:bin'' e2 = (Inr (stringOfBytes binaryBytes), e3)" and h3: "rpcHolds pf c look e3 ?m2"
    using kv_methods(2) [OF h2, of t ctx "''interop:go:bin''"] by auto
  obtain n e4 where pub: "pubsubPublish ?send interopTopic (Some (RString ''interop-payload'')) 0 e3 = (Inr n, e4)"
    and h4: "rpcHolds pf c look e4 ?m2"
    using publish_method [OF assms(1) h3] by blast
  let ?m5 = "?m2(''interop:go:str'' \<mapsto> ''not-a-number'')"
  obtain e5 where set': "kvSet ?send ''interop:go:str'' ''not-a-number'' 0 e4 = (Inr (), e5)" and h5: "rpcHolds pf c look e5 ?m5"
    using kv_methods(1) [OF h4] by blast
  obtain e6 where incr: "kvIncr ?send ''interop:go:str'' e5 = (Inl (newServerError msg), e6)" and h6: "rpcHolds pf c look e6 ?m5"
    using incr_method [OF assms(1) h5, of "''interop:go:str''"] by auto
  obtain e7 where alive: "kvExists ?send ''interop:go:str'' e6 = (Inr True, e7)"
    using kv_methods(3) [OF h6, of t ctx "''interop:go:str''"] by auto
  show ?thesis
    by (simp add: interopSteps_def 1 binaryStep_def set get pubsubStep_def pub errorStep_def set' incr alive passLines_def formatBool_def)
qed

section \<open>Properties\<close>

text \<open>C21. The verdict of the interop program: with four arguments and a numeric port it always prints exactly four
  lines, one per step in order, and exits with 0 when all four say \<^verbatim>\<open>PASS\<close> and with 1 when any says \<^verbatim>\<open>FAIL\<close>; a port
  that is no number ends it with 2 before anything is sent.\<close>

theorem interop_verdict:
  "case atoi portArg of
     Inl _ \<Rightarrow> interopMain pf (prog # hostArg # portArg # user # pass # rest) w = (Exit 2, [], w)
   | Inr portNo \<Rightarrow>
       (\<exists>a b c d d1 d2 d3 d4 w'. interopMain pf (prog # hostArg # portArg # user # pass # rest) w =
          (Exit (if a \<and> b \<and> c \<and> d then 0 else 1),
           [reportLine ''auth'' a d1, reportLine ''kv_binary'' b d2, reportLine ''pubsub'' c d3, reportLine ''error'' d d4], w'))"
proof (cases "atoi portArg")
  case (Inr portNo)
  let ?r = "interopSteps (sendCommand pf (interopClient hostArg portNo user pass) \<lparr>ctxDeadline = None\<rparr>)
    \<lparr>runEnv = \<lparr>rpcClient = None, r3Conn = None, world = w\<rparr>, stdout = [], failures = 0\<rparr>"
  obtain a b c d d1 d2 d3 d4 where "stdout ?r =
      [reportLine ''auth'' a d1, reportLine ''kv_binary'' b d2, reportLine ''pubsub'' c d3, reportLine ''error'' d d4]"
    and "failures ?r = int (length (filter Not [a, b, c, d]))"
    using interopSteps_report [of "sendCommand pf (interopClient hostArg portNo user pass) \<lparr>ctxDeadline = None\<rparr>"
        "\<lparr>runEnv = \<lparr>rpcClient = None, r3Conn = None, world = w\<rparr>, stdout = [], failures = 0\<rparr>"] by auto
  then have "interopMain pf (prog # hostArg # portArg # user # pass # rest) w =
      (Exit (if a \<and> b \<and> c \<and> d then 0 else 1),
       [reportLine ''auth'' a d1, reportLine ''kv_binary'' b d2, reportLine ''pubsub'' c d3, reportLine ''error'' d d4], world (runEnv ?r))"
    using Inr by (simp add: interopMain_def Let_def)
  then show ?thesis unfolding Inr sum.case by blast
qed (simp add: interopMain_def)

text \<open>C5. The whole program against a server that does what the four steps ask of it: the first command dials, every
  step passes over that one connection, binary bytes come back unchanged, the error of \<^verbatim>\<open>INCR\<close> leaves the
  connection usable, and the exit code is 0.\<close>

theorem interop_passes:
  assumes "servesKV (thunder pf) look" and "servesInterop (thunder pf) look msg" and "atoi portArg = Inr portNo"
    and "rpc (interopClient hostArg portNo user pass) = Some t"
    and "connect (thunder pf) (rpcEndpoint t) (synapConfig (standard (thunder pf))) (clientConfig t) w = (Inr h, w1)"
    and "isAlive (thunder pf) h w1"
  shows "\<exists>w'. interopMain pf [prog, hostArg, portArg, user, pass] w = (Exit 0, passLines msg, w')"
proof -
  let ?c = "interopClient hostArg portNo user pass" and ?ctx = "\<lparr>ctxDeadline = None\<rparr>"
  let ?start = "\<lparr>runEnv = \<lparr>rpcClient = None, r3Conn = None, world = w\<rparr>, stdout = [], failures = 0\<rparr>"
  let ?live = "?start\<lparr>runEnv := \<lparr>rpcClient = Some h, r3Conn = None, world = w1\<rparr>\<rparr>"
  have tx: "txClientID ?c = []" by (rule interopClient_simps)
  have "kvExists (sendRPC pf ?c t ?ctx) k \<lparr>rpcClient = None, r3Conn = None, world = w\<rparr> =
    kvExists (sendRPC pf ?c t ?ctx) k \<lparr>rpcClient = Some h, r3Conn = None, world = w1\<rparr>" for k
    using sendRPC_dials [OF _ _ assms(6) tx kv_requests(4) [of k], where env = "\<lparr>rpcClient = None, r3Conn = None, world = w\<rparr>"] assms(5)
    by (simp add: kvExists_def call_def)
  then have "authStep (sendRPC pf ?c t ?ctx) ?start = authStep (sendRPC pf ?c t ?ctx) ?live"
    by (simp add: authStep_def split: prod.split sum.split)
  then have "interopSteps (sendRPC pf ?c t ?ctx) ?start = interopSteps (sendRPC pf ?c t ?ctx) ?live"
    by (simp add: interopSteps_def)
  moreover have "rpcHolds pf ?c look (runEnv ?live) (look w1)" using assms(1,6) tx by (simp add: rpcHolds_def)
  ultimately have "stdout (interopSteps (sendRPC pf ?c t ?ctx) ?start) = passLines msg \<and> failures (interopSteps (sendRPC pf ?c t ?ctx) ?start) = 0"
    using steps_pass [OF assms(2), of ?c ?live "look w1" t ?ctx] by simp
  then show ?thesis using assms(3,4) by (simp add: interopMain_def Let_def sendCommand_def)
qed

text \<open>The key-value server of \<open>KV_Refinement\<close>, with \<^verbatim>\<open>PUBLISH\<close> and \<^verbatim>\<open>INCR\<close>.\<close>

definition interopServer :: "(string \<times> string) list thunder" where
  "interopServer = (thunder storePlatform)\<lparr>callWire := \<lambda>h ctx cmd args w.
     if cmd = ''PUBLISH'' then (Inr (WInt 0), w) else if cmd = ''INCR'' then (Inl ''not an integer'', w)
     else storeCall cmd args w\<rparr>"

lemma interopServer_serves: "servesKV interopServer map_of" "servesInterop interopServer map_of ''not an integer''"
  by (auto simp: servesKV_def servesInterop_def interopServer_def storePlatform_def storeCall_def map_of_filter_key split: option.splits)

theorem interop_passes_witness:
  "\<exists>w'. interopMain (platformOf interopServer) [''interop'', ''h'', ''15501'', ''u'', ''p''] [] =
     (Exit 0, passLines ''not an integer'', w')"
proof -
  obtain t where t: "rpc (interopClient ''h'' 15501 ''u'' ''p'') = Some t" using interopClient_simps by blast
  have port: "atoi ''15501'' = Inr 15501" by (simp add: atoi_def parseInt_def parseNat_def isDigit_def digitVal_def)
  show ?thesis
    using interop_passes [of "platformOf interopServer" map_of "''not an integer''" "''15501''" 15501 "''h''" "''u''" "''p''" t "[]" 1 "[]" "''interop''"]
      interopServer_serves t port
    by (simp add: interopServer_def storePlatform_def)
qed

end
