(* ===== verification/Rpc_Concurrency.thy ===== *)
theory Rpc_Concurrency
  imports Rpc_Transport
begin

text \<open>
  Goroutines that share one \<^verbatim>\<open>SynapRpcTransport\<close>. The mutex is held in \<^verbatim>\<open>ensureConnected\<close> and \<^verbatim>\<open>Close\<close> only;
  the calls themselves overlap. Each goroutine is a program counter that moves statement by statement, in any
  order with the others, while the network may change the state of the connections at any moment (\<open>world_moves\<close>).
  Only the two steps that lock test the mutex: that nobody else is inside is a theorem. A \<^verbatim>\<open>Call\<close> takes effect at one
  moment of its duration. The ghost fields record the connections dialled and closed and the calls made.
\<close>

section \<open>Goroutines\<close>

datatype rpc_pc =
    Idle
  | Entered
  | Dropped
  | Dialled handle
  | Calling handle
  | Closing
  | Finished "goerr + gval"

record 'w rpc_conc =
  client :: "handle option"
  mutex :: "nat option"
  pcs :: "nat \<Rightarrow> rpc_pc"
  cworld :: 'w
  dialled :: "handle list"
  hungUp :: "handle list"
  called :: "(nat \<times> handle) list"

definition freshConc :: "'w \<Rightarrow> 'w rpc_conc" where
  "freshConc w = \<lparr>client = None, mutex = None, pcs = (\<lambda>_. Idle), cworld = w, dialled = [], hungUp = [], called = []\<rparr>"

definition goto :: "nat \<Rightarrow> rpc_pc \<Rightarrow> 'w rpc_conc \<Rightarrow> 'w rpc_conc" where
  "goto i pc s = s\<lparr>pcs := (pcs s)(i := pc)\<rparr>"

lemma goto_simps [simp]:
  "client (goto i pc s) = client s" "mutex (goto i pc s) = mutex s" "cworld (goto i pc s) = cworld s"
  "dialled (goto i pc s) = dialled s" "hungUp (goto i pc s) = hungUp s" "called (goto i pc s) = called s"
  "pcs (goto i pc s) = (pcs s)(i := pc)"
  by (simp_all add: goto_def)

text \<open>\<^verbatim>\<open>Execute\<close> of goroutine \<open>i\<close>, \<^verbatim>\<open>ensureConnected\<close> included.\<close>

inductive exec_step ::
  "'w thunder \<Rightarrow> SynapRpcTransport \<Rightarrow> goctx \<Rightarrow> (nat \<Rightarrow> string \<times> gval list) \<Rightarrow> nat \<Rightarrow> 'w rpc_conc \<Rightarrow> 'w rpc_conc \<Rightarrow> bool"
  for th :: "'w thunder" and t :: SynapRpcTransport and ctx :: goctx and req :: "nat \<Rightarrow> string \<times> gval list" and i :: nat where
  lock: "pcs s i = Idle \<Longrightarrow> mutex s = None \<Longrightarrow> exec_step th t ctx req i s (goto i Entered (s\<lparr>mutex := Some i\<rparr>))"
| reuse: "pcs s i = Entered \<Longrightarrow> client s = Some h \<Longrightarrow> isAlive th h (cworld s) \<Longrightarrow>
    exec_step th t ctx req i s (goto i (Calling h) (s\<lparr>mutex := None\<rparr>))"
| drop_dead: "pcs s i = Entered \<Longrightarrow> client s = Some h \<Longrightarrow> \<not> isAlive th h (cworld s) \<Longrightarrow>
    exec_step th t ctx req i s
      (goto i Dropped (s\<lparr>client := None, cworld := closeClient th h (cworld s), hungUp := hungUp s @ [h]\<rparr>))"
| no_client: "pcs s i = Entered \<Longrightarrow> client s = None \<Longrightarrow> exec_step th t ctx req i s (goto i Dropped s)"
| dial: "pcs s i = Dropped \<Longrightarrow> rpcDial th t (cworld s) = (Inr h, w) \<Longrightarrow>
    exec_step th t ctx req i s (goto i (Dialled h) (s\<lparr>cworld := w, dialled := dialled s @ [h]\<rparr>))"
| dial_failed: "pcs s i = Dropped \<Longrightarrow> rpcDial th t (cworld s) = (Inl e, w) \<Longrightarrow>
    exec_step th t ctx req i s (goto i (Finished (Inl e)) (s\<lparr>cworld := w, mutex := None\<rparr>))"
| share: "pcs s i = Dialled h \<Longrightarrow>
    exec_step th t ctx req i s (goto i (Calling h) (s\<lparr>client := Some h, mutex := None\<rparr>))"
| call: "pcs s i = Calling h \<Longrightarrow> req i = (cmd, args) \<Longrightarrow> callWire th h ctx cmd (map toWire args) (cworld s) = (r, w) \<Longrightarrow>
    exec_step th t ctx req i s
      (goto i (Finished (map_sum newServerError fromWire r)) (s\<lparr>cworld := w, called := called s @ [(i, h)]\<rparr>))"

text \<open>\<^verbatim>\<open>Close\<close> of goroutine \<open>i\<close>.\<close>

inductive close_step :: "'w thunder \<Rightarrow> nat \<Rightarrow> 'w rpc_conc \<Rightarrow> 'w rpc_conc \<Rightarrow> bool" for th :: "'w thunder" and i :: nat where
  close_lock: "pcs s i = Idle \<Longrightarrow> mutex s = None \<Longrightarrow> close_step th i s (goto i Closing (s\<lparr>mutex := Some i\<rparr>))"
| close_client: "pcs s i = Closing \<Longrightarrow> client s = Some h \<Longrightarrow>
    close_step th i s (goto i (Finished (Inr GNil))
      (s\<lparr>client := None, cworld := closeClient th h (cworld s), hungUp := hungUp s @ [h], mutex := None\<rparr>))"
| close_nothing: "pcs s i = Closing \<Longrightarrow> client s = None \<Longrightarrow>
    close_step th i s (goto i (Finished (Inr GNil)) (s\<lparr>mutex := None\<rparr>))"

inductive conc_run ::
  "'w thunder \<Rightarrow> SynapRpcTransport \<Rightarrow> goctx \<Rightarrow> (nat \<Rightarrow> string \<times> gval list) \<Rightarrow> 'w rpc_conc \<Rightarrow> bool"
  for th :: "'w thunder" and t :: SynapRpcTransport and ctx :: goctx and req :: "nat \<Rightarrow> string \<times> gval list" where
  start: "conc_run th t ctx req (freshConc w)"
| exec: "conc_run th t ctx req s \<Longrightarrow> exec_step th t ctx req i s s' \<Longrightarrow> conc_run th t ctx req s'"
| close: "conc_run th t ctx req s \<Longrightarrow> close_step th i s s' \<Longrightarrow> conc_run th t ctx req s'"
| world_moves: "conc_run th t ctx req s \<Longrightarrow> conc_run th t ctx req (s\<lparr>cworld := w\<rparr>)"

section \<open>The invariant\<close>

definition inside :: "rpc_pc \<Rightarrow> bool" where
  "inside pc = (case pc of Entered \<Rightarrow> True | Dropped \<Rightarrow> True | Dialled _ \<Rightarrow> True | Closing \<Rightarrow> True | _ \<Rightarrow> False)"

lemma inside_simps [simp]:
  "\<not> inside Idle" "inside Entered" "inside Dropped" "inside (Dialled h)" "\<not> inside (Calling h)" "inside Closing"
  "\<not> inside (Finished r)"
  by (simp_all add: inside_def)

text \<open>What was dialled has been closed in the same order, but for the connection in hand: the shared one, or the one
  just dialled by the goroutine inside, whose program counter is the argument.\<close>

definition accounts :: "'w rpc_conc \<Rightarrow> rpc_pc \<Rightarrow> bool" where
  "accounts s pc =
     (case pc of
        Dropped \<Rightarrow> client s = None \<and> dialled s = hungUp s
      | Dialled h \<Rightarrow> client s = None \<and> dialled s = hungUp s @ [h]
      | _ \<Rightarrow> dialled s = hungUp s @ (case client s of Some h \<Rightarrow> [h] | None \<Rightarrow> []))"

definition lockInv :: "'w rpc_conc \<Rightarrow> bool" where
  "lockInv s =
     (case mutex s of
        None \<Rightarrow> (\<forall>j. \<not> inside (pcs s j)) \<and> accounts s Idle
      | Some i \<Rightarrow> (\<forall>j. inside (pcs s j) \<longleftrightarrow> j = i) \<and> accounts s (pcs s i))"

text \<open>A goroutine calls at most once, on a connection of the transport.\<close>

definition callInv :: "'w rpc_conc \<Rightarrow> bool" where
  "callInv s \<longleftrightarrow>
     (\<forall>i h. pcs s i = Calling h \<longrightarrow> h \<in> set (dialled s))
     \<and> distinct (map fst (called s))
     \<and> (\<forall>i h. (i, h) \<in> set (called s) \<longrightarrow> h \<in> set (dialled s) \<and> (\<exists>r. pcs s i = Finished r))"

lemma inv_fresh: "lockInv (freshConc w)" "callInv (freshConc w)"
  by (simp_all add: lockInv_def accounts_def callInv_def freshConc_def)

lemma accounts_same:
  "client s' = client s \<Longrightarrow> dialled s' = dialled s \<Longrightarrow> hungUp s' = hungUp s \<Longrightarrow> accounts s' pc = accounts s pc"
  by (cases pc) (simp_all add: accounts_def)

lemma inv_world: "lockInv s \<Longrightarrow> lockInv (s\<lparr>cworld := w\<rparr>)" "callInv s \<Longrightarrow> callInv (s\<lparr>cworld := w\<rparr>)"
  by (auto simp: lockInv_def callInv_def accounts_same [of "s\<lparr>cworld := w\<rparr>" s] split: option.splits)

lemma lockInv_inside:
  assumes "lockInv s" and "inside (pcs s i)"
  shows "mutex s = Some i" and "\<And>j. j \<noteq> i \<Longrightarrow> \<not> inside (pcs s j)" and "accounts s (pcs s i)"
  using assms by (auto simp: lockInv_def split: option.splits)

text \<open>The steps by what they do to the mutex.\<close>

lemma lockInv_enter:
  assumes "lockInv s" and "mutex s = None" and "accounts s Idle \<Longrightarrow> accounts s' pc" and "inside pc"
    and "pcs s' = (pcs s)(i := pc)" and "mutex s' = Some i"
  shows "lockInv s'"
  using assms by (simp add: lockInv_def)

lemma lockInv_stay:
  assumes "lockInv s" and "inside (pcs s i)" and "accounts s (pcs s i) \<Longrightarrow> accounts s' pc" and "inside pc"
    and "pcs s' = (pcs s)(i := pc)" and "mutex s' = mutex s"
  shows "lockInv s'"
  using assms lockInv_inside [OF assms(1,2)] by (simp add: lockInv_def)

lemma lockInv_leave:
  assumes "lockInv s" and "inside (pcs s i)" and "accounts s (pcs s i) \<Longrightarrow> accounts s' Idle" and "\<not> inside pc"
    and "pcs s' = (pcs s)(i := pc)" and "mutex s' = None"
  shows "lockInv s'"
  using assms lockInv_inside [OF assms(1,2)] by (simp add: lockInv_def)

lemma lockInv_outside:
  assumes "lockInv s" and "\<not> inside (pcs s i)" and "\<not> inside pc" and "pcs s' = (pcs s)(i := pc)"
    and "mutex s' = mutex s" and "\<And>q. accounts s' q = accounts s q"
  shows "lockInv s'"
  using assms by (auto simp: lockInv_def split: option.splits)

lemma exec_step_lockInv:
  assumes "exec_step th t ctx req i s s'" and "lockInv s"
  shows "lockInv s'"
  using assms(1)
proof cases
  case lock
  then show ?thesis by (intro lockInv_enter [OF assms(2)]) (auto simp: accounts_def)
next
  case (call h cmd args r w)
  then show ?thesis by (intro lockInv_outside [OF assms(2), of i] accounts_same) simp_all
next
  case drop_dead
  then show ?thesis by (intro lockInv_stay [OF assms(2), of i]) (auto simp: accounts_def)
next
  case no_client
  then show ?thesis by (intro lockInv_stay [OF assms(2), of i]) (auto simp: accounts_def)
next
  case dial
  then show ?thesis by (intro lockInv_stay [OF assms(2), of i]) (auto simp: accounts_def)
qed (intro lockInv_leave [OF assms(2), of i]; simp add: accounts_def)+

lemma close_step_lockInv:
  assumes "close_step th i s s'" and "lockInv s"
  shows "lockInv s'"
  using assms(1)
proof cases
  case close_lock
  then show ?thesis by (intro lockInv_enter [OF assms(2)]) (auto simp: accounts_def)
qed (intro lockInv_leave [OF assms(2), of i]; simp add: accounts_def)+

text \<open>A step of a goroutine that has not finished, other than its call.\<close>

lemma called_finished: "callInv s \<Longrightarrow> (j, h) \<in> set (called s) \<Longrightarrow> \<exists>r. pcs s j = Finished r"
  by (simp add: callInv_def)

lemma callInv_move:
  assumes "callInv s" and "\<forall>r. pcs s i \<noteq> Finished r" and "pcs s' = (pcs s)(i := pc)"
    and "called s' = called s" and "set (dialled s) \<subseteq> set (dialled s')"
    and "\<And>h. pc = Calling h \<Longrightarrow> h \<in> set (dialled s')"
  shows "callInv s'"
proof -
  have "j \<noteq> i" if "(j, h) \<in> set (called s)" for j h using called_finished [OF assms(1) that] assms(2) by auto
  with assms(1,3-6) show ?thesis unfolding callInv_def by (auto simp: subset_iff)
qed

lemma client_dialled: "lockInv s \<Longrightarrow> pcs s i = Entered \<Longrightarrow> client s = Some h \<Longrightarrow> h \<in> set (dialled s)"
  using lockInv_inside(3) [of s i] by (simp add: accounts_def)

lemma dialled_in: "lockInv s \<Longrightarrow> pcs s i = Dialled h \<Longrightarrow> h \<in> set (dialled s)"
  using lockInv_inside(3) [of s i] by (simp add: accounts_def)

lemma exec_step_callInv:
  assumes "exec_step th t ctx req i s s'" and "lockInv s" and "callInv s"
  shows "callInv s'"
  using assms(1)
proof cases
  case (call h cmd args r w)
  have "i \<notin> fst ` set (called s)" using called_finished [OF assms(3), of i] call(2) by auto
  with call assms(3) show ?thesis unfolding callInv_def by auto
next
  case (reuse h)
  then show ?thesis using client_dialled [OF assms(2)] by (intro callInv_move [OF assms(3), of i]) auto
next
  case (share h)
  then show ?thesis using dialled_in [OF assms(2)] by (intro callInv_move [OF assms(3), of i]) auto
qed (auto intro: callInv_move [OF assms(3), of i])

lemma close_step_callInv: "close_step th i s s' \<Longrightarrow> callInv s \<Longrightarrow> callInv s'"
  by (erule close_step.cases) (auto intro: callInv_move [of _ i])

lemma conc_run_inv: "conc_run th t ctx req s \<Longrightarrow> lockInv s \<and> callInv s"
  by (induction rule: conc_run.induct)
    (auto intro: inv_fresh inv_world exec_step_lockInv exec_step_callInv close_step_lockInv close_step_callInv)

section \<open>One goroutine alone\<close>

text \<open>The steps of a goroutine with nobody in between are \<open>ensureConnected\<close>, then the call.\<close>

lemma exec_once: "exec_step th t ctx req i s s' \<Longrightarrow> (exec_step th t ctx req i)\<^sup>*\<^sup>* s s'"
  by (rule r_into_rtranclp)

lemma exec_steps_trans:
  "exec_step th t ctx req i s s1 \<Longrightarrow> (exec_step th t ctx req i)\<^sup>*\<^sup>* s1 s' \<Longrightarrow> (exec_step th t ctx req i)\<^sup>*\<^sup>* s s'"
  by (rule converse_rtranclp_into_rtranclp)

definition leaves :: "nat \<Rightarrow> 'w rpc_conc \<Rightarrow> rpc_pc \<Rightarrow> handle option \<Rightarrow> 'w \<Rightarrow> 'w rpc_conc \<Rightarrow> bool" where
  "leaves i s pc cl w s' \<longleftrightarrow> client s' = cl \<and> cworld s' = w \<and> mutex s' = None \<and> pcs s' = (pcs s)(i := pc)"

lemma steps_dial:
  assumes "pcs s i = Dropped" and "client s = None" and "rpcDial th t (cworld s) = (r, w)"
  shows "\<exists>s'. (exec_step th t ctx req i)\<^sup>*\<^sup>* s s'
    \<and> leaves i s (case r of Inr h \<Rightarrow> Calling h | Inl e \<Rightarrow> Finished (Inl e)) (case r of Inr h \<Rightarrow> Some h | Inl e \<Rightarrow> None) w s'"
proof (cases r)
  case (Inl e)
  with assms(3) have "rpcDial th t (cworld s) = (Inl e, w)" by simp
  from exec_once [OF exec_step.dial_failed [OF assms(1) this]] assms(2) Inl show ?thesis
    by (intro exI [of _ "goto i (Finished (Inl e)) (s\<lparr>cworld := w, mutex := None\<rparr>)"]) (simp add: leaves_def)
next
  case (Inr h)
  let ?s1 = "goto i (Dialled h) (s\<lparr>cworld := w, dialled := dialled s @ [h]\<rparr>)"
  let ?s2 = "goto i (Calling h) (?s1\<lparr>client := Some h, mutex := None\<rparr>)"
  from assms(3) Inr have "rpcDial th t (cworld s) = (Inr h, w)" by simp
  then have "exec_step th t ctx req i s ?s1" by (rule exec_step.dial [OF assms(1)])
  moreover have "exec_step th t ctx req i ?s1 ?s2" by (rule exec_step.share) simp
  ultimately have "(exec_step th t ctx req i)\<^sup>*\<^sup>* s ?s2" by (blast intro: exec_steps_trans)
  with Inr show ?thesis by (intro exI [of _ ?s2]) (simp add: leaves_def)
qed

lemma steps_ensure:
  assumes "pcs s i = Entered" and "ensureConnected th t (client s, cworld s) = (r, (cl, w))"
  shows "\<exists>s'. (exec_step th t ctx req i)\<^sup>*\<^sup>* s s'
    \<and> leaves i s (case r of Inr h \<Rightarrow> Calling h | Inl e \<Rightarrow> Finished (Inl e)) cl w s'"
proof -
  consider (alive) h where "client s = Some h" "isAlive th h (cworld s)"
    | (dead) h where "client s = Some h" "\<not> isAlive th h (cworld s)" | (none) "client s = None" by fastforce
  then show ?thesis
  proof cases
    case alive
    from exec_once [OF exec_step.reuse [OF assms(1) alive]] alive assms(2) show ?thesis
      by (intro exI [of _ "goto i (Calling h) (s\<lparr>mutex := None\<rparr>)"]) (auto simp: leaves_def ensureConnected_def)
  next
    case dead
    let ?s1 = "goto i Dropped (s\<lparr>client := None, cworld := closeClient th h (cworld s), hungUp := hungUp s @ [h]\<rparr>)"
    obtain d w' where d: "rpcDial th t (closeClient th h (cworld s)) = (d, w')" by fastforce
    with steps_dial [of ?s1 i th t d w' ctx req] obtain s' where "(exec_step th t ctx req i)\<^sup>*\<^sup>* ?s1 s'"
      "leaves i ?s1 (case d of Inr h \<Rightarrow> Calling h | Inl e \<Rightarrow> Finished (Inl e)) (case d of Inr h \<Rightarrow> Some h | Inl e \<Rightarrow> None) w' s'"
      by auto
    with exec_step.drop_dead [OF assms(1) dead] d dead assms(2) show ?thesis
      by (intro exI [of _ s']) (auto simp: leaves_def ensureConnected_def split: sum.splits intro: exec_steps_trans)
  next
    case none
    obtain d w' where d: "rpcDial th t (cworld s) = (d, w')" by fastforce
    with steps_dial [of "goto i Dropped s" i th t d w' ctx req] none obtain s' where "(exec_step th t ctx req i)\<^sup>*\<^sup>* (goto i Dropped s) s'"
      "leaves i (goto i Dropped s) (case d of Inr h \<Rightarrow> Calling h | Inl e \<Rightarrow> Finished (Inl e)) (case d of Inr h \<Rightarrow> Some h | Inl e \<Rightarrow> None) w' s'"
      by auto
    with exec_steps_trans [OF exec_step.no_client [OF assms(1) none]] d none assms(2) show ?thesis
      by (intro exI [of _ s']) (auto simp: leaves_def ensureConnected_def split: sum.splits)
  qed
qed

lemma steps_lock_ensure:
  assumes "pcs s i = Idle" and "mutex s = None" and "ensureConnected th t (client s, cworld s) = (r, (cl, w))"
  shows "\<exists>s'. (exec_step th t ctx req i)\<^sup>*\<^sup>* s s'
    \<and> leaves i s (case r of Inr h \<Rightarrow> Calling h | Inl e \<Rightarrow> Finished (Inl e)) cl w s'"
  using steps_ensure [of "goto i Entered (s\<lparr>mutex := Some i\<rparr>)" i th t r cl w ctx req]
    exec_steps_trans [OF exec_step.lock [OF assms(1,2), of th t ctx req]] assms(3) by (fastforce simp: leaves_def)

lemma conc_run_steps: "(exec_step th t ctx req i)\<^sup>*\<^sup>* s s' \<Longrightarrow> conc_run th t ctx req s \<Longrightarrow> conc_run th t ctx req s'"
  by (induction rule: rtranclp.induct) (auto intro: conc_run.exec)

section \<open>Properties\<close>

text \<open>C15. Any number of goroutines share one transport, their \<^verbatim>\<open>Execute\<close> and \<^verbatim>\<open>Close\<close> interleaved in any way and
  connections dying at any moment. At most one is between lock and unlock. Whenever the mutex is free, every connection
  ever dialled has been closed exactly once, in the order of dialling, except the one the transport shares: none leaks and
  none is closed twice. Every goroutine sends its command at most once, on a connection the transport dialled.\<close>

theorem shared_client_accounted:
  assumes "conc_run th t ctx req s"
  shows "(\<forall>i j. inside (pcs s i) \<and> inside (pcs s j) \<longrightarrow> i = j)
    \<and> (mutex s = None \<longrightarrow> dialled s = hungUp s @ (case client s of Some h \<Rightarrow> [h] | None \<Rightarrow> []))
    \<and> distinct (map fst (called s)) \<and> snd ` set (called s) \<subseteq> set (dialled s)"
proof (intro conjI)
  from conc_run_inv [OF assms] have inv: "lockInv s" "callInv s" by simp_all
  show "\<forall>i j. inside (pcs s i) \<and> inside (pcs s j) \<longrightarrow> i = j" using lockInv_inside(2) [OF inv(1)] by blast
  show "mutex s = None \<longrightarrow> dialled s = hungUp s @ (case client s of Some h \<Rightarrow> [h] | None \<Rightarrow> [])"
    using inv(1) by (cases "mutex s") (simp_all add: lockInv_def accounts_def)
  show "distinct (map fst (called s))" "snd ` set (called s) \<subseteq> set (dialled s)" using inv(2) by (auto simp: callInv_def)
qed

theorem shared_client_accounted_witness:
  "\<exists>s. conc_run obligingThunder (newSynapRpcTransport ''h'' 1 2) \<lparr>ctxDeadline = None\<rparr> (\<lambda>i. (''GET'', [GStr ''k''])) s
     \<and> pcs s 0 = Calling 1 \<and> pcs s 1 = Calling 1 \<and> dialled s = hungUp s @ [1]"
proof -
  let ?t = "newSynapRpcTransport ''h'' 1 2" and ?ctx = "\<lparr>ctxDeadline = None\<rparr>" and ?req = "\<lambda>i :: nat. (''GET'', [GStr ''k''])"
  let ?s0 = "freshConc () :: unit rpc_conc"
  have "ensureConnected obligingThunder ?t (client ?s0, cworld ?s0) = (Inr 1, (Some 1, ()))"
    by (simp add: freshConc_def ensureConnected_def rpcDial_def obligingThunder_def)
  from steps_lock_ensure [OF _ _ this, of 0 ?ctx ?req] obtain s1 where s1: "(exec_step obligingThunder ?t ?ctx ?req 0)\<^sup>*\<^sup>* ?s0 s1"
    "leaves 0 ?s0 (Calling 1) (Some 1) () s1" by (auto simp: freshConc_def)
  have "ensureConnected obligingThunder ?t (client s1, cworld s1) = (Inr 1, (Some 1, ()))"
    using s1(2) by (simp add: leaves_def ensureConnected_def obligingThunder_def)
  from steps_lock_ensure [OF _ _ this, of 1 ?ctx ?req] s1(2) obtain s2 where s2: "(exec_step obligingThunder ?t ?ctx ?req 1)\<^sup>*\<^sup>* s1 s2"
    "leaves 1 s1 (Calling 1) (Some 1) () s2" by (auto simp: leaves_def freshConc_def)
  have run: "conc_run obligingThunder ?t ?ctx ?req s2" by (intro conc_run_steps [OF s2(1)] conc_run_steps [OF s1(1)] conc_run.start)
  with shared_client_accounted [OF run] s1(2) s2(2) show ?thesis by (intro exI [of _ s2]) (auto simp: leaves_def)
qed

text \<open>C27. The goroutines are never stuck: one that has not finished can take a step, or another holds the mutex and that
  one can.\<close>

theorem goroutines_progress:
  assumes "conc_run th t ctx req s" and "\<forall>r. pcs s i \<noteq> Finished r"
  shows "\<exists>j s'. (j = i \<or> mutex s = Some j) \<and> (exec_step th t ctx req j s s' \<or> close_step th j s s')"
proof -
  from conc_run_inv [OF assms(1)] have inv: "lockInv s" by simp
  have moves: "\<exists>s'. exec_step th t ctx req j s s' \<or> close_step th j s s'"
    if pc: "\<forall>r. pcs s j \<noteq> Finished r" "pcs s j = Idle \<longrightarrow> mutex s = None" for j
  proof (cases "pcs s j")
    case Entered
    then show ?thesis by (cases "client s"; cases "isAlive th (the (client s)) (cworld s)") (fastforce intro: exec_step.intros)+
  next
    case Dropped
    then show ?thesis by (cases "rpcDial th t (cworld s)"; cases "fst (rpcDial th t (cworld s))") (fastforce intro: exec_step.intros)+
  next
    case (Calling h)
    then show ?thesis by (metis exec_step.call prod.collapse)
  next
    case Closing
    then show ?thesis by (cases "client s") (blast intro: close_step.intros)+
  qed (use pc in \<open>auto intro: exec_step.intros\<close>)
  show ?thesis
  proof (cases "mutex s")
    case None
    with moves [of i] assms(2) show ?thesis by blast
  next
    case (Some j)
    with inv have "inside (pcs s j)" by (simp add: lockInv_def)
    then have "\<forall>r. pcs s j \<noteq> Finished r" "pcs s j \<noteq> Idle" by auto
    with moves [of j] Some show ?thesis by blast
  qed
qed

theorem goroutines_progress_witness:
  "\<exists>j s'. exec_step obligingThunder (newSynapRpcTransport ''h'' 1 2) \<lparr>ctxDeadline = None\<rparr> (\<lambda>i. (''GET'', [])) j (freshConc ()) s'
     \<or> close_step obligingThunder j (freshConc ()) s'"
  using goroutines_progress [where th = obligingThunder and t = "newSynapRpcTransport ''h'' 1 2" and ctx = "\<lparr>ctxDeadline = None\<rparr>"
      and req = "\<lambda>i. (''GET'', [])" and s = "freshConc ()" and i = 0, OF conc_run.start]
  by (auto simp: freshConc_def)



end
