(* ===== verification/Spec2Isabelle.thy ===== *)
theory Spec2Isabelle
  imports Json_Envelope Collections_Refinement Interop Rpc_Concurrency
begin

text \<open>
  The Go client library of the Synap server (package \<^verbatim>\<open>synap\<close>), modelled and verified.

  \<^bold>\<open>The program.\<close> A program builds a \<^verbatim>\<open>Config\<close> from a URL, makes a \<^verbatim>\<open>SynapClient\<close> of it and calls the methods of the
  modules: key-value store, hashes, lists, sets, queues, streams, publish/subscribe and transactions. A method
  puts its arguments into a payload struct and hands the command name and the payload to \<^verbatim>\<open>sendCommand\<close>,
  which goes one of three ways. Over HTTP the payload is marshalled into a JSON envelope and posted. Over
  SynapRPC the payload becomes a map by reflection, \<^verbatim>\<open>mapCommandToWire\<close> turns command and map into a raw
  command with arguments, Thunder's client carries them, and \<^verbatim>\<open>mapResponseFromWire\<close> turns the reply into the
  object the method expects. RESP3 is the same with a JSON round trip instead of reflection and a hand-written
  RESP codec over one TCP connection. The method then decodes the reply into a struct. A transaction is a copy
  of the client with a client id, which turns every command into \<^verbatim>\<open>TXQUEUE\<close>. \<^verbatim>\<open>Observe\<close> and \<^verbatim>\<open>Watch\<close> open a
  connection of their own and deliver pushed frames through a buffered channel.

  \<^bold>\<open>The theories\<close>, in the order of their imports, with the sources they model.

  \<^item> \<open>Go_Prelude\<close>, \<open>Go_Strconv\<close>, \<open>Go_Float\<close>, \<open>Go_Value\<close>: the language and its library as far as the client
    uses them (errors as the left of a sum, loops that stop at the first error, maps as association lists,
    \<^verbatim>\<open>strings\<close>, \<^verbatim>\<open>strconv\<close>, IEEE binary64, UTF-8, dynamic values), and \<^verbatim>\<open>errors.go\<close>.
  \<^item> \<open>Payload\<close>: \<^verbatim>\<open>payload.go\<close>. \<open>Go_Json\<close>, \<open>Json_Roundtrip\<close>, \<open>Json_Raw\<close>: \<^verbatim>\<open>encoding/json\<close> as used, with the
    envelopes and the splicing of the client id of \<^verbatim>\<open>client.go\<close>.
  \<^item> \<open>Response\<close>: \<^verbatim>\<open>response.go\<close>. \<open>Command_Map\<close>, \<open>Response_Map\<close>: \<^verbatim>\<open>mapCommandToWire\<close>, \<^verbatim>\<open>normalizeInts\<close> and
    \<^verbatim>\<open>mapResponseFromWire\<close> of \<^verbatim>\<open>client.go\<close>, one definition per family of cases.
  \<^item> \<open>Rpc_Transport\<close>: \<^verbatim>\<open>transport_rpc.go\<close>; \<open>Rpc_Concurrency\<close>: its \<^verbatim>\<open>Execute\<close> and \<^verbatim>\<open>Close\<close> statement by statement, with
    the mutex, for goroutines that share it. \<open>Resp3_Codec\<close>, \<open>Resp3_Transport\<close>: \<^verbatim>\<open>transport_resp3.go\<close>.
  \<^item> \<open>Config\<close>, \<open>Client\<close>: the rest of \<^verbatim>\<open>client.go\<close> (configuration, authentication, request ids, \<^verbatim>\<open>NewClient\<close>,
    \<^verbatim>\<open>sendCommand\<close> and the three senders).
  \<^item> \<open>Module_Base\<close>, \<open>KV\<close>, \<open>Collections\<close>, \<open>Messaging\<close>, \<open>Transaction\<close>: \<^verbatim>\<open>kv.go\<close>, \<^verbatim>\<open>hash.go\<close>, \<^verbatim>\<open>list.go\<close>, \<^verbatim>\<open>set.go\<close>,
    \<^verbatim>\<open>queue.go\<close>, \<^verbatim>\<open>stream.go\<close>, \<^verbatim>\<open>pubsub.go\<close>, \<^verbatim>\<open>transaction.go\<close> and the structs of \<^verbatim>\<open>types.go\<close>. A method is a definition
    over the sender of its client, so it runs on every transport.
  \<^item> \<open>Push\<close>: \<^verbatim>\<open>Observe\<close> of \<^verbatim>\<open>pubsub.go\<close> and \<^verbatim>\<open>Watch\<close> of \<^verbatim>\<open>kv.go\<close> as a step relation.
  \<^item> \<open>Interop\<close>: the program \<^verbatim>\<open>cmd/interop/main.go\<close>, which runs the client against a server and reports.
  \<^item> \<open>Decode_Types\<close>, \<open>Error_Contract\<close>, \<open>Requests\<close>, \<open>KV_Refinement\<close>, \<open>Collections_Refinement\<close>, \<open>Json_Envelope\<close>,
    \<open>Scopes\<close>: the properties that span components.

  \<^bold>\<open>State.\<close> What the transports change is in the record \<open>'w env\<close>: the shared Thunder client, the RESP3
  connection with its unread bytes, and the world. The world is a type variable; what acts on it is the record
  \<open>'w platform\<close> (Thunder's client, the network, the HTTP client, the random source), code outside the repository
  and therefore a parameter. The hypotheses of a property say what it needs of them; its witness gives a
  concrete platform. The senders, \<^verbatim>\<open>Execute\<close> and \<^verbatim>\<open>Close\<close> are state transformations: what one goroutine does with nobody
  in between. The RESP3 transport holds its mutex during the whole call, so for it that is every call. The SynapRPC
  transport holds its mutex only while it finds or dials the shared connection, and the calls of several goroutines
  overlap: \<open>Rpc_Concurrency\<close> has their interleavings. The copy a transaction makes shares its transports, so it shares
  the \<open>env\<close>.

  \<^bold>\<open>What is shown.\<close>

  \<^item> \<^emph>\<open>Refinement.\<close> The locale \<open>kv_backend\<close> is the contract between the key-value module and a transport with
    a server behind it; under it every sequence of operations refines a finite map. It is interpreted on the
    SynapRPC sender (any bytes) and on the RESP3 sender (UTF-8 text). The locale \<open>coll_backend\<close> is the same for
    lists and sets, with a server given as a step relation that may choose the form of its replies and the order in
    which one push of several values puts them at the head of a list.
  \<^item> \<^emph>\<open>The whole program.\<close> \<^verbatim>\<open>cmd/interop\<close> prints one line per step and its exit code is the verdict; against a server
    that serves its commands it passes.
  \<^item> \<^emph>\<open>Codecs.\<close> The locale \<open>framing\<close> lifts a round trip of one frame to sequences of frames; it is interpreted on
    RESP replies (top-level errors included) and requests. Requests cannot be forged through arguments. JSON text, Thunder values, the
    HTTP envelopes and URLs read back as what was printed.
  \<^item> \<^emph>\<open>Decoding.\<close> A reply that decodes has the Go type of its target, and the reflective and the JSON decoder agree on
    replies of nil, booleans, numbers, text, lists and maps that fit their target (no floats, byte slices, or numbers into
    an \<^verbatim>\<open>interface{}\<close>, where they differ).
  \<^item> \<^emph>\<open>Errors.\<close> The locale \<open>sender_contract\<close> carries a set of allowed errors from a sender to every method of every
    module, the locale \<open>client_contract\<close> to everything a client offers, transactions and push subscriptions included;
    it is interpreted on the clients of the three transports.
  \<^item> \<^emph>\<open>Connections.\<close> Traces of what is asked of Thunder and of the network: reuse, one replacement of a dead
    connection, nothing left open, the order of hook and subscription; under every interleaving of goroutines on the
    shared SynapRPC connection, mutual exclusion, no leak, no double close and no deadlock.
  \<^item> \<^emph>\<open>Subscriptions.\<close> The locale \<open>push_channel\<close> has the invariant of the step relation for any decoder of frames
    and any capacity, with frames arriving in every phase; it is interpreted on \<^verbatim>\<open>Observe\<close> and \<^verbatim>\<open>Watch\<close>.
  \<^item> \<^emph>\<open>Transactions.\<close> Nothing sent through a scope runs outside its transaction; the outcomes of \<^verbatim>\<open>Exec\<close>.
  \<^item> \<^emph>\<open>Limits of the code\<close>, proved as they are: replies that panic the RESP reader, an error inside an array,
    unsigned truncation, TTLs below a second, offsets beyond \<open>2^53\<close>, results of hash writes, messages hidden by
    \<^verbatim>\<open>Consume\<close>, an empty password.

  \<^bold>\<open>Fuel.\<close> Two recursions carry fuel. \<open>readValue\<close> (the nesting of a RESP reply) runs with one more than the number
  of unread bytes and \<open>parseValue\<close> (the JSON parser) with a bound from the length of the text;
  \<open>readValue_enough\<close> and \<open>parseJson_enough\<close> show that any larger bound gives the same result, and
  \<open>readResponse_terminates\<close> that the reader satisfies the recursion of the source. The other loops are
  structural or have a measure.

  \<^bold>\<open>Not modelled.\<close> The text of struct types and the quoting of \<^verbatim>\<open>%q\<close> in error messages (the errors
  themselves are); Unicode blanks in \<^verbatim>\<open>Sscanf\<close>; the difference between a nil and an empty slice in results, and in the
  \<^verbatim>\<open>[]string\<close> arguments of the methods (a nil one is taken as empty: the same on the native wires, \<^verbatim>\<open>null\<close> instead of
  \<^verbatim>\<open>[]\<close> in an HTTP body); the accessors that wrap a client in a module; the mutex of the RESP3 transport. Conversions of floats outside the target range
  depend on the processor in Go, the model takes amd64. Whether Thunder's \<^verbatim>\<open>Close\<close> waits for a running push hook
  is not visible in the sources; the step relation lets frames arrive after it too. \<^verbatim>\<open>examples/basic\<close> is a straight-line
  demonstration that calls one method after the other and prints what they return with the verbs \<^verbatim>\<open>%q\<close>, \<^verbatim>\<open>%v\<close> and
  \<^verbatim>\<open>%.2f\<close>; it has no logic of its own and is left out, like the tests.
\<close>

end
